theory Spec2Isabelle
  imports Main "HOL-Library.List_Lexorder"
begin

section \<open>Go values\<close>

text \<open>
  A Go \<^verbatim>\<open>rune\<close> is a code point, an \<^verbatim>\<open>int32\<close>; the lexer's end-of-input marker
  \<^verbatim>\<open>eof = rune(-1)\<close> is a value of the same type, so runes are integers. A Go string
  that is valid UTF-8 is determined by its sequence of code points, and every string the
  lexer builds is \<^verbatim>\<open>string(runes)\<close>: strings are lists of runes. \<^verbatim>\<open>len(s)\<close> of a Go
  string counts bytes, which \<open>len_string\<close> computes from the UTF-8 width of each rune.
\<close>

type_synonym rune = int
type_synonym gostring = "rune list"

definition eof :: rune where
  "eof = -1"

definition str :: "string \<Rightarrow> gostring" where
  "str s = map of_char s"

definition utf8RuneLen :: "rune \<Rightarrow> int" where
  "utf8RuneLen r =
     (if r < 0 \<or> 1114111 < r \<or> (55296 \<le> r \<and> r \<le> 57343) then 3
      else if r < 128 then 1
      else if r < 2048 then 2
      else if r < 65536 then 3
      else 4)"

definition len_string :: "gostring \<Rightarrow> int" where
  "len_string s = sum_list (map utf8RuneLen s)"

text \<open>\<^verbatim>\<open>slices.Contains\<close>.\<close>

fun contains :: "'a list \<Rightarrow> 'a \<Rightarrow> bool" where
  "contains [] x = False"
| "contains (y # ys) x = (if y = x then True else contains ys x)"

text \<open>The slice expression \<^verbatim>\<open>xs[lo:hi]\<close> on indices that are in range.\<close>

definition slice :: "'a list \<Rightarrow> int \<Rightarrow> int \<Rightarrow> 'a list" where
  "slice xs lo hi = take (nat (hi - lo)) (drop (nat lo) xs)"

text \<open>
  \<^verbatim>\<open>strings.ToUpper\<close> maps \<^verbatim>\<open>unicode.ToUpper\<close> over the runes. The code only ever compares
  its result with upper-case ASCII literals, or prints it. The two code points outside
  ASCII whose upper case is an ASCII letter (U+0131 to I, U+017F to S) are mapped as
  Unicode does; every other code point outside ASCII is left as it is, which gives
  every comparison with an ASCII literal its value in Go.
\<close>

definition toUpperRune :: "rune \<Rightarrow> rune" where
  "toUpperRune r =
     (if 97 \<le> r \<and> r \<le> 122 then r - 32
      else if r = 305 then 73
      else if r = 383 then 83
      else r)"

definition ToUpper :: "gostring \<Rightarrow> gostring" where
  "ToUpper s = map toUpperRune s"

text \<open>
  \<^verbatim>\<open>unicode.IsDigit\<close>: the decimal digits of Unicode (category Nd). The table lives in
  Go's standard library, not in this repository; the ranges below are those of Unicode
  15, each a run of ten digits, the mathematical digits a run of fifty.
\<close>

definition digitRanges :: "(int \<times> int) list" where
  "digitRanges =
     [(48, 57), (1632, 1641), (1776, 1785), (1984, 1993), (2406, 2415), (2534, 2543),
      (2662, 2671), (2790, 2799), (2918, 2927), (3046, 3055), (3174, 3183), (3302, 3311),
      (3430, 3439), (3558, 3567), (3664, 3673), (3792, 3801), (3872, 3881), (4160, 4169),
      (4240, 4249), (6112, 6121), (6160, 6169), (6470, 6479), (6608, 6617), (6784, 6793),
      (6800, 6809), (6992, 7001), (7088, 7097), (7232, 7241), (7248, 7257), (42528, 42537),
      (43216, 43225), (43264, 43273), (43472, 43481), (43504, 43513), (43600, 43609),
      (44016, 44025), (65296, 65305), (66720, 66729), (68912, 68921), (69734, 69743),
      (69872, 69881), (69942, 69951), (70096, 70105), (70384, 70393), (70736, 70745),
      (70864, 70873), (71248, 71257), (71360, 71369), (71472, 71481), (71904, 71913),
      (72016, 72025), (72784, 72793), (73040, 73049), (73120, 73129), (73552, 73561), (92768, 92777),
      (92864, 92873), (93008, 93017), (120782, 120831), (123200, 123209),
      (123632, 123641), (124144, 124153), (125264, 125273), (130032, 130041)]"

definition IsDigit :: "rune \<Rightarrow> bool" where
  "IsDigit r = list_ex (\<lambda>(lo, hi). lo \<le> r \<and> r \<le> hi) digitRanges"


section \<open>Types (types.go)\<close>

text \<open>
  \<^verbatim>\<open>Dialect\<close> is a Go string type, and a caller can pass any string: the name is kept as
  a string of bytes.
\<close>

type_synonym Dialect = string

definition DialectMSSQL :: Dialect where "DialectMSSQL = ''mssql''"
definition DialectSQLite :: Dialect where "DialectSQLite = ''sqlite''"
definition DialectMySQL :: Dialect where "DialectMySQL = ''mysql''"
definition DialectOracle :: Dialect where "DialectOracle = ''oracle''"
definition DialectPSQL :: Dialect where "DialectPSQL = ''psql''"
definition DialectBigQuery :: Dialect where "DialectBigQuery = ''bigquery''"
definition DialectGeneric :: Dialect where "DialectGeneric = ''generic''"

definition DIALECTS :: "Dialect list" where
  "DIALECTS = [DialectMSSQL, DialectSQLite, DialectMySQL, DialectOracle, DialectPSQL,
               DialectBigQuery, DialectGeneric]"

lemmas dialect_defs =
  DialectMSSQL_def DialectSQLite_def DialectMySQL_def DialectOracle_def DialectPSQL_def
  DialectBigQuery_def DialectGeneric_def

text \<open>
  A value a panic carries, and the error \<^verbatim>\<open>Identify\<close> makes of it with
  \<^verbatim>\<open>fmt.Errorf("%v", r)\<close>, which has the same text. \<open>Errorf\<close> carries the text of a
  message this repository builds. The Go runtime's own panics (an index or a slice
  bound out of range) and the panic of \<^verbatim>\<open>regexp.MustCompile\<close> on a pattern that does
  not compile are values whose text is not modelled.
\<close>

datatype error = Errorf gostring | RuntimeErr | RegexpErr

datatype TokenType =
  TokenWhitespace | TokenCommentInline | TokenCommentBlock | TokenString | TokenSemicolon
  | TokenKeyword | TokenParameter | TokenTable | TokenUnknown

record Token =
  tType :: TokenType
  tValue :: gostring
  tStart :: int
  tEnd :: int

record State =
  Start :: int
  End :: int
  Position :: int
  Input :: "rune list"

text \<open>
  A custom parameter pattern is a string the lexer compiles, wrapped as \<^verbatim>\<open>^(?:r)\<close>,
  each time it needs it. The regular expression library is not part of this repository:
  a pattern is modelled by what the library makes of it. \<open>Invalid\<close> is a pattern
  \<^verbatim>\<open>MustCompile\<close> panics on; \<open>Pattern f\<close> is one that compiles, where \<open>f text\<close> is the
  leftmost match of the wrapped expression in \<open>text\<close>, \<open>None\<close> when there is none.
\<close>

datatype pattern = Invalid | Pattern "gostring \<Rightarrow> gostring option"

record ParamTypes =
  Positional :: "bool option"
  Numbered :: "rune list"
  Named :: "rune list"
  Quoted :: "rune list"
  Custom :: "pattern list"

section \<open>The lexer (tokenizer.go)\<close>

text \<open>
  The reserved words. Runes are written as their code points: 32 is a space, 9 a tab,
  10 a line feed, 13 a carriage return, 34 a double quote, 36 a dollar sign, 39 a single
  quote, 42 an asterisk, 45 a hyphen, 47 a slash, 58 a colon, 59 a semicolon, 63 a question
  mark, 91 and 93 the square brackets, 95 an underscore, 96 a backquote.
\<close>

definition keywordTable :: "gostring list" where
  "keywordTable = map str
     [''SELECT'', ''INSERT'', ''DELETE'', ''UPDATE'', ''CREATE'', ''DROP'', ''DATABASE'',
      ''SCHEMA'', ''TABLE'', ''VIEW'', ''TRIGGER'', ''FUNCTION'', ''INDEX'', ''ALTER'',
      ''TRUNCATE'', ''WITH'', ''AS'', ''MATERIALIZED'', ''BEGIN'', ''DECLARE'', ''CASE'',
      ''LOOP'', ''IF'', ''REPEAT'', ''WHILE'', ''FOR'', ''PROCEDURE'', ''SHOW'', ''DATABASES'',
      ''KEYS'', ''TABLES'', ''COLUMNS'', ''STATUS'', ''BINARY'', ''BINLOG'', ''CHARACTER'',
      ''COLLATION'', ''ENGINE'', ''ENGINES'', ''ERRORS'', ''EVENTS'', ''GRANTS'', ''MASTER'',
      ''OPEN'', ''PLUGINS'', ''PRIVILEGES'', ''PROCESSLIST'', ''PROFILE'', ''PROFILES'',
      ''RELAYLOG'', ''REPLICAS'', ''SLAVE'', ''REPLICA'', ''TRIGGERS'', ''VARIABLES'',
      ''WARNINGS'']"

definition individuals :: "gostring \<Rightarrow> TokenType option" where
  "individuals ch = (if ch = [59] then Some TokenSemicolon else None)"

definition endTokens :: "rune \<Rightarrow> rune option" where
  "endTokens ch =
     (if ch = 34 then Some 34
      else if ch = 39 then Some 39
      else if ch = 96 then Some 96
      else if ch = 91 then Some 93
      else None)"

definition read :: "State \<Rightarrow> int \<Rightarrow> rune \<times> State" where
  "read state skip =
     (if Position state + skip \<ge> int (length (Input state)) - 1 then (eof, state)
      else (Input state ! nat (Position state + 1 + skip),
            state\<lparr>Position := Position state + 1 + skip\<rparr>))"

definition unread :: "State \<Rightarrow> State" where
  "unread state =
     (if Position state \<le> Start state then state
      else state\<lparr>Position := Position state - 1\<rparr>)"

definition peekBack :: "State \<Rightarrow> rune" where
  "peekBack state =
     (if Position state = 0 then eof else Input state ! nat (Position state - 1))"

definition peek :: "State \<Rightarrow> rune" where
  "peek state =
     (if Position state \<ge> int (length (Input state)) - 1 then eof
      else Input state ! nat (Position state + 1))"

definition isKeyword :: "gostring \<Rightarrow> bool" where
  "isKeyword word = contains keywordTable (ToUpper word)"

definition resolveIndividualTokenType :: "gostring \<Rightarrow> TokenType option" where
  "resolveIndividualTokenType ch = individuals ch"

definition isWhitespace :: "rune \<Rightarrow> bool" where
  "isWhitespace ch = (ch = 32 \<or> ch = 9 \<or> ch = 10 \<or> ch = 13)"

definition isLetter :: "rune \<Rightarrow> bool" where
  "isLetter ch =
     (ch \<noteq> eof \<and> ((97 \<le> ch \<and> ch \<le> 122) \<or> (65 \<le> ch \<and> ch \<le> 90) \<or> ch = 95))"

definition isAlphaNumeric :: "rune \<Rightarrow> bool" where
  "isAlphaNumeric ch = (ch \<noteq> eof \<and> (isLetter ch \<or> (48 \<le> ch \<and> ch \<le> 57)))"

definition isString :: "rune \<Rightarrow> Dialect \<Rightarrow> bool" where
  "isString ch dialect =
     contains (if dialect = DialectMySQL then [39, 34] else [39]) ch"

definition isQuotedIdentifier :: "rune \<Rightarrow> Dialect \<Rightarrow> bool" where
  "isQuotedIdentifier ch dialect =
     contains (if dialect = DialectMSSQL then [34, 91] else [34, 96]) ch"

text \<open>
  Every scan function ends with the same token literal: the text from the token's start
  to the cursor, and an end offset computed from the length of that text in bytes.
\<close>

definition currentValue :: "State \<Rightarrow> gostring" where
  "currentValue state = slice (Input state) (Start state) (Position state + 1)"

definition makeToken :: "TokenType \<Rightarrow> State \<Rightarrow> Token" where
  "makeToken ty state =
     \<lparr>tType = ty, tValue = currentValue state, tStart = Start state,
      tEnd = Start state + len_string (currentValue state) - 1\<rparr>"

function scanWhitespace_loop :: "State \<Rightarrow> rune \<times> State" where
  "scanWhitespace_loop state =
     (case read state 0 of (nextChar, state') \<Rightarrow>
        if \<not> isWhitespace nextChar then (nextChar, state')
        else scanWhitespace_loop state')"
  by pat_completeness auto
termination
  by (relation "measure (\<lambda>s. nat (int (length (Input s)) - Position s))")
     (auto simp: read_def isWhitespace_def eof_def split: if_splits)

declare scanWhitespace_loop.simps [simp del]

definition scanWhitespace :: "State \<Rightarrow> Token \<times> State" where
  "scanWhitespace state =
     (case scanWhitespace_loop state of (nextChar, state1) \<Rightarrow>
        let state2 = (if nextChar \<noteq> eof then unread state1 else state1)
        in (makeToken TokenWhitespace state2, state2))"

function scanCommentInline_loop :: "State \<Rightarrow> State" where
  "scanCommentInline_loop state =
     (case read state 0 of (nextChar, state') \<Rightarrow>
        if nextChar = 10 \<or> nextChar = eof then state'
        else scanCommentInline_loop state')"
  by pat_completeness auto
termination
  by (relation "measure (\<lambda>s. nat (int (length (Input s)) - Position s))")
     (auto simp: read_def eof_def split: if_splits)

declare scanCommentInline_loop.simps [simp del]

definition scanCommentInline :: "State \<Rightarrow> Token \<times> State" where
  "scanCommentInline state =
     (let state1 = scanCommentInline_loop state
      in (makeToken TokenCommentInline state1, state1))"

text \<open>
  The opening delimiter of a dollar-quoted string, \<^verbatim>\<open>^(\$[a-zA-Z0-9_]*\$)\<close>: a dollar
  sign, the longest run of word characters, a dollar sign. \<^verbatim>\<open>isDollarQuotedString\<close> tests
  \<^verbatim>\<open>^\$\w*\$\<close>, which matches the same texts.
\<close>

definition isWordChar :: "rune \<Rightarrow> bool" where
  "isWordChar r = ((97 \<le> r \<and> r \<le> 122) \<or> (65 \<le> r \<and> r \<le> 90) \<or> (48 \<le> r \<and> r \<le> 57) \<or> r = 95)"

definition dollarQuotedStringOpenerRegex :: "gostring \<Rightarrow> gostring option" where
  "dollarQuotedStringOpenerRegex text =
     (case text of
        [] \<Rightarrow> None
      | c # rest \<Rightarrow>
          if c = 36 then
            (case dropWhile isWordChar rest of
               [] \<Rightarrow> None
             | d # _ \<Rightarrow> if d = 36 then Some (c # takeWhile isWordChar rest @ [d]) else None)
          else None)"

definition isDollarQuotedString :: "State \<Rightarrow> bool" where
  "isDollarQuotedString state =
     (dollarQuotedStringOpenerRegex (drop (nat (Start state)) (Input state)) \<noteq> None)"

primrec readN :: "nat \<Rightarrow> State \<Rightarrow> State" where
  "readN 0 state = state"
| "readN (Suc n) state = readN n (snd (read state 0))"

function readToEof :: "State \<Rightarrow> State" where
  "readToEof state =
     (case read state 0 of (c, state') \<Rightarrow> if c \<noteq> eof then readToEof state' else state')"
  by pat_completeness auto
termination
  by (relation "measure (\<lambda>s. nat (int (length (Input s)) - Position s))")
     (auto simp: read_def eof_def split: if_splits)

declare readToEof.simps [simp del]

function scanDollarQuotedString_loop :: "State \<Rightarrow> gostring \<Rightarrow> State" where
  "scanDollarQuotedString_loop state label =
     (if Position state + 1 + int (length label) > int (length (Input state))
      then readToEof state
      else if slice (Input state) (Position state + 1) (Position state + 1 + int (length label))
              = label
      then readN (length label) state
      else (case read state 0 of (c, state') \<Rightarrow>
              if c = eof then state' else scanDollarQuotedString_loop state' label))"
  by pat_completeness auto
termination
  by (relation "measure (\<lambda>(s, l). nat (int (length (Input s)) - Position s))")
     (auto simp: read_def eof_def split: if_splits)

declare scanDollarQuotedString_loop.simps [simp del]

definition scanDollarQuotedString :: "State \<Rightarrow> error + Token \<times> State" where
  "scanDollarQuotedString state =
     (case dollarQuotedStringOpenerRegex (drop (nat (Start state)) (Input state)) of
        None \<Rightarrow> Inl (Errorf (str ''Could not find dollar quoted string opener''))
      | Some label \<Rightarrow>
          let state1 = readN (length label - 1) state;
              state2 = scanDollarQuotedString_loop state1 label
          in Inr (makeToken TokenString state2, state2))"

function scanString_loop :: "State \<Rightarrow> rune \<Rightarrow> rune \<times> State" where
  "scanString_loop state endToken =
     (case read state 0 of (nextChar, state1) \<Rightarrow>
        if nextChar = endToken then
          (if peek state1 = endToken then
             (if nextChar = eof then (nextChar, snd (read state1 0))
              else scanString_loop (snd (read state1 0)) endToken)
           else (nextChar, state1))
        else if nextChar = eof then (nextChar, state1)
        else scanString_loop state1 endToken)"
  by pat_completeness auto
termination
  by (relation "measure (\<lambda>(s, e). nat (int (length (Input s)) - Position s))")
     (auto simp: read_def eof_def split: if_splits)

declare scanString_loop.simps [simp del]

definition scanString :: "State \<Rightarrow> rune \<Rightarrow> Token \<times> State" where
  "scanString state endToken =
     (case scanString_loop state endToken of (nextChar, state1) \<Rightarrow>
        let state2 = (if nextChar = eof then unread state1 else state1)
        in (makeToken TokenString state2, state2))"

text \<open>
  The block comment's loop keeps the previous character, which starts as the zero rune.
  The text of two runes is \<^verbatim>\<open>*/\<close> exactly when they are 42 and 47.
\<close>

function scanCommentBlock_loop :: "State \<Rightarrow> rune \<Rightarrow> State" where
  "scanCommentBlock_loop state prevChar =
     (case read state 0 of (nextChar, state') \<Rightarrow>
        if (prevChar \<noteq> eof \<and> nextChar \<noteq> eof \<and> prevChar = 42 \<and> nextChar = 47) \<or> nextChar = eof
        then state'
        else scanCommentBlock_loop state' nextChar)"
  by pat_completeness auto
termination
  by (relation "measure (\<lambda>(s, c). nat (int (length (Input s)) - Position s))")
     (auto simp: read_def eof_def split: if_splits)

declare scanCommentBlock_loop.simps [simp del]

definition scanCommentBlock :: "State \<Rightarrow> Token \<times> State" where
  "scanCommentBlock state =
     (let state1 = scanCommentBlock_loop state 0
      in (makeToken TokenCommentBlock state1, state1))"

function scanQuotedIdentifier_loop :: "State \<Rightarrow> rune \<Rightarrow> rune \<times> State" where
  "scanQuotedIdentifier_loop state endToken =
     (case read state 0 of (nextChar, state') \<Rightarrow>
        if nextChar = endToken \<or> nextChar = eof then (nextChar, state')
        else scanQuotedIdentifier_loop state' endToken)"
  by pat_completeness auto
termination
  by (relation "measure (\<lambda>(s, e). nat (int (length (Input s)) - Position s))")
     (auto simp: read_def eof_def split: if_splits)

declare scanQuotedIdentifier_loop.simps [simp del]

definition scanQuotedIdentifier :: "State \<Rightarrow> rune \<Rightarrow> Token \<times> State" where
  "scanQuotedIdentifier state endToken =
     (case scanQuotedIdentifier_loop state endToken of (nextChar, state1) \<Rightarrow>
        let state2 = (if nextChar = eof then unread state1 else state1)
        in (makeToken TokenKeyword state2, state2))"

definition skipWord :: "State \<Rightarrow> gostring \<Rightarrow> Token" where
  "skipWord state v =
     \<lparr>tType = TokenUnknown, tValue = v, tStart = Start state,
      tEnd = Start state + len_string v - 1\<rparr>"

function scanWord_loop :: "State \<Rightarrow> rune \<times> State" where
  "scanWord_loop state =
     (case read state 0 of (nextChar, state') \<Rightarrow>
        if \<not> isLetter nextChar then (nextChar, state') else scanWord_loop state')"
  by pat_completeness auto
termination
  by (relation "measure (\<lambda>s. nat (int (length (Input s)) - Position s))")
     (auto simp: read_def isLetter_def eof_def split: if_splits)

declare scanWord_loop.simps [simp del]

definition scanWord :: "State \<Rightarrow> Token \<times> State" where
  "scanWord state =
     (case scanWord_loop state of (nextChar, state1) \<Rightarrow>
        let state2 = (if nextChar \<noteq> eof then unread state1 else state1)
        in if \<not> isKeyword (currentValue state2)
           then (skipWord state2 (currentValue state2), state2)
           else (makeToken TokenKeyword state2, state2))"

definition scanIndividualCharacter :: "State \<Rightarrow> Token option" where
  "scanIndividualCharacter state =
     (case resolveIndividualTokenType (currentValue state) of
        None \<Rightarrow> None
      | Some tokenType \<Rightarrow> Some (makeToken tokenType state))"

definition skipChar :: "State \<Rightarrow> Token" where
  "skipChar state =
     \<lparr>tType = TokenUnknown, tValue = currentValue state, tStart = Start state,
      tEnd = Start state\<rparr>"

definition isCommentInline :: "rune \<Rightarrow> State \<Rightarrow> bool \<times> State" where
  "isCommentInline ch state =
     (if ch \<noteq> 45 then (False, state)
      else (case read state 0 of (nextChar, state') \<Rightarrow>
              if nextChar = 45 then (True, state') else (False, unread state')))"

definition isCommentBlock :: "rune \<Rightarrow> State \<Rightarrow> bool \<times> State" where
  "isCommentBlock ch state =
     (if ch \<noteq> 47 then (False, state)
      else (case read state 0 of (nextChar, state') \<Rightarrow>
              if nextChar = 42 then (True, state') else (False, unread state')))"

fun getCustomParam_loop :: "pattern list \<Rightarrow> gostring \<Rightarrow> error + gostring" where
  "getCustomParam_loop [] remainingInput = Inr []"
| "getCustomParam_loop (r # rs) remainingInput =
     (case r of
        Invalid \<Rightarrow> Inl RegexpErr
      | Pattern re \<Rightarrow>
          (case re remainingInput of
             None \<Rightarrow> getCustomParam_loop rs remainingInput
           | Some m \<Rightarrow> if m \<noteq> [] then Inr m else getCustomParam_loop rs remainingInput))"

definition getCustomParam :: "State \<Rightarrow> ParamTypes \<Rightarrow> error + gostring" where
  "getCustomParam state paramTypes =
     (if length (Custom paramTypes) = 0 then Inr []
      else getCustomParam_loop (Custom paramTypes) (drop (nat (Start state)) (Input state)))"

fun isCustomParam_loop :: "pattern list \<Rightarrow> gostring \<Rightarrow> error + bool" where
  "isCustomParam_loop [] remainingInput = Inr False"
| "isCustomParam_loop (r # rs) remainingInput =
     (case r of
        Invalid \<Rightarrow> Inl RegexpErr
      | Pattern re \<Rightarrow>
          (case re remainingInput of
             None \<Rightarrow> isCustomParam_loop rs remainingInput
           | Some m \<Rightarrow> Inr True))"

definition isCustomParam :: "State \<Rightarrow> ParamTypes \<Rightarrow> error + bool" where
  "isCustomParam state paramTypes =
     isCustomParam_loop (Custom paramTypes) (drop (nat (Start state)) (Input state))"

definition isParameter :: "rune \<Rightarrow> State \<Rightarrow> ParamTypes \<Rightarrow> error + bool" where
  "isParameter ch state paramTypes =
     (if ch = eof then Inr False
      else if ch = 58 \<and> (peekBack state = 58 \<or> peek state = 58) then Inr False
      else if Positional paramTypes = Some True \<and> ch = 63 then Inr True
      else if 0 < length (Numbered paramTypes) \<and> contains (Numbered paramTypes) ch
              \<and> peek state \<noteq> eof \<and> IsDigit (peek state) then Inr True
      else if 0 < length (Named paramTypes) \<and> contains (Named paramTypes) ch then Inr True
      else if 0 < length (Quoted paramTypes) \<and> contains (Quoted paramTypes) ch then Inr True
      else if 0 < length (Custom paramTypes) then isCustomParam state paramTypes
      else Inr False)"

function scanParameter_named :: "State \<Rightarrow> State" where
  "scanParameter_named state =
     (if isAlphaNumeric (peek state) then scanParameter_named (snd (read state 0)) else state)"
  by pat_completeness auto
termination
  by (relation "measure (\<lambda>s. nat (int (length (Input s)) - Position s))")
     (auto simp: read_def peek_def isAlphaNumeric_def eof_def split: if_splits)

declare scanParameter_named.simps [simp del]

function scanParameter_quoted :: "State \<Rightarrow> rune \<Rightarrow> State" where
  "scanParameter_quoted state endQuote =
     (if (isAlphaNumeric (peek state) \<or> peek state = 32) \<and> peek state \<noteq> endQuote
      then scanParameter_quoted (snd (read state 0)) endQuote else state)"
  by pat_completeness auto
termination
  by (relation "measure (\<lambda>(s, e). nat (int (length (Input s)) - Position s))")
     (auto simp: read_def peek_def isAlphaNumeric_def eof_def split: if_splits)

declare scanParameter_quoted.simps [simp del]

text \<open>
  \<^verbatim>\<open>scanParameter\<close> tries the numbered, the named, the quoted and the custom form in
  turn; each is one of the source's \<^verbatim>\<open>if\<close> blocks, taking the cursor and the
  \<^verbatim>\<open>matched\<close> flag and returning them.
\<close>

definition scanParameter_numbered_step :: "State \<Rightarrow> ParamTypes \<Rightarrow> bool \<times> State" where
  "scanParameter_numbered_step state paramTypes =
     (if 0 < length (Numbered paramTypes) \<and> contains (Numbered paramTypes) (Input state ! nat (Start state))
         \<and> peek state \<noteq> eof \<and> IsDigit (peek state)
      then
        (let potentialNumberStr =
               (if Start state + 1 < int (length (Input state))
                then takeWhile (\<lambda>r. isLetter r \<or> IsDigit r) (drop (nat (Start state + 1)) (Input state))
                else [])
         in if len_string potentialNumberStr > 0 \<and> list_all IsDigit potentialNumberStr
            then (True, readN (length potentialNumberStr) state)
            else (False, state))
      else (False, state))"

definition scanParameter_named_step ::
  "rune \<Rightarrow> rune \<Rightarrow> Dialect \<Rightarrow> ParamTypes \<Rightarrow> bool \<times> State \<Rightarrow> bool \<times> State" where
  "scanParameter_named_step curCh nextCh dialect paramTypes ms =
     (case ms of (matched, state) \<Rightarrow>
        if \<not> matched \<and> 0 < length (Named paramTypes) \<and> contains (Named paramTypes) curCh
           \<and> \<not> isQuotedIdentifier nextCh dialect
        then (True, scanParameter_named state)
        else (matched, state))"

definition scanParameter_quoted_step ::
  "rune \<Rightarrow> rune \<Rightarrow> Dialect \<Rightarrow> ParamTypes \<Rightarrow> bool \<times> State \<Rightarrow> bool \<times> State" where
  "scanParameter_quoted_step curCh nextCh dialect paramTypes ms =
     (case ms of (matched, state) \<Rightarrow>
        if \<not> matched \<and> 0 < length (Quoted paramTypes) \<and> contains (Quoted paramTypes) curCh
           \<and> isQuotedIdentifier nextCh dialect
        then (case read state 0 of (quoteChar, state1) \<Rightarrow>
                let endQuote = (case endTokens quoteChar of None \<Rightarrow> 0 | Some e \<Rightarrow> e)
                in (True, snd (read (scanParameter_quoted state1 endQuote) 0)))
        else (matched, state))"

definition scanParameter_custom_step ::
  "ParamTypes \<Rightarrow> bool \<times> State \<Rightarrow> error + bool \<times> State" where
  "scanParameter_custom_step paramTypes ms =
     (case ms of (matched, state) \<Rightarrow>
        if \<not> matched \<and> 0 < length (Custom paramTypes) then
          (case getCustomParam state paramTypes of
             Inl e \<Rightarrow> Inl e
           | Inr custom \<Rightarrow>
               if custom \<noteq> [] then Inr (True, snd (read state (len_string custom - 2)))
               else Inr (matched, state))
        else Inr (matched, state))"

definition scanParameter :: "State \<Rightarrow> Dialect \<Rightarrow> ParamTypes \<Rightarrow> error + Token \<times> State" where
  "scanParameter state dialect paramTypes =
     (let curCh = Input state ! nat (Start state);
          nextCh = peek state
      in case scanParameter_custom_step paramTypes
                (scanParameter_quoted_step curCh nextCh dialect paramTypes
                  (scanParameter_named_step curCh nextCh dialect paramTypes
                    (scanParameter_numbered_step state paramTypes))) of
           Inl e \<Rightarrow> Inl e
         | Inr (matched, state') \<Rightarrow>
             if \<not> matched \<and> Positional paramTypes \<noteq> Some True \<and> curCh \<noteq> 63
             then Inr (makeToken TokenUnknown state', state')
             else Inr (makeToken TokenParameter state', state'))"

definition ScanToken :: "State \<Rightarrow> Dialect \<Rightarrow> ParamTypes \<Rightarrow> error + Token \<times> State" where
  "ScanToken state0 dialect paramTypes =
     (case read state0 0 of (ch, state1) \<Rightarrow>
        if isWhitespace ch then Inr (scanWhitespace state1)
        else (case isCommentInline ch state1 of (isInline, state2) \<Rightarrow>
          if isInline then Inr (scanCommentInline state2)
          else (case isCommentBlock ch state2 of (isBlock, state) \<Rightarrow>
            if isBlock then Inr (scanCommentBlock state)
            else if isString ch dialect \<and> endTokens ch \<noteq> None
            then Inr (scanString state (case endTokens ch of None \<Rightarrow> 0 | Some e \<Rightarrow> e))
            else (case isParameter ch state paramTypes of
                Inl e \<Rightarrow> Inl e
              | Inr isParam \<Rightarrow>
                  if isParam then scanParameter state dialect paramTypes
                  else if isDollarQuotedString state then scanDollarQuotedString state
                  else if isQuotedIdentifier ch dialect \<and> endTokens ch \<noteq> None
                  then Inr (scanQuotedIdentifier state (case endTokens ch of None \<Rightarrow> 0 | Some e \<Rightarrow> e))
                  else if isLetter ch then Inr (scanWord state)
                  else (case scanIndividualCharacter state of
                          Some individual \<Rightarrow> Inr (individual, state)
                        | None \<Rightarrow> Inr (skipChar state, state))))))"

text \<open>\<^verbatim>\<open>initState\<close> (parser.go) makes the cursor of the next token from the previous one.\<close>

definition initState :: "rune list \<Rightarrow> State option \<Rightarrow> State" where
  "initState input prevState =
     (case prevState of
        Some prev \<Rightarrow>
          \<lparr>Start = Position prev + 1, End = int (length (Input prev)) - 1,
           Position = Position prev, Input = Input prev\<rparr>
      | None \<Rightarrow>
          \<lparr>Start = 0, End = int (length input) - 1, Position = -1, Input = input\<rparr>)"

subsection \<open>The cursor stays within the token\<close>

text \<open>
  The parser's loops end because every token takes at least one character. The scan
  functions only read forward and unread at most back to the token's start: a state
  \<open>s'\<close> is \<open>within\<close> a state \<open>s\<close> when both are cursors over the same input with the
  same token start, and \<open>s'\<close> is at or after the start if \<open>s\<close> is.
\<close>

definition within :: "State \<Rightarrow> State \<Rightarrow> bool" where
  "within s s' \<longleftrightarrow>
     Input s' = Input s \<and> Start s' = Start s \<and> (Start s \<le> Position s \<longrightarrow> Start s' \<le> Position s')"

lemma within_refl: "within s s"
  by (simp add: within_def)

lemma within_read: "within a s \<Longrightarrow> - 1 \<le> k \<Longrightarrow> within a (snd (read s k))"
  by (auto simp: within_def read_def)

lemma within_read0: "within a s \<Longrightarrow> read s 0 = (c, s') \<Longrightarrow> within a s'"
  using within_read [of a s 0] by simp

lemma within_unread: "within a s \<Longrightarrow> within a (unread s)"
  by (auto simp: within_def unread_def)

lemma within_readN: "within a s \<Longrightarrow> within a (readN n s)"
  by (induction n arbitrary: s) (simp_all add: within_read)

lemma within_scanWhitespace_loop: "within a s \<Longrightarrow> within a (snd (scanWhitespace_loop s))"
proof (induction s rule: scanWhitespace_loop.induct)
  case (1 state)
  show ?case
    using 1 by (subst scanWhitespace_loop.simps) (auto split: prod.splits dest: within_read0)
qed

lemma within_scanCommentInline_loop: "within a s \<Longrightarrow> within a (scanCommentInline_loop s)"
proof (induction s rule: scanCommentInline_loop.induct)
  case (1 state)
  show ?case
    using 1 by (subst scanCommentInline_loop.simps) (auto split: prod.splits dest: within_read0)
qed

lemma within_readToEof: "within a s \<Longrightarrow> within a (readToEof s)"
proof (induction s rule: readToEof.induct)
  case (1 state)
  show ?case
    using 1 by (subst readToEof.simps) (auto split: prod.splits dest: within_read0)
qed

lemma within_scanDollarQuotedString_loop:
  "within a s \<Longrightarrow> within a (scanDollarQuotedString_loop s l)"
proof (induction s l rule: scanDollarQuotedString_loop.induct)
  case (1 state label)
  show ?case
    using 1 by (subst scanDollarQuotedString_loop.simps)
      (auto split: prod.splits dest: within_read0 simp: within_readToEof within_readN)
qed

lemma within_scanString_loop: "within a s \<Longrightarrow> within a (snd (scanString_loop s e))"
proof (induction s e rule: scanString_loop.induct)
  case (1 state endToken)
  show ?case
    using 1 by (subst scanString_loop.simps)
      (auto split: prod.splits dest: within_read0 simp: within_read)
qed

lemma within_scanCommentBlock_loop: "within a s \<Longrightarrow> within a (scanCommentBlock_loop s c)"
proof (induction s c rule: scanCommentBlock_loop.induct)
  case (1 state prevChar)
  show ?case
    using 1 by (subst scanCommentBlock_loop.simps) (auto split: prod.splits dest: within_read0)
qed

lemma within_scanQuotedIdentifier_loop:
  "within a s \<Longrightarrow> within a (snd (scanQuotedIdentifier_loop s e))"
proof (induction s e rule: scanQuotedIdentifier_loop.induct)
  case (1 state endToken)
  show ?case
    using 1 by (subst scanQuotedIdentifier_loop.simps) (auto split: prod.splits dest: within_read0)
qed

lemma within_scanWord_loop: "within a s \<Longrightarrow> within a (snd (scanWord_loop s))"
proof (induction s rule: scanWord_loop.induct)
  case (1 state)
  show ?case
    using 1 by (subst scanWord_loop.simps) (auto split: prod.splits dest: within_read0)
qed

lemma within_scanParameter_named: "within a s \<Longrightarrow> within a (scanParameter_named s)"
proof (induction s rule: scanParameter_named.induct)
  case (1 state)
  show ?case
    using 1 by (subst scanParameter_named.simps) (auto simp: within_read)
qed

lemma within_scanParameter_quoted: "within a s \<Longrightarrow> within a (scanParameter_quoted s e)"
proof (induction s e rule: scanParameter_quoted.induct)
  case (1 state endQuote)
  show ?case
    using 1 by (subst scanParameter_quoted.simps) (auto simp: within_read)
qed

lemma within_scanWhitespace: "within a s \<Longrightarrow> within a (snd (scanWhitespace s))"
  using within_scanWhitespace_loop [of a s]
  by (auto simp: scanWhitespace_def Let_def within_unread split: prod.splits)

lemma within_scanCommentInline: "within a s \<Longrightarrow> within a (snd (scanCommentInline s))"
  by (simp add: scanCommentInline_def Let_def within_scanCommentInline_loop)

lemma within_scanCommentBlock: "within a s \<Longrightarrow> within a (snd (scanCommentBlock s))"
  by (simp add: scanCommentBlock_def Let_def within_scanCommentBlock_loop)

lemma within_scanString: "within a s \<Longrightarrow> within a (snd (scanString s e))"
  using within_scanString_loop [of a s e]
  by (auto simp: scanString_def Let_def within_unread split: prod.splits)

lemma within_scanQuotedIdentifier: "within a s \<Longrightarrow> within a (snd (scanQuotedIdentifier s e))"
  using within_scanQuotedIdentifier_loop [of a s e]
  by (auto simp: scanQuotedIdentifier_def Let_def within_unread split: prod.splits)

lemma within_scanWord: "within a s \<Longrightarrow> within a (snd (scanWord s))"
  using within_scanWord_loop [of a s]
  by (auto simp: scanWord_def Let_def within_unread split: prod.splits)

lemma within_scanDollarQuotedString:
  "within a s \<Longrightarrow> scanDollarQuotedString s = Inr (tok, s') \<Longrightarrow> within a s'"
  by (auto simp: scanDollarQuotedString_def Let_def within_scanDollarQuotedString_loop within_readN
           split: option.splits)

lemma utf8RuneLen_pos: "1 \<le> utf8RuneLen r"
  by (simp add: utf8RuneLen_def)

lemma len_string_pos: "s \<noteq> [] \<Longrightarrow> 1 \<le> len_string s"
proof (cases s)
  case Nil
  then show "s \<noteq> [] \<Longrightarrow> 1 \<le> len_string s" by simp
next
  case (Cons r rs)
  have "0 \<le> sum_list (map utf8RuneLen rs)"
    by (rule sum_list_nonneg) (use utf8RuneLen_pos in \<open>auto intro: order_trans [of 0 1]\<close>)
  with Cons utf8RuneLen_pos [of r] show ?thesis by (simp add: len_string_def)
qed

lemma within_numbered_step:
  "within a s \<Longrightarrow> within a (snd (scanParameter_numbered_step s pt))"
  by (simp add: scanParameter_numbered_step_def Let_def within_readN)

lemma within_named_step:
  "within a (snd ms) \<Longrightarrow> within a (snd (scanParameter_named_step c n d pt ms))"
  by (cases ms) (simp add: scanParameter_named_step_def within_scanParameter_named)

lemma within_quoted_step:
  assumes "within a (snd ms)"
  shows "within a (snd (scanParameter_quoted_step c n d pt ms))"
proof -
  obtain m s where ms: "ms = (m, s)" by (cases ms)
  obtain q s1 where r: "read s 0 = (q, s1)" by (cases "read s 0")
  from assms ms have "within a s" by simp
  then have "within a s1" using r by (rule within_read0)
  then have "within a (snd (read (scanParameter_quoted s1 e) 0))" for e
    by (intro within_read within_scanParameter_quoted) simp_all
  with \<open>within a s\<close> show ?thesis
    by (simp add: ms r scanParameter_quoted_step_def Let_def)
qed

lemma within_custom_step:
  assumes "within a (snd ms)" and "scanParameter_custom_step pt ms = Inr ms'"
  shows "within a (snd ms')"
proof -
  obtain m s where ms: "ms = (m, s)" by (cases ms)
  from assms ms have w: "within a s" by simp
  show ?thesis
  proof (cases "\<not> m \<and> 0 < length (Custom pt)")
    case False
    with assms(2) w show ?thesis
      by (auto simp: ms scanParameter_custom_step_def)
  next
    case True
    then obtain custom where g: "getCustomParam s pt = Inr custom"
      using assms(2) by (cases "getCustomParam s pt") (auto simp: ms scanParameter_custom_step_def)
    show ?thesis
    proof (cases "custom = []")
      case True
      with \<open>\<not> m \<and> 0 < length (Custom pt)\<close> assms(2) w g show ?thesis
        by (auto simp: ms scanParameter_custom_step_def)
    next
      case False
      then have "- 1 \<le> len_string custom - 2" using len_string_pos [of custom] by simp
      with w have "within a (snd (read s (len_string custom - 2)))" by (intro within_read)
      with \<open>\<not> m \<and> 0 < length (Custom pt)\<close> False assms(2) g show ?thesis
        by (auto simp: ms scanParameter_custom_step_def)
    qed
  qed
qed

lemma scanParameter_custom:
  "scanParameter s d pt = Inr (tok, s') \<Longrightarrow>
   \<exists>m. scanParameter_custom_step pt
         (scanParameter_quoted_step (Input s ! nat (Start s)) (peek s) d pt
           (scanParameter_named_step (Input s ! nat (Start s)) (peek s) d pt
             (scanParameter_numbered_step s pt))) = Inr (m, s')"
  unfolding scanParameter_def Let_def
  by (simp split: sum.splits prod.splits if_splits)

lemma within_scanParameter:
  assumes "within a s" and "scanParameter s d pt = Inr (tok, s')"
  shows "within a s'"
proof -
  from scanParameter_custom [OF assms(2)] obtain m where
    c: "scanParameter_custom_step pt
         (scanParameter_quoted_step (Input s ! nat (Start s)) (peek s) d pt
           (scanParameter_named_step (Input s ! nat (Start s)) (peek s) d pt
             (scanParameter_numbered_step s pt))) = Inr (m, s')" ..
  have "within a s'"
    by (rule within_custom_step [OF _ c, simplified])
       (intro within_quoted_step within_named_step within_numbered_step assms(1))
  then show ?thesis .
qed

lemma within_isCommentInline: "within a s \<Longrightarrow> within a (snd (isCommentInline c s))"
  by (auto simp: isCommentInline_def within_unread split: prod.splits dest: within_read0)

lemma within_isCommentBlock: "within a s \<Longrightarrow> within a (snd (isCommentBlock c s))"
  by (auto simp: isCommentBlock_def within_unread split: prod.splits dest: within_read0)

lemma ScanToken_branches:
  assumes "ScanToken s0 d pt = Inr (tok, s')"
    and "read s0 0 = (ch, s1)"
    and "isCommentInline ch s1 = (b2, s2)"
    and "isCommentBlock ch s2 = (b3, s3)"
  shows "(isWhitespace ch \<and> scanWhitespace s1 = (tok, s'))
       \<or> (\<not> isWhitespace ch \<and>
           (scanCommentInline s2 = (tok, s')
            \<or> scanCommentBlock s3 = (tok, s')
            \<or> (\<exists>e. scanString s3 e = (tok, s'))
            \<or> scanParameter s3 d pt = Inr (tok, s')
            \<or> scanDollarQuotedString s3 = Inr (tok, s')
            \<or> (\<exists>e. scanQuotedIdentifier s3 e = (tok, s'))
            \<or> scanWord s3 = (tok, s')
            \<or> (s' = s3 \<and> (scanIndividualCharacter s3 = Some tok \<or> tok = skipChar s3))))"
  using assms
  by (simp add: ScanToken_def split: if_splits sum.splits option.splits) blast+

lemma ScanToken_within:
  assumes "ScanToken s0 d pt = Inr (tok, s')"
  shows "within (snd (read s0 0)) s'"
proof -
  obtain ch s1 where r: "read s0 0 = (ch, s1)" by (cases "read s0 0")
  obtain b2 s2 where i: "isCommentInline ch s1 = (b2, s2)" by (cases "isCommentInline ch s1")
  obtain b3 s3 where b: "isCommentBlock ch s2 = (b3, s3)" by (cases "isCommentBlock ch s2")
  have w1: "within s1 s1" by (rule within_refl)
  have w2: "within s1 s2" using within_isCommentInline [OF w1, of ch] i by simp
  have w3: "within s1 s3" using within_isCommentBlock [OF w2, of ch] b by simp
  have p: "within s1 (snd x) \<Longrightarrow> x = (tok, s') \<Longrightarrow> within s1 s'" for x by simp
  from ScanToken_branches [OF assms r i b] have "within s1 s'"
    using p [OF within_scanWhitespace [OF w1]] p [OF within_scanCommentInline [OF w2]]
      p [OF within_scanCommentBlock [OF w3]] p [OF within_scanString [OF w3]]
      within_scanParameter [OF w3] within_scanDollarQuotedString [OF w3]
      p [OF within_scanQuotedIdentifier [OF w3]] p [OF within_scanWord [OF w3]] w3
    by blast
  then show ?thesis by (simp add: r)
qed

lemma ScanToken_whitespace:
  assumes "ScanToken s0 d pt = Inr (tok, s')" and "tType tok = TokenWhitespace"
  shows "isWhitespace (fst (read s0 0))"
proof -
  obtain ch s1 where r: "read s0 0 = (ch, s1)" by (cases "read s0 0")
  obtain b2 s2 where i: "isCommentInline ch s1 = (b2, s2)" by (cases "isCommentInline ch s1")
  obtain b3 s3 where b: "isCommentBlock ch s2 = (b3, s3)" by (cases "isCommentBlock ch s2")
  have "scanCommentInline s2 \<noteq> (tok, s')"
    using assms(2) by (auto simp: scanCommentInline_def Let_def makeToken_def)
  moreover have "scanCommentBlock s3 \<noteq> (tok, s')"
    using assms(2) by (auto simp: scanCommentBlock_def Let_def makeToken_def)
  moreover have "scanString s3 e \<noteq> (tok, s')" for e
    using assms(2) by (auto simp: scanString_def Let_def makeToken_def split: prod.splits)
  moreover have "scanParameter s3 d pt \<noteq> Inr (tok, s')"
    using assms(2) by (auto simp: scanParameter_def Let_def makeToken_def split: sum.splits if_splits)
  moreover have "scanDollarQuotedString s3 \<noteq> Inr (tok, s')"
    using assms(2) by (auto simp: scanDollarQuotedString_def Let_def makeToken_def split: option.splits)
  moreover have "scanQuotedIdentifier s3 e \<noteq> (tok, s')" for e
    using assms(2) by (auto simp: scanQuotedIdentifier_def Let_def makeToken_def split: prod.splits)
  moreover have "scanWord s3 \<noteq> (tok, s')"
    using assms(2) by (auto simp: scanWord_def Let_def makeToken_def skipWord_def split: prod.splits if_splits)
  moreover have "scanIndividualCharacter s3 \<noteq> Some tok"
    using assms(2)
    by (auto simp: scanIndividualCharacter_def resolveIndividualTokenType_def individuals_def
          makeToken_def split: option.splits if_splits)
  moreover have "tok \<noteq> skipChar s3"
    using assms(2) by (auto simp: skipChar_def)
  ultimately have "isWhitespace ch"
    using ScanToken_branches [OF assms(1) r i b] by blast
  then show ?thesis by (simp add: r)
qed

lemma ScanToken_progress:
  assumes "ScanToken (initState inp (Some prev)) d pt = Inr (tok, s')"
    and "Position prev < int (length (Input prev)) - 1 \<or> tType tok = TokenWhitespace"
  shows "Input s' = Input prev \<and> Position prev < Position s'
         \<and> Position prev < int (length (Input prev)) - 1"
proof -
  let ?s0 = "initState inp (Some prev)"
  have adv: "Position prev < int (length (Input prev)) - 1"
  proof (rule disjE [OF assms(2)])
    assume "tType tok = TokenWhitespace"
    from ScanToken_whitespace [OF assms(1) this]
    show ?thesis by (auto simp: read_def initState_def isWhitespace_def eof_def split: if_splits)
  qed
  then have s1: "Input (snd (read ?s0 0)) = Input prev"
    "Start (snd (read ?s0 0)) = Position prev + 1"
    "Position (snd (read ?s0 0)) = Position prev + 1"
    by (simp_all add: read_def initState_def)
  from ScanToken_within [OF assms(1)] s1 adv show ?thesis by (simp add: within_def)
qed

section \<open>Statements (types.go)\<close>

text \<open>
  \<^verbatim>\<open>StatementType\<close> is a Go string type whose values the parser also builds from token
  text (\<^verbatim>\<open>"CREATE_" + strings.ToUpper(token.Value)\<close>), so it stays a string. The execution
  types are five constants. A nil pointer is \<open>None\<close>.
\<close>

type_synonym StatementType = gostring

definition StatementInsert :: StatementType where "StatementInsert = str ''INSERT''"
definition StatementUpdate :: StatementType where "StatementUpdate = str ''UPDATE''"
definition StatementDelete :: StatementType where "StatementDelete = str ''DELETE''"
definition StatementSelect :: StatementType where "StatementSelect = str ''SELECT''"
definition StatementTruncate :: StatementType where "StatementTruncate = str ''TRUNCATE''"
definition StatementCreateTrigger :: StatementType where
  "StatementCreateTrigger = str ''CREATE_TRIGGER''"
definition StatementCreateFunction :: StatementType where
  "StatementCreateFunction = str ''CREATE_FUNCTION''"
definition StatementCreateProcedure :: StatementType where
  "StatementCreateProcedure = str ''CREATE_PROCEDURE''"
definition StatementAnonBlock :: StatementType where "StatementAnonBlock = str ''ANON_BLOCK''"
definition StatementUnknown :: StatementType where "StatementUnknown = str ''UNKNOWN''"

datatype ExecutionType =
  ExecutionListing | ExecutionModification | ExecutionInformation | ExecutionAnonBlock
  | ExecutionUnknown

record Statement =
  sStart :: int
  sEnd :: int
  sType :: "StatementType option"
  sExecutionType :: "ExecutionType option"
  sEndStatement :: "gostring option"
  sCanEnd :: "bool option"
  sDefiner :: "int option"
  sAlgorithm :: "int option"
  sSQLSecurity :: "int option"
  sParameters :: "gostring list"
  sTables :: "gostring list"
  sIsCte :: "bool option"

record ConcreteStatement =
  cStart :: int
  cEnd :: int
  cType :: StatementType
  cExecutionType :: ExecutionType
  cEndStatement :: "gostring option"
  cCanEnd :: "bool option"
  cDefiner :: "int option"
  cAlgorithm :: "int option"
  cSQLSecurity :: "int option"
  cParameters :: "gostring list"
  cTables :: "gostring list"
  cIsCte :: "bool option"

definition ToConcrete :: "Statement \<Rightarrow> ConcreteStatement" where
  "ToConcrete s =
     \<lparr>cStart = sStart s, cEnd = sEnd s,
      cType = (case sType s of Some t \<Rightarrow> t | None \<Rightarrow> StatementUnknown),
      cExecutionType = (case sExecutionType s of Some e \<Rightarrow> e | None \<Rightarrow> ExecutionUnknown),
      cEndStatement = sEndStatement s, cCanEnd = sCanEnd s, cDefiner = sDefiner s,
      cAlgorithm = sAlgorithm s, cSQLSecurity = sSQLSecurity s,
      cParameters = sParameters s, cTables = sTables s, cIsCte = sIsCte s\<rparr>"

record ParseResult =
  prType :: gostring
  prStart :: int
  prEnd :: int
  Body :: "ConcreteStatement list"
  Tokens :: "Token list"

record AcceptToken =
  aType :: TokenType
  aValue :: gostring

record StepValidation =
  RequireBefore :: "TokenType list"
  AcceptTokens :: "AcceptToken list"

text \<open>
  A step's \<^verbatim>\<open>Add\<close> is a closure over the parser's statement, which it mutates: here it
  takes the statement and returns it.
\<close>

record Step =
  PreCanGoToNext :: "Token \<Rightarrow> bool"
  Validation :: "StepValidation option"
  Add :: "Token \<Rightarrow> Statement \<Rightarrow> Statement"
  PostCanGoToNext :: "Token \<Rightarrow> bool"

section \<open>The statement parser (parser.go)\<close>

definition ExecutionTypes :: "(StatementType \<times> ExecutionType) list" where
  "ExecutionTypes =
     [(str ''SELECT'', ExecutionListing),
      (str ''INSERT'', ExecutionModification),
      (str ''DELETE'', ExecutionModification),
      (str ''UPDATE'', ExecutionModification),
      (str ''TRUNCATE'', ExecutionModification),
      (str ''CREATE_DATABASE'', ExecutionModification),
      (str ''CREATE_SCHEMA'', ExecutionModification),
      (str ''CREATE_TABLE'', ExecutionModification),
      (str ''CREATE_VIEW'', ExecutionModification),
      (str ''CREATE_TRIGGER'', ExecutionModification),
      (str ''CREATE_FUNCTION'', ExecutionModification),
      (str ''CREATE_INDEX'', ExecutionModification),
      (str ''CREATE_PROCEDURE'', ExecutionModification),
      (str ''SHOW_BINARY'', ExecutionListing),
      (str ''SHOW_BINLOG'', ExecutionListing),
      (str ''SHOW_CHARACTER'', ExecutionListing),
      (str ''SHOW_COLLATION'', ExecutionListing),
      (str ''SHOW_CREATE'', ExecutionListing),
      (str ''SHOW_ENGINE'', ExecutionListing),
      (str ''SHOW_ENGINES'', ExecutionListing),
      (str ''SHOW_ERRORS'', ExecutionListing),
      (str ''SHOW_EVENTS'', ExecutionListing),
      (str ''SHOW_FUNCTION'', ExecutionListing),
      (str ''SHOW_GRANTS'', ExecutionListing),
      (str ''SHOW_MASTER'', ExecutionListing),
      (str ''SHOW_OPEN'', ExecutionListing),
      (str ''SHOW_PLUGINS'', ExecutionListing),
      (str ''SHOW_PRIVILEGES'', ExecutionListing),
      (str ''SHOW_PROCEDURE'', ExecutionListing),
      (str ''SHOW_PROCESSLIST'', ExecutionListing),
      (str ''SHOW_PROFILE'', ExecutionListing),
      (str ''SHOW_PROFILES'', ExecutionListing),
      (str ''SHOW_RELAYLOG'', ExecutionListing),
      (str ''SHOW_REPLICAS'', ExecutionListing),
      (str ''SHOW_SLAVE'', ExecutionListing),
      (str ''SHOW_REPLICA'', ExecutionListing),
      (str ''SHOW_STATUS'', ExecutionListing),
      (str ''SHOW_TRIGGERS'', ExecutionListing),
      (str ''SHOW_VARIABLES'', ExecutionListing),
      (str ''SHOW_WARNINGS'', ExecutionListing),
      (str ''SHOW_DATABASES'', ExecutionListing),
      (str ''SHOW_KEYS'', ExecutionListing),
      (str ''SHOW_INDEX'', ExecutionListing),
      (str ''SHOW_TABLE'', ExecutionListing),
      (str ''SHOW_TABLES'', ExecutionListing),
      (str ''SHOW_COLUMNS'', ExecutionListing),
      (str ''DROP_DATABASE'', ExecutionModification),
      (str ''DROP_SCHEMA'', ExecutionModification),
      (str ''DROP_TABLE'', ExecutionModification),
      (str ''DROP_VIEW'', ExecutionModification),
      (str ''DROP_TRIGGER'', ExecutionModification),
      (str ''DROP_FUNCTION'', ExecutionModification),
      (str ''DROP_INDEX'', ExecutionModification),
      (str ''DROP_PROCEDURE'', ExecutionModification),
      (str ''ALTER_DATABASE'', ExecutionModification),
      (str ''ALTER_SCHEMA'', ExecutionModification),
      (str ''ALTER_TABLE'', ExecutionModification),
      (str ''ALTER_VIEW'', ExecutionModification),
      (str ''ALTER_TRIGGER'', ExecutionModification),
      (str ''ALTER_FUNCTION'', ExecutionModification),
      (str ''ALTER_INDEX'', ExecutionModification),
      (str ''ALTER_PROCEDURE'', ExecutionModification),
      (str ''UNKNOWN'', ExecutionUnknown),
      (str ''ANON_BLOCK'', ExecutionAnonBlock)]"

definition statementsWithEnds :: "StatementType list" where
  "statementsWithEnds =
     [StatementCreateTrigger, StatementCreateFunction, StatementCreateProcedure,
      StatementAnonBlock, StatementUnknown]"

text \<open>
  \<^verbatim>\<open>preTableKeywords\<close> is the expression \<^verbatim>\<open>(?i)^from$|^join$|^into$\<close>, matched against
  a token's text: the text is one of the three words, in any case. None of their letters
  has a case variant outside ASCII.
\<close>

definition asciiFold :: "rune \<Rightarrow> rune" where
  "asciiFold r = (if 65 \<le> r \<and> r \<le> 90 then r + 32 else r)"

definition preTableKeywords :: "gostring \<Rightarrow> bool" where
  "preTableKeywords v =
     (map asciiFold v = str ''from'' \<or> map asciiFold v = str ''join''
      \<or> map asciiFold v = str ''into'')"

definition blockOpeners :: "Dialect \<Rightarrow> gostring list" where
  "blockOpeners dialect =
     (if dialect = DialectGeneric then map str [''BEGIN'', ''CASE'']
      else if dialect = DialectPSQL then map str [''BEGIN'', ''CASE'', ''LOOP'', ''IF'']
      else if dialect = DialectMySQL then map str [''BEGIN'', ''CASE'', ''LOOP'', ''IF'']
      else if dialect = DialectMSSQL then map str [''BEGIN'', ''CASE'']
      else if dialect = DialectSQLite then map str [''BEGIN'', ''CASE'']
      else if dialect = DialectOracle then map str [''DECLARE'', ''BEGIN'', ''CASE'']
      else if dialect = DialectBigQuery
      then map str [''BEGIN'', ''CASE'', ''IF'', ''LOOP'', ''REPEAT'', ''WHILE'', ''FOR'']
      else [])"

record ParseOptions =
  IsStrict :: bool
  poDialect :: Dialect
  poIdentifyTables :: bool
  poParamTypes :: ParamTypes

record cteState =
  isCte :: bool
  asSeen :: bool
  statementEnd :: bool
  parens :: int
  cstate :: State
  params :: "gostring list"

definition createInitialStatement :: Statement where
  "createInitialStatement =
     \<lparr>sStart = -1, sEnd = 0, sType = None, sExecutionType = None, sEndStatement = None,
      sCanEnd = None, sDefiner = None, sAlgorithm = None, sSQLSecurity = None,
      sParameters = [], sTables = [], sIsCte = None\<rparr>"

record stateMachineParser =
  statement :: Statement
  steps :: "Step list"
  options :: ParseOptions
  currentStepIndex :: int
  prevToken :: "Token option"
  prevNonWhitespaceToken :: "Token option"
  lastBlockOpener :: "Token option"
  anonBlockStarted :: bool
  openBlocks :: int

definition stateMachineStatementParser ::
  "Statement \<Rightarrow> Step list \<Rightarrow> ParseOptions \<Rightarrow> stateMachineParser" where
  "stateMachineStatementParser stmt stps opts =
     \<lparr>statement = stmt, steps = stps, options = opts, currentStepIndex = 0,
      prevToken = None, prevNonWhitespaceToken = None, lastBlockOpener = None,
      anonBlockStarted = False, openBlocks = 0\<rparr>"

text \<open>
  The closures the steps share: \<open>setStart\<close> is the source's
  \<^verbatim>\<open>if statement.Start < 0 { statement.Start = token.Start }\<close>; \<open>setTypeStart\<close> sets the
  type first. \<open>acceptKeyword\<close> is \<^verbatim>\<open>AcceptToken{Type: "keyword", Value: v}\<close>.
\<close>

definition setStart :: "Token \<Rightarrow> Statement \<Rightarrow> Statement" where
  "setStart token stmt = (if sStart stmt < 0 then stmt\<lparr>sStart := tStart token\<rparr> else stmt)"

definition setTypeStart :: "StatementType \<Rightarrow> Token \<Rightarrow> Statement \<Rightarrow> Statement" where
  "setTypeStart ty token stmt = setStart token (stmt\<lparr>sType := Some ty\<rparr>)"

definition setTypePrefixed :: "string \<Rightarrow> Token \<Rightarrow> Statement \<Rightarrow> Statement" where
  "setTypePrefixed prefix token stmt = stmt\<lparr>sType := Some (str prefix @ ToUpper (tValue token))\<rparr>"

definition acceptKeyword :: "string \<Rightarrow> AcceptToken" where
  "acceptKeyword v = \<lparr>aType = TokenKeyword, aValue = str v\<rparr>"

definition firstStep :: "AcceptToken list \<Rightarrow> (Token \<Rightarrow> Statement \<Rightarrow> Statement) \<Rightarrow> Step" where
  "firstStep accept add =
     \<lparr>PreCanGoToNext = (\<lambda>token. False),
      Validation = Some \<lparr>RequireBefore = [], AcceptTokens = accept\<rparr>,
      Add = add, PostCanGoToNext = (\<lambda>token. True)\<rparr>"

definition secondStep :: "AcceptToken list \<Rightarrow> (Token \<Rightarrow> Statement \<Rightarrow> Statement) \<Rightarrow> Step" where
  "secondStep accept add =
     \<lparr>PreCanGoToNext = (\<lambda>token. False),
      Validation = Some \<lparr>RequireBefore = [TokenWhitespace], AcceptTokens = accept\<rparr>,
      Add = add, PostCanGoToNext = (\<lambda>token. True)\<rparr>"

definition createSelectStatementParser :: "ParseOptions \<Rightarrow> stateMachineParser" where
  "createSelectStatementParser opts =
     stateMachineStatementParser createInitialStatement
       [firstStep [acceptKeyword ''SELECT''] (setTypeStart StatementSelect)] opts"

definition createBlockStatementParser :: "ParseOptions \<Rightarrow> stateMachineParser" where
  "createBlockStatementParser opts =
     stateMachineStatementParser (createInitialStatement\<lparr>sType := Some StatementAnonBlock\<rparr>)
       [firstStep
          ((if poDialect opts = DialectOracle then [acceptKeyword ''DECLARE''] else [])
           @ [acceptKeyword ''BEGIN''])
          setStart] opts"

definition createInsertStatementParser :: "ParseOptions \<Rightarrow> stateMachineParser" where
  "createInsertStatementParser opts =
     stateMachineStatementParser createInitialStatement
       [firstStep [acceptKeyword ''INSERT''] (setTypeStart StatementInsert)] opts"

definition createUpdateStatementParser :: "ParseOptions \<Rightarrow> stateMachineParser" where
  "createUpdateStatementParser opts =
     stateMachineStatementParser createInitialStatement
       [firstStep [acceptKeyword ''UPDATE''] (setTypeStart StatementUpdate)] opts"

definition createDeleteStatementParser :: "ParseOptions \<Rightarrow> stateMachineParser" where
  "createDeleteStatementParser opts =
     stateMachineStatementParser createInitialStatement
       [firstStep [acceptKeyword ''DELETE''] (setTypeStart StatementDelete)] opts"

definition createCreateStatementParser :: "ParseOptions \<Rightarrow> stateMachineParser" where
  "createCreateStatementParser opts =
     stateMachineStatementParser createInitialStatement
       [firstStep [acceptKeyword ''CREATE''] setStart,
        secondStep
          ((if poDialect opts \<noteq> DialectSQLite
            then map acceptKeyword [''DATABASE'', ''SCHEMA'', ''PROCEDURE''] else [])
           @ map acceptKeyword [''TABLE'', ''VIEW'', ''TRIGGER'', ''FUNCTION'', ''INDEX''])
          (setTypePrefixed ''CREATE_'')] opts"

definition createDropStatementParser :: "ParseOptions \<Rightarrow> stateMachineParser" where
  "createDropStatementParser opts =
     stateMachineStatementParser createInitialStatement
       [firstStep [acceptKeyword ''DROP''] setStart,
        secondStep
          ((if poDialect opts \<noteq> DialectSQLite
            then map acceptKeyword [''DATABASE'', ''SCHEMA'', ''PROCEDURE''] else [])
           @ map acceptKeyword [''TABLE'', ''VIEW'', ''TRIGGER'', ''FUNCTION'', ''INDEX''])
          (setTypePrefixed ''DROP_'')] opts"

definition createAlterStatementParser :: "ParseOptions \<Rightarrow> stateMachineParser" where
  "createAlterStatementParser opts =
     stateMachineStatementParser createInitialStatement
       [firstStep [acceptKeyword ''ALTER''] setStart,
        secondStep
          ((if poDialect opts \<noteq> DialectSQLite
            then map acceptKeyword [''DATABASE'', ''SCHEMA'', ''TRIGGER'', ''FUNCTION'', ''INDEX'']
                 @ (if poDialect opts \<noteq> DialectBigQuery then [acceptKeyword ''PROCEDURE''] else [])
            else [])
           @ map acceptKeyword [''TABLE'', ''VIEW''])
          (setTypePrefixed ''ALTER_'')] opts"

definition createTruncateStatementParser :: "ParseOptions \<Rightarrow> stateMachineParser" where
  "createTruncateStatementParser opts =
     stateMachineStatementParser createInitialStatement
       [firstStep [acceptKeyword ''TRUNCATE''] (setTypeStart StatementTruncate)] opts"

definition createShowStatementParser :: "ParseOptions \<Rightarrow> stateMachineParser" where
  "createShowStatementParser opts =
     stateMachineStatementParser createInitialStatement
       [firstStep [acceptKeyword ''SHOW''] setStart,
        secondStep
          (map acceptKeyword
             [''DATABASES'', ''DATABASE'', ''KEYS'', ''INDEX'', ''COLUMNS'', ''TABLES'', ''TABLE'',
              ''BINARY'', ''BINLOG'', ''CHARACTER'', ''COLLATION'', ''CREATE'', ''ENGINE'',
              ''ENGINES'', ''ERRORS'', ''EVENTS'', ''FUNCTION'', ''GRANTS'', ''MASTER'', ''OPEN'',
              ''PLUGINS'', ''PRIVILEGES'', ''PROCEDURE'', ''PROCESSLIST'', ''PROFILE'',
              ''PROFILES'', ''RELAYLOG'', ''REPLICAS'', ''REPLICA'', ''SLAVE'', ''STATUS'',
              ''TRIGGERS'', ''VARIABLES'', ''WARNINGS''])
          (\<lambda>token stmt. stmt\<lparr>sType :=
              Some (str ''SHOW_'' @ ToUpper (map (\<lambda>r. if r = 32 then 95 else r) (tValue token)))\<rparr>)]
       opts"

definition createUnknownStatementParser :: "ParseOptions \<Rightarrow> stateMachineParser" where
  "createUnknownStatementParser opts =
     stateMachineStatementParser createInitialStatement
       [\<lparr>PreCanGoToNext = (\<lambda>token. False), Validation = None,
         Add = setTypeStart StatementUnknown, PostCanGoToNext = (\<lambda>token. True)\<rparr>] opts"

definition createStatementParserByToken ::
  "Token \<Rightarrow> Token \<Rightarrow> ParseOptions \<Rightarrow> error + stateMachineParser" where
  "createStatementParserByToken token nextToken opts =
     (let upper = ToUpper (tValue token);
          fallback =
            (if \<not> IsStrict opts then Inr (createUnknownStatementParser opts)
             else Inl (Errorf (str ''Invalid statement parser '' @ [34] @ tValue token @ [34])))
      in if tType token = TokenKeyword then
           (if upper = str ''SELECT'' then Inr (createSelectStatementParser opts)
            else if upper = str ''CREATE'' then Inr (createCreateStatementParser opts)
            else if upper = str ''SHOW'' then
              (if poDialect opts = DialectMySQL \<or> poDialect opts = DialectGeneric
               then Inr (createShowStatementParser opts) else fallback)
            else if upper = str ''DROP'' then Inr (createDropStatementParser opts)
            else if upper = str ''ALTER'' then Inr (createAlterStatementParser opts)
            else if upper = str ''INSERT'' then Inr (createInsertStatementParser opts)
            else if upper = str ''UPDATE'' then Inr (createUpdateStatementParser opts)
            else if upper = str ''DELETE'' then Inr (createDeleteStatementParser opts)
            else if upper = str ''TRUNCATE'' then Inr (createTruncateStatementParser opts)
            else if upper = str ''BEGIN'' then
              (if (poDialect opts = DialectBigQuery \<or> poDialect opts = DialectOracle)
                  \<and> ToUpper (tValue nextToken) \<noteq> str ''TRANSACTION''
               then Inr (createBlockStatementParser opts) else fallback)
            else if upper = str ''DECLARE'' then
              (if poDialect opts = DialectOracle
               then Inr (createBlockStatementParser opts) else fallback)
            else fallback)
         else fallback)"

subsection \<open>AddToken\<close>

text \<open>
  \<^verbatim>\<open>AddToken\<close> is a sequence of blocks, most of which can return early. Each block is
  a function from the parser to a \<open>flow\<close>: \<open>Return p\<close> when the source returns there, with
  the parser as it then is, \<open>Continue p\<close> when control reaches the next block. The
  blocks are in the order of the source.
\<close>

datatype 'a flow = Return 'a | Continue 'a

definition setPrevToken :: "Token \<Rightarrow> stateMachineParser \<Rightarrow> stateMachineParser" where
  "setPrevToken token p =
     p\<lparr>prevToken := Some token,
       prevNonWhitespaceToken :=
         (if tType token \<noteq> TokenWhitespace then Some token else prevNonWhitespaceToken p)\<rparr>"

definition isValidToken :: "Step \<Rightarrow> Token \<Rightarrow> bool" where
  "isValidToken step token =
     (case Validation step of
        None \<Rightarrow> True
      | Some v \<Rightarrow>
          list_ex (\<lambda>accept. tType token = aType accept
                     \<and> (aValue accept = [] \<or> ToUpper (tValue token) = aValue accept))
            (AcceptTokens v))"

text \<open>Lines 715 to 727: does a semicolon end the statement here?\<close>

definition statementTypeEnds :: "stateMachineParser \<Rightarrow> bool" where
  "statementTypeEnds p =
     (case sType (statement p) of
        None \<Rightarrow> False
      | Some t \<Rightarrow> contains statementsWithEnds t)"

definition endsOnSemicolon :: "stateMachineParser \<Rightarrow> Token \<Rightarrow> bool" where
  "endsOnSemicolon p token =
     (tType token = TokenSemicolon \<and>
      (\<not> statementTypeEnds p \<or>
       (openBlocks p = 0 \<and>
        (sType (statement p) = Some StatementUnknown \<or> sCanEnd (statement p) = Some True))))"

text \<open>Lines 744 to 779: a keyword that opens a block.\<close>

definition canOpenBlock :: "stateMachineParser \<Rightarrow> gostring \<Rightarrow> Token \<Rightarrow> bool" where
  "canOpenBlock p upperVal nextToken =
     (if upperVal \<noteq> str ''BEGIN'' then True
      else if ToUpper (tValue nextToken) \<noteq> str ''TRANSACTION'' then
        (if poDialect (options p) \<noteq> DialectSQLite then True
         else \<not> (ToUpper (tValue nextToken) = str ''DEFERRED''
                 \<or> ToUpper (tValue nextToken) = str ''IMMEDIATE''
                 \<or> ToUpper (tValue nextToken) = str ''EXCLUSIVE''))
      else False)"

definition addBlockOpener ::
  "stateMachineParser \<Rightarrow> Token \<Rightarrow> Token \<Rightarrow> stateMachineParser flow" where
  "addBlockOpener p token nextToken =
     (if tType token = TokenKeyword
         \<and> contains (blockOpeners (poDialect (options p))) (ToUpper (tValue token))
         \<and> (case prevNonWhitespaceToken p of
               None \<Rightarrow> True
             | Some t \<Rightarrow> ToUpper (tValue t) \<noteq> str ''END'')
         \<and> canOpenBlock p (ToUpper (tValue token)) nextToken
      then
        (if poDialect (options p) = DialectOracle
            \<and> (case lastBlockOpener p of None \<Rightarrow> False | Some t \<Rightarrow> tValue t = str ''DECLARE'')
            \<and> ToUpper (tValue token) = str ''BEGIN''
         then Return ((setPrevToken token p)\<lparr>lastBlockOpener := Some token\<rparr>)
         else
           (let p1 = setPrevToken token
                       (p\<lparr>openBlocks := openBlocks p + 1, lastBlockOpener := Some token\<rparr>)
            in if sType (statement p1) = Some StatementAnonBlock \<and> \<not> anonBlockStarted p1
               then Continue (p1\<lparr>anonBlockStarted := True\<rparr>)
               else if sType (statement p1) \<noteq> None then Return p1
               else Continue p1))
      else Continue p)"

text \<open>Lines 781 to 788 and 790 to 794: the table after FROM, JOIN or INTO; a parameter.\<close>

definition captureTable :: "stateMachineParser \<Rightarrow> Token \<Rightarrow> Token \<Rightarrow> Statement" where
  "captureTable p token nextToken =
     (if poIdentifyTables (options p) \<and> preTableKeywords (tValue token)
         \<and> sIsCte (statement p) \<noteq> Some True
         \<and> (sType (statement p) = Some StatementSelect \<or> sType (statement p) = Some StatementInsert)
         \<and> \<not> contains (sTables (statement p)) (tValue nextToken)
      then (statement p)\<lparr>sTables := sTables (statement p) @ [tValue nextToken]\<rparr>
      else statement p)"

definition captureParameter :: "Token \<Rightarrow> Statement \<Rightarrow> Statement" where
  "captureParameter token stmt =
     (if tType token = TokenParameter
         \<and> (tValue token = [63] \<or> \<not> contains (sParameters stmt) (tValue token))
      then stmt\<lparr>sParameters := sParameters stmt @ [tValue token]\<rparr>
      else stmt)"

text \<open>Lines 801 to 833: the words skipped before the statement's type is known.\<close>

definition isSkippedWord :: "stateMachineParser \<Rightarrow> gostring \<Rightarrow> bool" where
  "isSkippedWord p upperValue =
     (let dialect = poDialect (options p) in
      (upperValue = str ''UNIQUE''
       \<or> (dialect = DialectMySQL \<and> (upperValue = str ''FULLTEXT'' \<or> upperValue = str ''SPATIAL''))
       \<or> (dialect = DialectMSSQL
           \<and> (upperValue = str ''CLUSTERED'' \<or> upperValue = str ''NONCLUSTERED'')))
      \<or> ((dialect = DialectPSQL \<or> dialect = DialectMSSQL \<or> dialect = DialectBigQuery)
          \<and> upperValue = str ''MATERIALIZED'')
      \<or> (dialect \<noteq> DialectSQLite
          \<and> (upperValue = str ''OR''
              \<or> ((case prevNonWhitespaceToken p of
                      None \<Rightarrow> False
                    | Some t \<Rightarrow> ToUpper (tValue t) = str ''OR'')
                  \<and> (if dialect = DialectMSSQL then upperValue = str ''ALTER''
                      else upperValue = str ''REPLACE''))))
      \<or> (dialect = DialectPSQL \<and> (upperValue = str ''TEMP'' \<or> upperValue = str ''TEMPORARY''))
      \<or> (dialect = DialectSQLite
          \<and> (upperValue = str ''TEMP'' \<or> upperValue = str ''TEMPORARY''
              \<or> upperValue = str ''VIRTUAL'')))"

text \<open>Lines 835 to 859: \<^verbatim>\<open>DEFINER = value\<close>.\<close>

definition addDefiner :: "stateMachineParser \<Rightarrow> Token \<Rightarrow> stateMachineParser flow" where
  "addDefiner p token =
     (let stmt = statement p in
      if poDialect (options p) = DialectMySQL \<and> ToUpper (tValue token) = str ''DEFINER''
      then Return (setPrevToken token (p\<lparr>statement := stmt\<lparr>sDefiner := Some 0\<rparr>\<rparr>))
      else if sDefiner stmt = Some 0 \<and> tValue token = [61]
      then Return (setPrevToken token (p\<lparr>statement := stmt\<lparr>sDefiner := Some 1\<rparr>\<rparr>))
      else (case sDefiner stmt of
              None \<Rightarrow> Continue p
            | Some d \<Rightarrow>
                if d > 0 then
                  (if d = 1 \<and> (case prevToken p of None \<Rightarrow> False
                                 | Some t \<Rightarrow> tType t = TokenWhitespace)
                   then Return (setPrevToken token (p\<lparr>statement := stmt\<lparr>sDefiner := Some (d + 1)\<rparr>\<rparr>))
                   else if d > 1 \<and> (case prevToken p of None \<Rightarrow> False
                                      | Some t \<Rightarrow> tType t \<noteq> TokenWhitespace)
                   then Return (setPrevToken token p)
                   else Continue (p\<lparr>statement := stmt\<lparr>sDefiner := None\<rparr>\<rparr>))
                else Continue p))"

text \<open>Lines 861 to 887: \<^verbatim>\<open>ALGORITHM = value\<close>.\<close>

definition addAlgorithm :: "stateMachineParser \<Rightarrow> Token \<Rightarrow> stateMachineParser flow" where
  "addAlgorithm p token =
     (let stmt = statement p in
      if poDialect (options p) = DialectMySQL \<and> ToUpper (tValue token) = str ''ALGORITHM''
      then Return (setPrevToken token (p\<lparr>statement := stmt\<lparr>sAlgorithm := Some 0\<rparr>\<rparr>))
      else if sAlgorithm stmt = Some 0 \<and> tValue token = [61]
      then Return (setPrevToken token (p\<lparr>statement := stmt\<lparr>sAlgorithm := Some 1\<rparr>\<rparr>))
      else (case sAlgorithm stmt of
              None \<Rightarrow> Continue p
            | Some a \<Rightarrow>
                if a > 0 then
                  (if a = 1 \<and> (case prevToken p of None \<Rightarrow> False
                                 | Some t \<Rightarrow> tType t = TokenWhitespace)
                   then Return (setPrevToken token (p\<lparr>statement := stmt\<lparr>sAlgorithm := Some (a + 1)\<rparr>\<rparr>))
                   else if a > 1
                           \<and> (case prevToken p of
                                 None \<Rightarrow> False
                               | Some t \<Rightarrow>
                                   contains (map str [''UNDEFINED'', ''MERGE'', ''TEMPTABLE''])
                                     (ToUpper (tValue t)))
                   then Return (setPrevToken token p)
                   else Continue (p\<lparr>statement := stmt\<lparr>sAlgorithm := None\<rparr>\<rparr>))
                else Continue p))"

text \<open>Lines 889 to 905: \<^verbatim>\<open>SQL SECURITY value\<close>.\<close>

definition addSQLSecurity :: "stateMachineParser \<Rightarrow> Token \<Rightarrow> stateMachineParser flow" where
  "addSQLSecurity p token =
     (let stmt = statement p; upperValue = ToUpper (tValue token) in
      if poDialect (options p) = DialectMySQL \<and> upperValue = str ''SQL''
      then Return (setPrevToken token (p\<lparr>statement := stmt\<lparr>sSQLSecurity := Some 0\<rparr>\<rparr>))
      else (case sSQLSecurity stmt of
              None \<Rightarrow> Continue p
            | Some q \<Rightarrow>
                if (q = 0 \<and> upperValue = str ''SECURITY'')
                   \<or> (q = 1 \<and> (upperValue = str ''DEFINER'' \<or> upperValue = str ''INVOKER''))
                then Return (setPrevToken token (p\<lparr>statement := stmt\<lparr>sSQLSecurity := Some (q + 1)\<rparr>\<rparr>))
                else if q = 2 then Continue (p\<lparr>statement := stmt\<lparr>sSQLSecurity := None\<rparr>\<rparr>)
                else Continue p))"

text \<open>
  Lines 907 to 949: the current step. Indexing \<^verbatim>\<open>p.steps\<close> out of range is a panic of
  the Go runtime. The two messages are built as \<^verbatim>\<open>fmt.Sprintf\<close> builds them.
\<close>

definition stepAt :: "Step list \<Rightarrow> int \<Rightarrow> error + Step" where
  "stepAt stps i =
     (if 0 \<le> i \<and> i < int (length stps) then Inr (stps ! nat i) else Inl RuntimeErr)"

fun Join :: "gostring list \<Rightarrow> gostring \<Rightarrow> gostring" where
  "Join [] sep = []"
| "Join [x] sep = x"
| "Join (x # y # ys) sep = x @ sep @ Join (y # ys) sep"

fun showNat :: "nat \<Rightarrow> gostring" where
  "showNat n = (if n < 10 then [48 + int n] else showNat (n div 10) @ [48 + int (n mod 10)])"

definition Itoa :: "int \<Rightarrow> gostring" where
  "Itoa i = (if i < 0 then 45 # showNat (nat (- i)) else showNat (nat i))"

definition tokenTypeName :: "TokenType \<Rightarrow> gostring" where
  "tokenTypeName ty =
     (case ty of
        TokenWhitespace \<Rightarrow> str ''whitespace''
      | TokenCommentInline \<Rightarrow> str ''comment-inline''
      | TokenCommentBlock \<Rightarrow> str ''comment-block''
      | TokenString \<Rightarrow> str ''string''
      | TokenSemicolon \<Rightarrow> str ''semicolon''
      | TokenKeyword \<Rightarrow> str ''keyword''
      | TokenParameter \<Rightarrow> str ''parameter''
      | TokenTable \<Rightarrow> str ''table''
      | TokenUnknown \<Rightarrow> str ''unknown'')"

definition requireBeforeMessage :: "StepValidation \<Rightarrow> Token \<Rightarrow> int \<Rightarrow> gostring" where
  "requireBeforeMessage v token i =
     str ''Expected any of these tokens '' @ Join (map tokenTypeName (RequireBefore v)) (str '' or '')
     @ str '' before '' @ [34] @ tValue token @ [34] @ str '' (currentStep='' @ Itoa i @ str '').''"

definition acceptTokenMessage :: "AcceptToken \<Rightarrow> gostring" where
  "acceptTokenMessage accept =
     str ''(type='' @ [34] @ tokenTypeName (aType accept) @ [34] @ str '' value='' @ [34]
     @ aValue accept @ [34] @ str '')''"

definition invalidTokenMessage :: "Step \<Rightarrow> Token \<Rightarrow> int \<Rightarrow> gostring" where
  "invalidTokenMessage step token i =
     str ''Expected any of these tokens ''
     @ Join (case Validation step of None \<Rightarrow> [] | Some v \<Rightarrow> map acceptTokenMessage (AcceptTokens v))
         (str '' or '')
     @ str '' instead of type='' @ [34] @ tokenTypeName (tType token) @ [34] @ str '' value='' @ [34]
     @ tValue token @ [34] @ str '' (currentStep='' @ Itoa i @ str '').''"

definition requireBeforeFails :: "stateMachineParser \<Rightarrow> Step \<Rightarrow> bool" where
  "requireBeforeFails p step =
     (case prevToken p of
        None \<Rightarrow> False
      | Some prev \<Rightarrow>
          (case Validation step of
             None \<Rightarrow> False
           | Some v \<Rightarrow> RequireBefore v \<noteq> [] \<and> \<not> contains (RequireBefore v) (tType prev)))"

definition executionTypeOf :: "Statement \<Rightarrow> ExecutionType" where
  "executionTypeOf stmt =
     (case sType stmt of
        None \<Rightarrow> ExecutionUnknown
      | Some t \<Rightarrow> (case map_of ExecutionTypes t of Some e \<Rightarrow> e | None \<Rightarrow> ExecutionUnknown))"

definition currentStepOf :: "stateMachineParser \<Rightarrow> Token \<Rightarrow> error + Step \<times> stateMachineParser" where
  "currentStepOf p token =
     (case stepAt (steps p) (currentStepIndex p) of
        Inl e \<Rightarrow> Inl e
      | Inr step \<Rightarrow>
          if PreCanGoToNext step token then
            (case stepAt (steps p) (currentStepIndex p + 1) of
               Inl e \<Rightarrow> Inl e
             | Inr step' \<Rightarrow> Inr (step', p\<lparr>currentStepIndex := currentStepIndex p + 1\<rparr>))
          else Inr (step, p))"

definition addStep :: "stateMachineParser \<Rightarrow> Token \<Rightarrow> error + stateMachineParser" where
  "addStep p0 token =
     (case currentStepOf p0 token of
        Inl e \<Rightarrow> Inl e
      | Inr (currentStep, p) \<Rightarrow>
          if requireBeforeFails p currentStep
          then Inl (Errorf (requireBeforeMessage
                              (case Validation currentStep of Some v \<Rightarrow> v
                               | None \<Rightarrow> \<lparr>RequireBefore = [], AcceptTokens = []\<rparr>)
                              token (currentStepIndex p)))
          else if \<not> isValidToken currentStep token \<and> IsStrict (options p)
          then Inl (Errorf (invalidTokenMessage currentStep token (currentStepIndex p)))
          else
            (let stmt = Add currentStep token (statement p);
                 p1 = p\<lparr>statement := stmt\<lparr>sExecutionType := Some (executionTypeOf stmt)\<rparr>\<rparr>;
                 p2 = (if PostCanGoToNext currentStep token
                       then p1\<lparr>currentStepIndex := currentStepIndex p1 + 1\<rparr> else p1)
             in Inr (setPrevToken token p2)))"

definition closeBlock :: "stateMachineParser \<Rightarrow> stateMachineParser" where
  "closeBlock p =
     (let p1 = p\<lparr>openBlocks := openBlocks p - 1\<rparr>
      in if openBlocks p1 = 0 then p1\<lparr>statement := (statement p1)\<lparr>sCanEnd := Some True\<rparr>\<rparr>
         else p1)"

definition AddToken ::
  "stateMachineParser \<Rightarrow> Token \<Rightarrow> Token \<Rightarrow> error + stateMachineParser" where
  "AddToken p token nextToken =
     (if sEndStatement (statement p) \<noteq> None
      then Inl (Errorf (str ''This statement has already got to the end.''))
      else if endsOnSemicolon p token
      then Inr (p\<lparr>statement := (statement p)\<lparr>sEndStatement := Some [59]\<rparr>\<rparr>)
      else if openBlocks p > 0 \<and> ToUpper (tValue token) = str ''END''
      then Inr (setPrevToken token (closeBlock p))
      else if tType token = TokenWhitespace
      then Inr (setPrevToken token p)
      else
        (case addBlockOpener p token nextToken of
           Return p1 \<Rightarrow> Inr p1
         | Continue p1 \<Rightarrow>
             let p2 = p1\<lparr>statement := captureTable p1 token nextToken\<rparr>;
                 p3 = p2\<lparr>statement := captureParameter token (statement p2)\<rparr>
             in if sType (statement p3) \<noteq> None \<and> sStart (statement p3) \<ge> 0
                then Inr (setPrevToken token p3)
                else if isSkippedWord p3 (ToUpper (tValue token))
                then Inr (setPrevToken token p3)
                else
                  (case addDefiner p3 token of
                     Return p4 \<Rightarrow> Inr p4
                   | Continue p4 \<Rightarrow>
                       (case addAlgorithm p4 token of
                          Return p5 \<Rightarrow> Inr p5
                        | Continue p5 \<Rightarrow>
                            (case addSQLSecurity p5 token of
                               Return p6 \<Rightarrow> Inr p6
                             | Continue p6 \<Rightarrow> addStep p6 token)))))"

text \<open>
  Only the semicolon branch of \<^verbatim>\<open>AddToken\<close> sets the end marker, as long as no step's
  \<^verbatim>\<open>Add\<close> does. No step of the parsers this code creates sets it, and \<^verbatim>\<open>AddToken\<close> never
  changes the steps: \<open>stepsKeepEndMarker\<close> holds of every parser at work.
\<close>

definition stepsKeepEndMarker :: "stateMachineParser \<Rightarrow> bool" where
  "stepsKeepEndMarker p \<longleftrightarrow>
     (\<forall>step \<in> set (steps p). \<forall>token stmt.
        sEndStatement (Add step token stmt) = sEndStatement stmt)"

subsection \<open>Parse\<close>

function nextNonWhitespaceToken :: "State \<Rightarrow> Dialect \<Rightarrow> ParamTypes \<Rightarrow> error + Token" where
  "nextNonWhitespaceToken state dialect paramTypes =
     (case ScanToken (initState [] (Some state)) dialect paramTypes of
        Inl e \<Rightarrow> Inl e
      | Inr (token, s) \<Rightarrow>
          if tType token \<noteq> TokenWhitespace then Inr token
          else nextNonWhitespaceToken s dialect paramTypes)"
  by pat_completeness auto
termination
proof (relation "measure (\<lambda>(s, d, pt). nat (int (length (Input s)) - Position s))")
  show "wf (measure (\<lambda>(s, d, pt). nat (int (length (Input s)) - Position s)))" by simp
next
  fix state :: State and dialect :: Dialect and paramTypes :: ParamTypes and x2 x y
  assume "ScanToken (initState [] (Some state)) dialect paramTypes = Inr x2"
    and "(x, y) = x2" and "\<not> tType x \<noteq> TokenWhitespace"
  then have "ScanToken (initState [] (Some state)) dialect paramTypes = Inr (x, y)"
    and "tType x = TokenWhitespace" by simp_all
  from ScanToken_progress [OF this(1)] this(2)
  show "((y, dialect, paramTypes), state, dialect, paramTypes)
          \<in> measure (\<lambda>(s, d, pt). nat (int (length (Input s)) - Position s))"
    by simp
qed

declare nextNonWhitespaceToken.simps [simp del]

definition ignoreOutsideBlankTokens :: "TokenType list" where
  "ignoreOutsideBlankTokens =
     [TokenWhitespace, TokenCommentInline, TokenCommentBlock, TokenSemicolon]"

text \<open>
  The variables of the main loop. \<^verbatim>\<open>prevState\<close> is the cursor after the last token taken;
  \<^verbatim>\<open>statementParser\<close> is nil between statements.
\<close>

record parseVars =
  prevState :: State
  statementParser :: "stateMachineParser option"
  cte :: cteState
  topLevelResult :: ParseResult

definition appendToken :: "Token \<Rightarrow> State \<Rightarrow> parseVars \<Rightarrow> parseVars" where
  "appendToken token tokenState v =
     v\<lparr>prevState := tokenState,
       topLevelResult := (topLevelResult v)\<lparr>Tokens := Tokens (topLevelResult v) @ [token]\<rparr>\<rparr>"

definition cteUnknownStatement :: "cteState \<Rightarrow> Token \<Rightarrow> ConcreteStatement" where
  "cteUnknownStatement c token =
     \<lparr>cStart = Start (cstate c), cEnd = tEnd token, cType = StatementUnknown,
      cExecutionType = ExecutionUnknown, cEndStatement = None, cCanEnd = None,
      cDefiner = None, cAlgorithm = None, cSQLSecurity = None, cParameters = [],
      cTables = [], cIsCte = None\<rparr>"

definition cteTrack :: "cteState \<Rightarrow> Token \<Rightarrow> cteState" where
  "cteTrack c token =
     (if asSeen c then
        (if tValue token = [40] then c\<lparr>parens := parens c + 1\<rparr>
         else if tValue token = [41] then
           (if parens c - 1 = 0 then c\<lparr>parens := parens c - 1, statementEnd := True\<rparr>
            else c\<lparr>parens := parens c - 1\<rparr>)
         else c)
      else if ToUpper (tValue token) = str ''AS'' then c\<lparr>asSeen := True\<rparr>
      else c)"

definition startCteStatement :: "cteState \<Rightarrow> stateMachineParser \<Rightarrow> stateMachineParser" where
  "startCteStatement c p =
     p\<lparr>statement := (statement p)\<lparr>sStart := Start (cstate c), sIsCte := Some True,
                                     sParameters := sParameters (statement p) @ params c\<rparr>\<rparr>"

text \<open>Lines 188 to 258: no statement is being parsed.\<close>

definition Parse_outside ::
  "ParseOptions \<Rightarrow> Token \<Rightarrow> Token \<Rightarrow> State \<Rightarrow> parseVars \<Rightarrow> error + parseVars" where
  "Parse_outside opts token nextToken tokenState v =
     (let c = cte v in
      if \<not> isCte c \<and> contains ignoreOutsideBlankTokens (tType token)
      then Inr (appendToken token tokenState v)
      else if \<not> isCte c \<and> tType token = TokenKeyword \<and> ToUpper (tValue token) = str ''WITH''
      then Inr ((appendToken token tokenState v)\<lparr>cte := c\<lparr>isCte := True, cstate := tokenState\<rparr>\<rparr>)
      else if isCte c \<and> tType token = TokenSemicolon
      then Inr ((appendToken token tokenState v)
                  \<lparr>topLevelResult :=
                     (topLevelResult (appendToken token tokenState v))
                       \<lparr>Body := Body (topLevelResult v) @ [cteUnknownStatement c token]\<rparr>,
                   cte := c\<lparr>isCte := False, asSeen := False, statementEnd := False, parens := 0\<rparr>\<rparr>)
      else if isCte c \<and> \<not> statementEnd c
      then Inr ((appendToken token tokenState v)\<lparr>cte := cteTrack c token\<rparr>)
      else if isCte c \<and> statementEnd c \<and> tValue token = [44]
      then Inr ((appendToken token tokenState v)\<lparr>cte := c\<lparr>asSeen := False, statementEnd := False\<rparr>\<rparr>)
      else if isCte c \<and> statementEnd c \<and> contains ignoreOutsideBlankTokens (tType token)
      then Inr (appendToken token tokenState v)
      else
        (case createStatementParserByToken token nextToken opts of
           Inl e \<Rightarrow> Inl e
         | Inr p \<Rightarrow>
             if isCte c
             then Inr (v\<lparr>statementParser := Some (startCteStatement c p),
                          cte := c\<lparr>params := [], isCte := False, asSeen := False,
                                   statementEnd := False\<rparr>\<rparr>)
             else Inr (v\<lparr>statementParser := Some p\<rparr>)))"

text \<open>Lines 260 to 262: a parameter seen while a CTE is tracked.\<close>

definition captureCteParameter :: "Token \<Rightarrow> parseVars \<Rightarrow> parseVars" where
  "captureCteParameter token v =
     (if isCte (cte v) \<and> tType token = TokenParameter
      then v\<lparr>cte := (cte v)\<lparr>params := params (cte v) @ [tValue token]\<rparr>\<rparr>
      else v)"

text \<open>
  Lines 264 to 273: the token goes to the statement's parser; a statement that has its
  end marker is closed at the token's end and appended to the body.
\<close>

definition Parse_feed ::
  "stateMachineParser \<Rightarrow> Token \<Rightarrow> Token \<Rightarrow> State \<Rightarrow> parseVars \<Rightarrow> error + parseVars" where
  "Parse_feed p token nextToken tokenState v =
     (case AddToken p token nextToken of
        Inl e \<Rightarrow> Inl e
      | Inr p' \<Rightarrow>
          if sEndStatement (statement p') \<noteq> None
          then Inr ((appendToken token tokenState v)
                      \<lparr>statementParser := None,
                       topLevelResult :=
                         (topLevelResult (appendToken token tokenState v))
                           \<lparr>Body := Body (topLevelResult v)
                                     @ [ToConcrete ((statement p')\<lparr>sEnd := tEnd token\<rparr>)]\<rparr>\<rparr>)
          else Inr ((appendToken token tokenState v)\<lparr>statementParser := Some p'\<rparr>))"

definition Parse_step :: "ParseOptions \<Rightarrow> parseVars \<Rightarrow> error + parseVars" where
  "Parse_step opts v =
     (case ScanToken (initState [] (Some (prevState v))) (poDialect opts) (poParamTypes opts) of
        Inl e \<Rightarrow> Inl e
      | Inr (token, tokenState) \<Rightarrow>
          (case nextNonWhitespaceToken tokenState (poDialect opts) (poParamTypes opts) of
             Inl e \<Rightarrow> Inl e
           | Inr nextToken \<Rightarrow>
               (case statementParser v of
                  None \<Rightarrow>
                    (case Parse_outside opts token nextToken tokenState v of
                       Inl e \<Rightarrow> Inl e
                     | Inr v' \<Rightarrow> Inr (captureCteParameter token v'))
                | Some p \<Rightarrow> Parse_feed p token nextToken tokenState v)))"

text \<open>
  The loop runs while \<^verbatim>\<open>prevState.Position < topLevelState.End\<close>. \<^verbatim>\<open>initState\<close> sets
  \<^verbatim>\<open>topLevelState.End\<close> to \<^verbatim>\<open>len(inputRunes) - 1\<close>, and every cursor carries the same
  input, so the bound is written from the cursor at hand. Each turn takes a token, or
  creates the parser that takes it on the next turn.
\<close>

lemma Parse_outside_progress:
  assumes "Parse_outside opts token nextToken tokenState v = Inr v'"
  shows "(prevState v' = tokenState \<or>
          (prevState v' = prevState v \<and> statementParser v' \<noteq> None))"
  using assms
  by (auto simp: Parse_outside_def Let_def appendToken_def split: if_splits sum.splits)

lemma Parse_feed_progress:
  assumes "Parse_feed p token nextToken tokenState v = Inr v'"
  shows "prevState v' = tokenState"
  using assms
  by (auto simp: Parse_feed_def appendToken_def split: if_splits sum.splits)

lemma prevState_captureCteParameter:
  "prevState (captureCteParameter token v) = prevState v"
  "statementParser (captureCteParameter token v) = statementParser v"
  by (simp_all add: captureCteParameter_def)

lemma Parse_step_progress:
  assumes "Parse_step opts v = Inr v'"
    and "Position (prevState v) < int (length (Input (prevState v))) - 1"
  shows "Input (prevState v') = Input (prevState v) \<and>
         (Position (prevState v) < Position (prevState v') \<or>
          (Position (prevState v') = Position (prevState v)
           \<and> statementParser v = None \<and> statementParser v' \<noteq> None))"
proof -
  from assms(1) obtain token tokenState where
    sc: "ScanToken (initState [] (Some (prevState v))) (poDialect opts) (poParamTypes opts)
           = Inr (token, tokenState)"
    by (auto simp: Parse_step_def split: sum.splits)
  from assms(1) sc obtain nextToken where
    nx: "nextNonWhitespaceToken tokenState (poDialect opts) (poParamTypes opts) = Inr nextToken"
    by (auto simp: Parse_step_def split: sum.splits)
  from ScanToken_progress [OF sc] assms(2)
  have adv: "Input tokenState = Input (prevState v)" "Position (prevState v) < Position tokenState"
    by simp_all
  show ?thesis
  proof (cases "statementParser v")
    case None
    with assms(1) sc nx obtain w where
      w: "Parse_outside opts token nextToken tokenState v = Inr w" and v': "v' = captureCteParameter token w"
      by (auto simp: Parse_step_def split: sum.splits)
    from Parse_outside_progress [OF w] adv None show ?thesis
      by (auto simp: v' prevState_captureCteParameter)
  next
    case (Some p)
    with assms(1) sc nx have "Parse_feed p token nextToken tokenState v = Inr v'"
      by (simp add: Parse_step_def)
    from Parse_feed_progress [OF this] adv show ?thesis by simp
  qed
qed

function Parse_loop :: "ParseOptions \<Rightarrow> parseVars \<Rightarrow> error + parseVars" where
  "Parse_loop opts v =
     (if Position (prevState v) < int (length (Input (prevState v))) - 1 then
        (case Parse_step opts v of
           Inl e \<Rightarrow> Inl e
         | Inr v' \<Rightarrow> Parse_loop opts v')
      else Inr v)"
  by pat_completeness auto
termination
proof (relation "measure (\<lambda>(opts, v).
          2 * nat (int (length (Input (prevState v))) - Position (prevState v))
          + (if statementParser v = None then 1 else 0))")
  show "wf (measure (\<lambda>(opts, v).
          2 * nat (int (length (Input (prevState v))) - Position (prevState v))
          + (if statementParser v = None then 1 else 0)))" by simp
next
  fix opts :: ParseOptions and v v' :: parseVars
  assume b: "Position (prevState v) < int (length (Input (prevState v))) - 1"
    and s: "Parse_step opts v = Inr v'"
  from Parse_step_progress [OF s b] b
  show "((opts, v'), opts, v) \<in> measure (\<lambda>(opts, v).
          2 * nat (int (length (Input (prevState v))) - Position (prevState v))
          + (if statementParser v = None then 1 else 0))"
    by (auto split: if_splits)
qed

declare Parse_loop.simps [simp del]

text \<open>
  Lines 277 to 284: a statement still open at the end of the input ends at the input's
  last offset.
\<close>

definition closeLastStatement :: "parseVars \<Rightarrow> ParseResult" where
  "closeLastStatement v =
     (case statementParser v of
        None \<Rightarrow> topLevelResult v
      | Some p \<Rightarrow>
          if sEndStatement (statement p) = None
          then (topLevelResult v)
                 \<lparr>Body := Body (topLevelResult v)
                           @ [ToConcrete ((statement p)\<lparr>sEnd := prEnd (topLevelResult v)\<rparr>)]\<rparr>
          else topLevelResult v)"

text \<open>
  \<^verbatim>\<open>Parse\<close> takes the input as \<^verbatim>\<open>[]rune(input)\<close>. Its \<^verbatim>\<open>paramTypes\<close> is a pointer that
  \<^verbatim>\<open>Identify\<close> never leaves nil. A panic is the result \<open>Inl\<close>.
\<close>

definition Parse ::
  "gostring \<Rightarrow> bool \<Rightarrow> Dialect \<Rightarrow> bool \<Rightarrow> ParamTypes \<Rightarrow> error + ParseResult" where
  "Parse input isStrict dialect identifyTables paramTypes =
     (let topLevelState = initState input None
      in case Parse_loop
                \<lparr>IsStrict = isStrict, poDialect = dialect, poIdentifyTables = identifyTables,
                 poParamTypes = paramTypes\<rparr>
                \<lparr>prevState = topLevelState, statementParser = None,
                 cte = \<lparr>isCte = False, asSeen = False, statementEnd = False, parens = 0,
                        cstate = topLevelState, params = []\<rparr>,
                 topLevelResult =
                   \<lparr>prType = str ''QUERY'', prStart = 0, prEnd = int (length input) - 1,
                    Body = [], Tokens = []\<rparr>\<rparr> of
           Inl e \<Rightarrow> Inl e
         | Inr v \<Rightarrow> Inr (closeLastStatement v))"

definition DefaultParamTypesFor :: "Dialect \<Rightarrow> ParamTypes" where
  "DefaultParamTypesFor dialect =
     (if dialect = DialectPSQL
      then \<lparr>Positional = None, Numbered = [36], Named = [], Quoted = [], Custom = []\<rparr>
      else if dialect = DialectMSSQL
      then \<lparr>Positional = None, Numbered = [], Named = [58], Quoted = [], Custom = []\<rparr>
      else if dialect = DialectBigQuery
      then \<lparr>Positional = Some True, Numbered = [], Named = [64], Quoted = [64], Custom = []\<rparr>
      else if dialect = DialectSQLite
      then \<lparr>Positional = Some True, Numbered = [63], Named = [58, 64], Quoted = [], Custom = []\<rparr>
      else \<lparr>Positional = Some True, Numbered = [], Named = [], Quoted = [], Custom = []\<rparr>)"

section \<open>Identify (identifier.go)\<close>

record IdentifyOptions =
  optStrict :: "bool option"
  optDialect :: "Dialect option"
  optIdentifyTables :: "bool option"
  optParamTypes :: "ParamTypes option"

text \<open>
  \<^verbatim>\<open>Text\<close> is a slice of the query by byte offsets, so it is kept as bytes: the UTF-8
  encoding of the query, cut at the two offsets. Slicing a string with a negative bound,
  or with a lower bound above the upper one, is a panic of the Go runtime.
\<close>

definition utf8Encode :: "rune \<Rightarrow> int list" where
  "utf8Encode r =
     (if r < 0 \<or> 1114111 < r \<or> (55296 \<le> r \<and> r \<le> 57343) then [239, 191, 189]
      else if r < 128 then [r]
      else if r < 2048 then [192 + r div 64, 128 + r mod 64]
      else if r < 65536 then [224 + r div 4096, 128 + (r div 64) mod 64, 128 + r mod 64]
      else [240 + r div 262144, 128 + (r div 4096) mod 64, 128 + (r div 64) mod 64,
            128 + r mod 64])"

definition bytesOf :: "gostring \<Rightarrow> int list" where
  "bytesOf s = concat (map utf8Encode s)"

record IdentifyResult =
  rStart :: int
  rEnd :: int
  rText :: "int list"
  rType :: StatementType
  rExecutionType :: ExecutionType
  rParameters :: "gostring list"
  rTables :: "gostring list"

definition identifyResult ::
  "gostring \<Rightarrow> bool \<Rightarrow> ConcreteStatement \<Rightarrow> error + IdentifyResult" where
  "identifyResult query sortParams stmt =
     (let hi = min (cEnd stmt + 1) (len_string query) in
      if cStart stmt < 0 then Inl RuntimeErr
      else if hi < cStart stmt then Inl RuntimeErr
      else Inr \<lparr>rStart = cStart stmt, rEnd = cEnd stmt,
                rText = slice (bytesOf query) (cStart stmt) hi,
                rType = cType stmt, rExecutionType = cExecutionType stmt,
                rParameters = (if sortParams then sort (cParameters stmt) else cParameters stmt),
                rTables = cTables stmt\<rparr>)"

fun identifyResults ::
  "gostring \<Rightarrow> bool \<Rightarrow> ConcreteStatement list \<Rightarrow> error + IdentifyResult list" where
  "identifyResults query sortParams [] = Inr []"
| "identifyResults query sortParams (stmt # rest) =
     (case identifyResult query sortParams stmt of
        Inl e \<Rightarrow> Inl e
      | Inr r \<Rightarrow>
          (case identifyResults query sortParams rest of
             Inl e \<Rightarrow> Inl e
           | Inr rs \<Rightarrow> Inr (r # rs)))"

definition unknownDialectError :: error where
  "unknownDialectError =
     Errorf (str ''Unknown dialect. Allowed values: ['' @ Join (map str DIALECTS) [32] @ [93])"

text \<open>
  \<^verbatim>\<open>Identify\<close> returns the pair \<^verbatim>\<open>(results, err)\<close>; a nil slice and a nil error are
  \<open>None\<close>. The local variables the body computes from the options (\<^verbatim>\<open>isStrict\<close>,
  \<^verbatim>\<open>dialect\<close>, \<^verbatim>\<open>paramTypes\<close>, \<^verbatim>\<open>identifyTables\<close>, \<^verbatim>\<open>sortParams\<close>) are functions of the
  options. The deferred \<^verbatim>\<open>recover\<close> turns a panic of the body into the error of the
  same text, and leaves \<^verbatim>\<open>results\<close> as it was, which is nil: the body assigns the named
  result only in its \<^verbatim>\<open>return\<close> statements.
\<close>

definition isStrictOf :: "IdentifyOptions \<Rightarrow> bool" where
  "isStrictOf opts = (case optStrict opts of None \<Rightarrow> True | Some b \<Rightarrow> b)"

definition dialectOf :: "IdentifyOptions \<Rightarrow> Dialect" where
  "dialectOf opts = (case optDialect opts of None \<Rightarrow> DialectGeneric | Some d \<Rightarrow> d)"

definition paramTypesOf :: "IdentifyOptions \<Rightarrow> ParamTypes" where
  "paramTypesOf opts =
     (case optParamTypes opts of None \<Rightarrow> DefaultParamTypesFor (dialectOf opts) | Some pt \<Rightarrow> pt)"

definition identifyTablesOf :: "IdentifyOptions \<Rightarrow> bool" where
  "identifyTablesOf opts = (case optIdentifyTables opts of None \<Rightarrow> False | Some b \<Rightarrow> b)"

definition sortParamsOf :: "IdentifyOptions \<Rightarrow> bool" where
  "sortParamsOf opts = (dialectOf opts = DialectPSQL \<and> optParamTypes opts = None)"

definition Identify ::
  "gostring \<Rightarrow> IdentifyOptions \<Rightarrow> IdentifyResult list option \<times> error option" where
  "Identify query opts =
     (if contains DIALECTS (dialectOf opts) then
        (case Parse query (isStrictOf opts) (dialectOf opts) (identifyTablesOf opts)
                (paramTypesOf opts) of
           Inl e \<Rightarrow> (None, Some e)
         | Inr result \<Rightarrow>
             (case identifyResults query (sortParamsOf opts) (Body result) of
                Inl e \<Rightarrow> (None, Some e)
              | Inr rs \<Rightarrow> (Some rs, None)))
      else (None, Some unknownDialectError))"

section \<open>Invariants of a run\<close>

text \<open>
  The predicates the proofs about every run of \<^verbatim>\<open>Parse\<close> use. A colon is beside a colon
  when the rune before it or the rune after it is a colon too; \<open>colonToken i\<close> is the
  one-character token of type unknown at offset \<open>i\<close>.
\<close>

definition colonBesideColon :: "rune list \<Rightarrow> int \<Rightarrow> bool" where
  "colonBesideColon inp i \<longleftrightarrow>
     0 \<le> i \<and> i < int (length inp) \<and> inp ! nat i = 58
     \<and> ((0 < i \<and> inp ! nat (i - 1) = 58)
         \<or> (i + 1 < int (length inp) \<and> inp ! nat (i + 1) = 58))"

definition colonToken :: "int \<Rightarrow> Token" where
  "colonToken i = \<lparr>tType = TokenUnknown, tValue = [58], tStart = i, tEnd = i\<rparr>"

text \<open>
  Most blocks of \<^verbatim>\<open>AddToken\<close> leave the steps, the options, the step index and the
  statement's type, start, end marker and parameters as they are.
\<close>

definition kept :: "stateMachineParser \<Rightarrow> stateMachineParser \<Rightarrow> bool" where
  "kept p p' \<longleftrightarrow>
     steps p' = steps p \<and> options p' = options p \<and> currentStepIndex p' = currentStepIndex p
     \<and> sType (statement p') = sType (statement p) \<and> sStart (statement p') = sStart (statement p)
     \<and> sEndStatement (statement p') = sEndStatement (statement p)
     \<and> sParameters (statement p') = sParameters (statement p)"

text \<open>
  \<^verbatim>\<open>AddToken\<close> indexes \<^verbatim>\<open>p.steps\<close> with \<^verbatim>\<open>currentStepIndex\<close>, which every step that
  runs increments. The index is in range wherever it is used, because a statement that
  has run its last step has a type and a start, and \<^verbatim>\<open>AddToken\<close> then returns before
  it reaches the steps (lines 796 to 799). \<open>stepsInRange\<close> is what makes that so: no step
  moves to the next one before it runs, and every step does after it; no step unsets
  the start or the type; the first step sets the start, and the last one sets the type
  unless the statement has one from the beginning, as that of the block parser has.
\<close>

definition stepsInRange :: "stateMachineParser \<Rightarrow> bool" where
  "stepsInRange p \<longleftrightarrow>
     steps p \<noteq> [] \<and> 0 \<le> currentStepIndex p \<and> currentStepIndex p \<le> int (length (steps p))
     \<and> (\<forall>step \<in> set (steps p). \<forall>token. \<not> PreCanGoToNext step token \<and> PostCanGoToNext step token)
     \<and> (\<forall>step \<in> set (steps p). \<forall>token stmt. 0 \<le> sStart stmt \<longrightarrow> 0 \<le> sStart (Add step token stmt))
     \<and> (\<forall>step \<in> set (steps p). \<forall>token stmt.
           sType stmt \<noteq> None \<longrightarrow> sType (Add step token stmt) \<noteq> None)
     \<and> (\<forall>token stmt. 0 \<le> tStart token \<longrightarrow> 0 \<le> sStart (Add (hd (steps p)) token stmt))
     \<and> (sType (statement p) \<noteq> None
         \<or> (\<forall>token stmt. sType (Add (last (steps p)) token stmt) \<noteq> None))
     \<and> (1 \<le> currentStepIndex p \<longrightarrow> 0 \<le> sStart (statement p))
     \<and> (currentStepIndex p = int (length (steps p)) \<longrightarrow> sType (statement p) \<noteq> None)"

text \<open>
  No step's \<^verbatim>\<open>Add\<close> touches the parameters; \<open>parameterTexts\<close> are the texts of the
  parameter tokens of a token stream.
\<close>

definition stepsKeepParameters :: "stateMachineParser \<Rightarrow> bool" where
  "stepsKeepParameters p \<longleftrightarrow>
     (\<forall>step \<in> set (steps p). \<forall>token stmt.
        sParameters (Add step token stmt) = sParameters stmt)"

definition parameterTexts :: "Token list \<Rightarrow> gostring set" where
  "parameterTexts ts = tValue ` {t \<in> set ts. tType t = TokenParameter}"

text \<open>
  The panics \<^verbatim>\<open>Parse\<close> can raise: that of \<^verbatim>\<open>regexp.MustCompile\<close>, on a custom parameter
  pattern that does not compile; in strict mode, that of \<^verbatim>\<open>createStatementParserByToken\<close>
  on a token that starts no statement, and that of \<^verbatim>\<open>AddToken\<close> on a token the current
  step does not accept; in any mode, that of \<^verbatim>\<open>AddToken\<close> on a token that does not
  follow one of the required types.
\<close>

definition parsePanic :: "ParseOptions \<Rightarrow> error \<Rightarrow> bool" where
  "parsePanic opts e \<longleftrightarrow>
     (e = RegexpErr \<and> Invalid \<in> set (Custom (poParamTypes opts)))
     \<or> (IsStrict opts \<and> (\<exists>v. e = Errorf (str ''Invalid statement parser '' @ [34] @ v @ [34])))
     \<or> (IsStrict opts \<and> (\<exists>step token i. e = Errorf (invalidTokenMessage step token i)))
     \<or> (\<exists>v token i. e = Errorf (requireBeforeMessage v token i))"

text \<open>
  What holds of the variables of the main loop at every turn, for the panics: the cursor
  is at -1 or after it, and the parser at work has its step index in range, a statement
  without end marker and the options of the call.
\<close>

definition loopInvariant :: "ParseOptions \<Rightarrow> parseVars \<Rightarrow> bool" where
  "loopInvariant opts v \<longleftrightarrow>
     - 1 \<le> Position (prevState v)
     \<and> (case statementParser v of
           None \<Rightarrow> True
         | Some p \<Rightarrow> stepsInRange p \<and> sEndStatement (statement p) = None \<and> options p = opts)"

text \<open>
  What holds of the same variables at every turn, for the tokens: every token taken so
  far that starts at a colon beside a colon is that one colon, of type unknown, and every
  parameter held by the CTE tracking, by a closed statement or by the statement at work
  is the text of a parameter token taken so far.
\<close>

definition tokensInvariant :: "rune list \<Rightarrow> parseVars \<Rightarrow> bool" where
  "tokensInvariant inp v \<longleftrightarrow>
     Input (prevState v) = inp
     \<and> (\<forall>t \<in> set (Tokens (topLevelResult v)).
           colonBesideColon inp (tStart t) \<longrightarrow> t = colonToken (tStart t))
     \<and> set (params (cte v)) \<subseteq> parameterTexts (Tokens (topLevelResult v))
     \<and> (\<forall>s \<in> set (Body (topLevelResult v)).
           set (cParameters s) \<subseteq> parameterTexts (Tokens (topLevelResult v)))
     \<and> (case statementParser v of
           None \<Rightarrow> True
         | Some p \<Rightarrow> stepsKeepParameters p
                     \<and> set (sParameters (statement p)) \<subseteq> parameterTexts (Tokens (topLevelResult v)))"

section \<open>Literal cases\<close>

text \<open>
  C8. \<^verbatim>\<open>Identify("SELECT * FROM Persons", {dialect: generic, strict: true})\<close> returns one
  result and no error: type SELECT, execution type LISTING, start 0, end 20, no
  parameters, no tables; its text is the whole query.
\<close>

theorem C8_select_persons:
  "Identify (str ''SELECT * FROM Persons'')
     \<lparr>optStrict = Some True, optDialect = Some DialectGeneric, optIdentifyTables = None,
      optParamTypes = None\<rparr>
   = (Some [\<lparr>rStart = 0, rEnd = 20, rText = bytesOf (str ''SELECT * FROM Persons''),
             rType = StatementSelect, rExecutionType = ExecutionListing,
             rParameters = [], rTables = []\<rparr>], None)"
  by code_simp

text \<open>
  C3. \<^verbatim>\<open>Identify("LIST * FROM Persons", {strict: true})\<close> returns no results and one
  error, whose text is \<^verbatim>\<open>Invalid statement parser "LIST"\<close> (34 is the double quote).
\<close>

theorem C3_list_strict_fails:
  "Identify (str ''LIST * FROM Persons'')
     \<lparr>optStrict = Some True, optDialect = None, optIdentifyTables = None,
      optParamTypes = None\<rparr>
   = (None, Some (Errorf (str ''Invalid statement parser '' @ [34] @ str ''LIST'' @ [34])))"
  by code_simp

text \<open>
  C4. With \<^verbatim>\<open>strict = false\<close> the same query has one result, of type UNKNOWN and execution
  type UNKNOWN, starting at 0. The claim puts its end at 14; the query has 19 characters
  and the statement, which no semicolon closes, ends at the input's last offset, 18
  (offset 14 is the last one of the query \<^verbatim>\<open>LIST * FROM foo\<close> of the repository's test).
\<close>

theorem C4_list_nonstrict_end_not_14:
  "map rEnd (the (fst (Identify (str ''LIST * FROM Persons'')
     \<lparr>optStrict = Some False, optDialect = None, optIdentifyTables = None,
      optParamTypes = None\<rparr>))) \<noteq> [14]"
  by code_simp

text \<open>
  C4, amended: \<^verbatim>\<open>Identify("LIST * FROM Persons", {strict: false})\<close> returns no error and
  exactly one result, with type UNKNOWN, execution type UNKNOWN, start 0 and end 18.
\<close>

theorem C4_list_nonstrict:
  "Identify (str ''LIST * FROM Persons'')
     \<lparr>optStrict = Some False, optDialect = None, optIdentifyTables = None,
      optParamTypes = None\<rparr>
   = (Some [\<lparr>rStart = 0, rEnd = 18, rText = bytesOf (str ''LIST * FROM Persons''),
             rType = StatementUnknown, rExecutionType = ExecutionUnknown,
             rParameters = [], rTables = []\<rparr>], None)"
  by code_simp

text \<open>
  C5. \<^verbatim>\<open>WITH cte AS (SELECT 1) SELECT * FROM cte;\<close> is one statement, of type SELECT, that
  starts at offset 0, where the WITH stands, and not at offset 23, where the SELECT after
  the CTE stands.
\<close>

theorem C5_cte_folding:
  "Identify (str ''WITH cte AS (SELECT 1) SELECT * FROM cte;'')
     \<lparr>optStrict = None, optDialect = None, optIdentifyTables = None, optParamTypes = None\<rparr>
   = (Some [\<lparr>rStart = 0, rEnd = 40,
             rText = bytesOf (str ''WITH cte AS (SELECT 1) SELECT * FROM cte;''),
             rType = StatementSelect, rExecutionType = ExecutionListing,
             rParameters = [], rTables = []\<rparr>], None)"
  by code_simp

section \<open>Options and parameters at the Identify boundary\<close>

text \<open>The text of the error for a dialect that is not recognised.\<close>

lemma unknownDialectError_text:
  "unknownDialectError =
     Errorf (str ''Unknown dialect. Allowed values: [mssql sqlite mysql oracle psql bigquery generic]'')"
  by code_simp

text \<open>
  C7. Whatever the query and whatever the other options, strict mode included, a dialect
  that is none of the seven recognised names makes \<^verbatim>\<open>Identify\<close> return the invalid-dialect
  error and no results.
\<close>

theorem C7_invalid_dialect:
  assumes "optDialect opts = Some d"
    and "d \<notin> {''mssql'', ''sqlite'', ''mysql'', ''oracle'', ''psql'', ''bigquery'', ''generic''}"
  shows "Identify query opts = (None, Some unknownDialectError)"
proof -
  from assms have "\<not> contains DIALECTS (dialectOf opts)"
    by (auto simp: dialectOf_def DIALECTS_def dialect_defs)
  then show ?thesis by (simp add: Identify_def)
qed

text \<open>The dialect name \<^verbatim>\<open>postgres\<close> is refused, in strict mode and out of it.\<close>

theorem C7_invalid_dialect_witness:
  "Identify (str ''SELECT 1'')
     \<lparr>optStrict = Some True, optDialect = Some ''postgres'', optIdentifyTables = None,
      optParamTypes = None\<rparr> = (None, Some unknownDialectError)
   \<and> Identify (str ''SELECT 1'')
     \<lparr>optStrict = Some False, optDialect = Some ''postgres'', optIdentifyTables = None,
      optParamTypes = None\<rparr> = (None, Some unknownDialectError)"
  using C7_invalid_dialect [of "\<lparr>optStrict = Some True, optDialect = Some ''postgres'',
            optIdentifyTables = None, optParamTypes = None\<rparr>" "''postgres''" "str ''SELECT 1''"]
    C7_invalid_dialect [of "\<lparr>optStrict = Some False, optDialect = Some ''postgres'',
            optIdentifyTables = None, optParamTypes = None\<rparr>" "''postgres''" "str ''SELECT 1''"]
  by simp

text \<open>
  Each result's parameters are the statement's, sorted when \<^verbatim>\<open>sortParams\<close> is set.
  \<^verbatim>\<open>sort.Strings\<close> orders strings byte by byte, which on valid UTF-8 is the lexicographic
  order of the code points: the order of lists of runes.
\<close>

lemma identifyResults_parameters:
  "identifyResults query sortParams body = Inr rs \<Longrightarrow>
   map rParameters rs =
     map (\<lambda>s. if sortParams then sort (cParameters s) else cParameters s) body"
proof (induction body arbitrary: rs)
  case Nil
  then show ?case by simp
next
  case (Cons stmt rest)
  from Cons.prems obtain r rs' where
    r: "identifyResult query sortParams stmt = Inr r"
    and rs': "identifyResults query sortParams rest = Inr rs'" and rs: "rs = r # rs'"
    by (auto split: sum.splits)
  from r have "rParameters r = (if sortParams then sort (cParameters stmt) else cParameters stmt)"
    by (auto simp: identifyResult_def Let_def split: if_splits)
  with Cons.IH [OF rs'] rs show ?case by simp
qed

text \<open>
  C6. When \<^verbatim>\<open>Identify\<close> returns results, they are those of the statements \<^verbatim>\<open>Parse\<close>
  returned, in order. If the dialect is psql and the caller gave no parameter
  configuration, each result's parameters are the statement's parameters sorted
  lexicographically; for every other dialect, and for psql with a configuration given,
  they are the statement's parameters as \<^verbatim>\<open>Parse\<close> returned them, which is the order in
  which \<^verbatim>\<open>AddToken\<close> appended them.
\<close>

theorem C6_parameter_order:
  assumes "Identify query opts = (Some results, None)"
  shows "\<exists>result.
           Parse query (isStrictOf opts) (dialectOf opts) (identifyTablesOf opts) (paramTypesOf opts)
             = Inr result
           \<and> (if dialectOf opts = DialectPSQL \<and> optParamTypes opts = None
              then map rParameters results = map (\<lambda>s. sort (cParameters s)) (Body result)
                   \<and> list_all (\<lambda>r. sorted (rParameters r)) results
              else map rParameters results = map cParameters (Body result))"
proof -
  from assms obtain result where
    p: "Parse query (isStrictOf opts) (dialectOf opts) (identifyTablesOf opts) (paramTypesOf opts)
          = Inr result"
    and i: "identifyResults query (sortParamsOf opts) (Body result) = Inr results"
    by (auto simp: Identify_def split: if_splits sum.splits)
  have m: "map rParameters results =
      map (\<lambda>s. if sortParamsOf opts then sort (cParameters s) else cParameters s) (Body result)"
    by (rule identifyResults_parameters [OF i])
  show ?thesis
  proof (cases "dialectOf opts = DialectPSQL \<and> optParamTypes opts = None")
    case True
    then have sp: "sortParamsOf opts" by (simp add: sortParamsOf_def)
    with m have e: "map rParameters results = map (\<lambda>s. sort (cParameters s)) (Body result)"
      by simp
    have "\<forall>ps \<in> set (map rParameters results). sorted ps"
      unfolding e by auto
    then have "list_all (\<lambda>r. sorted (rParameters r)) results"
      by (simp add: list_all_iff)
    with True p e show ?thesis by auto
  next
    case False
    then have "\<not> sortParamsOf opts" by (simp add: sortParamsOf_def)
    with m False p show ?thesis by auto
  qed
qed

text \<open>
  With the psql defaults, \<^verbatim>\<open>$2\<close> is captured before \<^verbatim>\<open>$1\<close> and returned after it.
\<close>

theorem C6_parameter_order_witness:
  "\<exists>result.
     Parse (str ''select x from a where x = $2 and y = $1'') True DialectPSQL False
       (DefaultParamTypesFor DialectPSQL) = Inr result
     \<and> map cParameters (Body result) = [[str ''$2'', str ''$1'']]
     \<and> map rParameters (the (fst (Identify (str ''select x from a where x = $2 and y = $1'')
          \<lparr>optStrict = None, optDialect = Some DialectPSQL, optIdentifyTables = None,
           optParamTypes = None\<rparr>))) = [[str ''$1'', str ''$2'']]"
proof -
  let ?q = "str ''select x from a where x = $2 and y = $1''"
  let ?o = "\<lparr>optStrict = None, optDialect = Some DialectPSQL, optIdentifyTables = None,
           optParamTypes = None\<rparr>"
  have i: "Identify ?q ?o =
     (Some [\<lparr>rStart = 0, rEnd = 38, rText = bytesOf ?q, rType = StatementSelect,
             rExecutionType = ExecutionListing, rParameters = [str ''$1'', str ''$2''],
             rTables = []\<rparr>], None)"
    by code_simp
  have c: "map_sum id (\<lambda>r. map cParameters (Body r))
             (Parse ?q True DialectPSQL False (DefaultParamTypesFor DialectPSQL))
           = Inr [[str ''$2'', str ''$1'']]"
    by code_simp
  from C6_parameter_order [OF i] obtain result where
    p: "Parse ?q (isStrictOf ?o) (dialectOf ?o) (identifyTablesOf ?o) (paramTypesOf ?o) = Inr result"
    by blast
  then have p': "Parse ?q True DialectPSQL False (DefaultParamTypesFor DialectPSQL) = Inr result"
    by (simp add: isStrictOf_def dialectOf_def identifyTablesOf_def paramTypesOf_def)
  with c have "map cParameters (Body result) = [[str ''$2'', str ''$1'']]" by simp
  with p' i show ?thesis by simp
qed

section \<open>Spans\<close>

text \<open>
  C2. The claim: for every input, the statements returned have strictly increasing
  starts and do not overlap, and the tokens partition the offsets of the input. The code
  breaks it. Out of strict mode, a statement that starts with a word \<^verbatim>\<open>AddToken\<close> skips
  (here \<^verbatim>\<open>UNIQUE\<close>) reaches no step, so that its start stays at the initial -1: the query
  \<^verbatim>\<open>UNIQUE;UNIQUE\<close> gives two statements, with the spans -1 to 6 and -1 to 12.
\<close>

theorem C2_modifier_only_statements:
  "map_sum id (\<lambda>r. map (\<lambda>s. (cStart s, cEnd s)) (Body r))
     (Parse (str ''UNIQUE;UNIQUE'') False DialectGeneric False (DefaultParamTypesFor DialectGeneric))
   = Inr [(- 1, 6), (- 1, 12)]"
  by code_simp

text \<open>
  The tokens: a token's end is its start plus the length of its text in bytes, while the
  cursor counts runes. In the five runes of \<^verbatim>\<open>'e' x\<close>, with U+00E9 for the letter, the
  string token ends at offset 3, where the next token starts.
\<close>

lemma non_ascii_token_ends:
  "map_sum id (\<lambda>r. map (\<lambda>t. (tStart t, tEnd t)) (Tokens r))
     (Parse [39, 233, 39, 32, 120] False DialectGeneric False (DefaultParamTypesFor DialectGeneric))
   = Inr [(0, 3), (3, 3), (4, 4)]"
  by code_simp

section \<open>The end of a statement\<close>

lemma contains_set: "contains xs x \<longleftrightarrow> x \<in> set xs"
  by (induction xs) auto

lemma statementTypeEnds_iff:
  "statementTypeEnds p \<longleftrightarrow>
     sType (statement p) \<in> Some ` {str ''CREATE_TRIGGER'', str ''CREATE_FUNCTION'',
        str ''CREATE_PROCEDURE'', str ''ANON_BLOCK'', str ''UNKNOWN''}"
  by (cases "sType (statement p)")
     (auto simp: statementTypeEnds_def contains_set statementsWithEnds_def
        StatementCreateTrigger_def StatementCreateFunction_def StatementCreateProcedure_def
        StatementAnonBlock_def StatementUnknown_def)

lemma statement_setPrevToken [simp]:
  "statement (setPrevToken token p) = statement p" "steps (setPrevToken token p) = steps p"
  by (simp_all add: setPrevToken_def)

lemma endMarker_closeBlock [simp]:
  "sEndStatement (statement (closeBlock p)) = sEndStatement (statement p)"
  "steps (closeBlock p) = steps p"
  by (simp_all add: closeBlock_def Let_def)

lemma addBlockOpener_statement:
  "addBlockOpener p token nextToken = Return p' \<or> addBlockOpener p token nextToken = Continue p'
   \<Longrightarrow> statement p' = statement p \<and> steps p' = steps p"
  by (auto simp: addBlockOpener_def Let_def split: if_splits)

lemma endMarker_captureTable [simp]:
  "sEndStatement (captureTable p token nextToken) = sEndStatement (statement p)"
  "sType (captureTable p token nextToken) = sType (statement p)"
  "sStart (captureTable p token nextToken) = sStart (statement p)"
  by (simp_all add: captureTable_def)

lemma endMarker_captureParameter [simp]:
  "sEndStatement (captureParameter token stmt) = sEndStatement stmt"
  "sType (captureParameter token stmt) = sType stmt"
  "sStart (captureParameter token stmt) = sStart stmt"
  by (simp_all add: captureParameter_def)

lemma addDefiner_endMarker:
  "addDefiner p token = Return p' \<or> addDefiner p token = Continue p'
   \<Longrightarrow> sEndStatement (statement p') = sEndStatement (statement p) \<and> steps p' = steps p"
  by (auto simp: addDefiner_def Let_def split: if_splits option.splits)

lemma addAlgorithm_endMarker:
  "addAlgorithm p token = Return p' \<or> addAlgorithm p token = Continue p'
   \<Longrightarrow> sEndStatement (statement p') = sEndStatement (statement p) \<and> steps p' = steps p"
  by (auto simp: addAlgorithm_def Let_def split: if_splits option.splits)

lemma addSQLSecurity_endMarker:
  "addSQLSecurity p token = Return p' \<or> addSQLSecurity p token = Continue p'
   \<Longrightarrow> sEndStatement (statement p') = sEndStatement (statement p) \<and> steps p' = steps p"
  by (auto simp: addSQLSecurity_def Let_def split: if_splits option.splits)

lemma currentStepOf_step:
  "currentStepOf p token = Inr (step, p') \<Longrightarrow>
   step \<in> set (steps p) \<and> statement p' = statement p \<and> steps p' = steps p"
  by (auto simp: currentStepOf_def stepAt_def split: if_splits sum.splits)

lemma addStep_endMarker:
  assumes "addStep p token = Inr p'" and "stepsKeepEndMarker p"
  shows "sEndStatement (statement p') = sEndStatement (statement p) \<and> steps p' = steps p"
proof -
  from assms(1) obtain step q where c: "currentStepOf p token = Inr (step, q)"
    by (auto simp: addStep_def split: sum.splits)
  from currentStepOf_step [OF c] assms(2)
  have k: "sEndStatement (Add step token (statement q)) = sEndStatement (statement p)"
    and q: "steps q = steps p"
    by (auto simp: stepsKeepEndMarker_def)
  from assms(1) c k q show ?thesis
    by (auto simp: addStep_def Let_def split: if_splits)
qed

lemma AddToken_not_ended:
  assumes "AddToken p token nextToken = Inr p'"
    and "\<not> endsOnSemicolon p token"
    and "stepsKeepEndMarker p"
  shows "sEndStatement (statement p') = None \<and> steps p' = steps p"
proof -
  from assms(1) have n: "sEndStatement (statement p) = None"
    by (auto simp: AddToken_def split: if_splits)
  show ?thesis
  proof (cases "(openBlocks p > 0 \<and> ToUpper (tValue token) = str ''END'')
                \<or> tType token = TokenWhitespace")
    case True
    with assms(1,2) n show ?thesis by (auto simp: AddToken_def split: if_splits)
  next
    case False
    show ?thesis
    proof (cases "addBlockOpener p token nextToken")
      case (Return p1)
      with assms(1,2) n False have "p' = p1" by (auto simp: AddToken_def)
      with addBlockOpener_statement [of p token nextToken p1] Return n show ?thesis by simp
    next
      case (Continue p1)
      from addBlockOpener_statement [of p token nextToken p1] Continue
      have s1: "statement p1 = statement p" "steps p1 = steps p" by simp_all
      define p3 where "p3 = p1\<lparr>statement :=
                 captureParameter token (captureTable p1 token nextToken)\<rparr>"
      have n3: "sEndStatement (statement p3) = None" and st3: "steps p3 = steps p"
        using n s1 by (simp_all add: p3_def)
      have k3: "stepsKeepEndMarker p3"
        using assms(3) st3 by (simp add: stepsKeepEndMarker_def)
      from assms(1,2) n False Continue
      have r: "(if sType (statement p3) \<noteq> None \<and> sStart (statement p3) \<ge> 0
                then Inr (setPrevToken token p3)
                else if isSkippedWord p3 (ToUpper (tValue token))
                then Inr (setPrevToken token p3)
                else (case addDefiner p3 token of
                        Return p4 \<Rightarrow> Inr p4
                      | Continue p4 \<Rightarrow>
                          (case addAlgorithm p4 token of
                             Return p5 \<Rightarrow> Inr p5
                           | Continue p5 \<Rightarrow>
                               (case addSQLSecurity p5 token of
                                  Return p6 \<Rightarrow> Inr p6
                                | Continue p6 \<Rightarrow> addStep p6 token)))) = Inr p'"
        by (auto simp: AddToken_def p3_def Let_def split: if_splits)
      show ?thesis
      proof (cases "(sType (statement p3) \<noteq> None \<and> sStart (statement p3) \<ge> 0)
                    \<or> isSkippedWord p3 (ToUpper (tValue token))")
        case True
        with r n3 st3 show ?thesis by (auto split: if_splits)
      next
        case nskip: False
        show ?thesis
        proof (cases "addDefiner p3 token")
          case (Return p4)
          with r nskip addDefiner_endMarker [of p3 token p4] n3 st3 show ?thesis
            by (auto split: if_splits)
        next
          case c4: (Continue p4)
          from addDefiner_endMarker [of p3 token p4] c4 n3 st3
          have n4: "sEndStatement (statement p4) = None" "steps p4 = steps p" by simp_all
          show ?thesis
          proof (cases "addAlgorithm p4 token")
            case (Return p5)
            with r nskip c4 addAlgorithm_endMarker [of p4 token p5] n4 show ?thesis
              by (auto split: if_splits)
          next
            case c5: (Continue p5)
            from addAlgorithm_endMarker [of p4 token p5] c5 n4
            have n5: "sEndStatement (statement p5) = None" "steps p5 = steps p" by simp_all
            show ?thesis
            proof (cases "addSQLSecurity p5 token")
              case (Return p6)
              with r nskip c4 c5 addSQLSecurity_endMarker [of p5 token p6] n5 show ?thesis
                by (auto split: if_splits)
            next
              case c6: (Continue p6)
              from addSQLSecurity_endMarker [of p5 token p6] c6 n5
              have n6: "sEndStatement (statement p6) = None" "steps p6 = steps p" by simp_all
              then have k6: "stepsKeepEndMarker p6"
                using assms(3) by (simp add: stepsKeepEndMarker_def)
              from r nskip c4 c5 c6 have "addStep p6 token = Inr p'" by (auto split: if_splits)
              from addStep_endMarker [OF this k6] n6 show ?thesis by simp
            qed
          qed
        qed
      qed
    qed
  qed
qed


lemma endMarker_setStart [simp]:
  "sEndStatement (setStart token stmt) = sEndStatement stmt"
  "sEndStatement (setTypeStart ty token stmt) = sEndStatement stmt"
  "sEndStatement (setTypePrefixed prefix token stmt) = sEndStatement stmt"
  by (simp_all add: setStart_def setTypeStart_def setTypePrefixed_def)

lemma createStatementParserByToken_keeps:
  assumes "createStatementParserByToken token nextToken opts = Inr p"
  shows "stepsKeepEndMarker p"
proof -
  have "p \<in> {createSelectStatementParser opts, createCreateStatementParser opts,
              createShowStatementParser opts, createDropStatementParser opts,
              createAlterStatementParser opts, createInsertStatementParser opts,
              createUpdateStatementParser opts, createDeleteStatementParser opts,
              createTruncateStatementParser opts, createBlockStatementParser opts,
              createUnknownStatementParser opts}"
    using assms by (auto simp: createStatementParserByToken_def Let_def split: if_splits)
  then show ?thesis
    by (auto simp: stepsKeepEndMarker_def stateMachineStatementParser_def firstStep_def
          secondStep_def createSelectStatementParser_def createCreateStatementParser_def
          createShowStatementParser_def createDropStatementParser_def
          createAlterStatementParser_def createInsertStatementParser_def
          createUpdateStatementParser_def createDeleteStatementParser_def
          createTruncateStatementParser_def createBlockStatementParser_def
          createUnknownStatementParser_def)
qed

lemma AddToken_keeps:
  assumes "AddToken p token nextToken = Inr p'" and "stepsKeepEndMarker p"
  shows "stepsKeepEndMarker p'"
proof (cases "endsOnSemicolon p token")
  case True
  with assms show ?thesis
    by (auto simp: AddToken_def stepsKeepEndMarker_def split: if_splits)
next
  case False
  from AddToken_not_ended [OF assms(1) False assms(2)] assms(2) show ?thesis
    by (simp add: stepsKeepEndMarker_def)
qed

text \<open>
  C1. A statement is being classified (it has no end marker yet, and its parser is one
  whose steps leave the end marker alone, as every parser the code creates is) and a
  semicolon is fed. If the statement's type is none of CREATE_TRIGGER, CREATE_FUNCTION, CREATE_PROCEDURE,
  ANON_BLOCK and UNKNOWN, or if no block is open and the type is UNKNOWN or the
  \<^verbatim>\<open>CanEnd\<close> flag is set, then \<^verbatim>\<open>AddToken\<close> sets the end marker to \<^verbatim>\<open>;\<close> and does nothing else,
  and \<^verbatim>\<open>Parse\<close> closes the statement at the semicolon's end offset and appends it to the
  body. Otherwise the semicolon does not end the statement: \<^verbatim>\<open>AddToken\<close> leaves the end
  marker unset and \<^verbatim>\<open>Parse\<close> keeps the parser.
\<close>

theorem C1_semicolon_ends_statement:
  assumes "sEndStatement (statement p) = None"
    and "tType token = TokenSemicolon"
    and "stepsKeepEndMarker p"
  shows "if sType (statement p) \<in> Some ` {str ''CREATE_TRIGGER'', str ''CREATE_FUNCTION'',
              str ''CREATE_PROCEDURE'', str ''ANON_BLOCK'', str ''UNKNOWN''}
            \<and> \<not> (openBlocks p = 0
                   \<and> (sType (statement p) = Some (str ''UNKNOWN'')
                       \<or> sCanEnd (statement p) = Some True))
         then (\<forall>p'. AddToken p token nextToken = Inr p' \<longrightarrow>
                 sEndStatement (statement p') = None
                 \<and> Parse_feed p token nextToken tokenState v
                     = Inr ((appendToken token tokenState v)\<lparr>statementParser := Some p'\<rparr>))
         else AddToken p token nextToken
                = Inr (p\<lparr>statement := (statement p)\<lparr>sEndStatement := Some [59]\<rparr>\<rparr>)
              \<and> Parse_feed p token nextToken tokenState v
                = Inr ((appendToken token tokenState v)
                        \<lparr>statementParser := None,
                         topLevelResult :=
                           (topLevelResult (appendToken token tokenState v))
                             \<lparr>Body := Body (topLevelResult v)
                                @ [ToConcrete ((statement p)\<lparr>sEndStatement := Some [59],
                                                             sEnd := tEnd token\<rparr>)]\<rparr>\<rparr>)
              \<and> cEndStatement (ToConcrete ((statement p)\<lparr>sEndStatement := Some [59],
                                                        sEnd := tEnd token\<rparr>)) = Some [59]
              \<and> cEnd (ToConcrete ((statement p)\<lparr>sEndStatement := Some [59],
                                               sEnd := tEnd token\<rparr>)) = tEnd token"
proof (cases "endsOnSemicolon p token")
  case True
  then have c: "\<not> (sType (statement p) \<in> Some ` {str ''CREATE_TRIGGER'', str ''CREATE_FUNCTION'',
              str ''CREATE_PROCEDURE'', str ''ANON_BLOCK'', str ''UNKNOWN''}
            \<and> \<not> (openBlocks p = 0
                   \<and> (sType (statement p) = Some (str ''UNKNOWN'')
                       \<or> sCanEnd (statement p) = Some True)))"
    unfolding statementTypeEnds_iff [symmetric]
    by (auto simp: endsOnSemicolon_def StatementUnknown_def)
  from True assms(1)
  have a: "AddToken p token nextToken
             = Inr (p\<lparr>statement := (statement p)\<lparr>sEndStatement := Some [59]\<rparr>\<rparr>)"
    by (simp add: AddToken_def)
  then have "Parse_feed p token nextToken tokenState v
                = Inr ((appendToken token tokenState v)
                        \<lparr>statementParser := None,
                         topLevelResult :=
                           (topLevelResult (appendToken token tokenState v))
                             \<lparr>Body := Body (topLevelResult v)
                                @ [ToConcrete ((statement p)\<lparr>sEndStatement := Some [59],
                                                             sEnd := tEnd token\<rparr>)]\<rparr>\<rparr>)"
    by (simp add: Parse_feed_def)
  with a c show ?thesis by (simp add: ToConcrete_def)
next
  case False
  with assms(2)
  have c: "sType (statement p) \<in> Some ` {str ''CREATE_TRIGGER'', str ''CREATE_FUNCTION'',
              str ''CREATE_PROCEDURE'', str ''ANON_BLOCK'', str ''UNKNOWN''}
            \<and> \<not> (openBlocks p = 0
                   \<and> (sType (statement p) = Some (str ''UNKNOWN'')
                       \<or> sCanEnd (statement p) = Some True))"
    unfolding statementTypeEnds_iff [symmetric]
    by (auto simp: endsOnSemicolon_def StatementUnknown_def)
  have "sEndStatement (statement p') = None
        \<and> Parse_feed p token nextToken tokenState v
            = Inr ((appendToken token tokenState v)\<lparr>statementParser := Some p'\<rparr>)"
    if "AddToken p token nextToken = Inr p'" for p'
    using AddToken_not_ended [OF that False assms(3)] that by (simp add: Parse_feed_def)
  with c show ?thesis by simp
qed


text \<open>
  A semicolon ends a SELECT statement; it does not end a CREATE_TRIGGER statement that has
  a block open.
\<close>

theorem C1_semicolon_ends_statement_witness:
  "AddToken
     ((createSelectStatementParser
         \<lparr>IsStrict = True, poDialect = DialectGeneric, poIdentifyTables = False,
          poParamTypes = DefaultParamTypesFor DialectGeneric\<rparr>)
        \<lparr>statement := createInitialStatement\<lparr>sStart := 0, sType := Some StatementSelect\<rparr>\<rparr>)
     \<lparr>tType = TokenSemicolon, tValue = [59], tStart = 8, tEnd = 8\<rparr>
     \<lparr>tType = TokenUnknown, tValue = [], tStart = 9, tEnd = 9\<rparr>
   = Inr ((createSelectStatementParser
             \<lparr>IsStrict = True, poDialect = DialectGeneric, poIdentifyTables = False,
              poParamTypes = DefaultParamTypesFor DialectGeneric\<rparr>)
            \<lparr>statement := createInitialStatement\<lparr>sStart := 0, sType := Some StatementSelect,
                                                 sEndStatement := Some [59]\<rparr>\<rparr>)
   \<and> (\<exists>p'. AddToken
          ((createCreateStatementParser
              \<lparr>IsStrict = True, poDialect = DialectSQLite, poIdentifyTables = False,
               poParamTypes = DefaultParamTypesFor DialectSQLite\<rparr>)
             \<lparr>statement := createInitialStatement\<lparr>sStart := 0,
                                                  sType := Some StatementCreateTrigger\<rparr>,
               openBlocks := 1\<rparr>)
          \<lparr>tType = TokenSemicolon, tValue = [59], tStart = 8, tEnd = 8\<rparr>
          \<lparr>tType = TokenUnknown, tValue = [], tStart = 9, tEnd = 9\<rparr> = Inr p'
        \<and> sEndStatement (statement p') = None \<and> openBlocks p' = 1)"
proof -
  let ?semi = "\<lparr>tType = TokenSemicolon, tValue = [59], tStart = 8, tEnd = 8\<rparr>"
  let ?next = "\<lparr>tType = TokenUnknown, tValue = [], tStart = 9, tEnd = 9\<rparr>"
  let ?p = "(createSelectStatementParser
         \<lparr>IsStrict = True, poDialect = DialectGeneric, poIdentifyTables = False,
          poParamTypes = DefaultParamTypesFor DialectGeneric\<rparr>)
        \<lparr>statement := createInitialStatement\<lparr>sStart := 0, sType := Some StatementSelect\<rparr>\<rparr>"
  let ?q = "(createCreateStatementParser
              \<lparr>IsStrict = True, poDialect = DialectSQLite, poIdentifyTables = False,
               poParamTypes = DefaultParamTypesFor DialectSQLite\<rparr>)
             \<lparr>statement := createInitialStatement\<lparr>sStart := 0,
                                                  sType := Some StatementCreateTrigger\<rparr>,
               openBlocks := 1\<rparr>"
  have kp: "stepsKeepEndMarker ?p"
    by (simp add: stepsKeepEndMarker_def createSelectStatementParser_def
          stateMachineStatementParser_def firstStep_def)
  have kq: "stepsKeepEndMarker ?q"
    by (simp add: stepsKeepEndMarker_def createCreateStatementParser_def
          stateMachineStatementParser_def firstStep_def secondStep_def)
  have tp: "sType (statement ?p) = Some (str ''SELECT'')" "sEndStatement (statement ?p) = None"
    by (simp_all add: createInitialStatement_def StatementSelect_def)
  have tq: "sType (statement ?q) = Some (str ''CREATE_TRIGGER'')"
    "sEndStatement (statement ?q) = None" "openBlocks ?q = 1"
    by (simp_all add: createInitialStatement_def StatementCreateTrigger_def)
  have sel: "str ''SELECT'' \<notin> {str ''CREATE_TRIGGER'', str ''CREATE_FUNCTION'',
              str ''CREATE_PROCEDURE'', str ''ANON_BLOCK'', str ''UNKNOWN''}"
    by (simp add: str_def)
  have a: "AddToken ?p ?semi ?next
             = Inr (?p\<lparr>statement := (statement ?p)\<lparr>sEndStatement := Some [59]\<rparr>\<rparr>)"
    using C1_semicolon_ends_statement [of ?p ?semi ?next, OF tp(2) _ kp] tp(1) sel
    by (auto simp: image_iff)
  have "AddToken ?q ?semi ?next = Inr (setPrevToken ?semi ?q)"
    by (simp add: AddToken_def endsOnSemicolon_def statementTypeEnds_def tq contains_set
          statementsWithEnds_def StatementCreateTrigger_def str_def ToUpper_def addBlockOpener_def
          captureTable_def captureParameter_def createCreateStatementParser_def
          stateMachineStatementParser_def createInitialStatement_def)
  moreover from this
    C1_semicolon_ends_statement [of ?q ?semi ?next, OF tq(2) _ kq] tq(1,3)
  have "sEndStatement (statement (setPrevToken ?semi ?q)) = None"
    by (auto simp: image_iff)
  ultimately have "\<exists>p'. AddToken ?q ?semi ?next = Inr p' \<and> sEndStatement (statement p') = None
      \<and> openBlocks p' = 1"
    by (simp add: setPrevToken_def)
  with a show ?thesis by simp
qed

section \<open>Tokens and the ways out of AddToken\<close>

text \<open>
  A token starts where its cursor starts, and the cursor stays over the same input.
\<close>

lemma ScanToken_tStart_final:
  assumes "ScanToken s0 d pt = Inr (tok, s')"
  shows "tStart tok = Start s'"
proof -
  obtain ch s1 where r: "read s0 0 = (ch, s1)" by (cases "read s0 0")
  obtain b2 s2 where i: "isCommentInline ch s1 = (b2, s2)" by (cases "isCommentInline ch s1")
  obtain b3 s3 where b: "isCommentBlock ch s2 = (b3, s3)" by (cases "isCommentBlock ch s2")
  have "scanWhitespace s1 = (tok, s') \<Longrightarrow> ?thesis"
    by (auto simp: scanWhitespace_def Let_def makeToken_def split: prod.splits)
  moreover have "scanCommentInline s2 = (tok, s') \<Longrightarrow> ?thesis"
    by (auto simp: scanCommentInline_def Let_def makeToken_def)
  moreover have "scanCommentBlock s3 = (tok, s') \<Longrightarrow> ?thesis"
    by (auto simp: scanCommentBlock_def Let_def makeToken_def)
  moreover have "scanString s3 e = (tok, s') \<Longrightarrow> ?thesis" for e
    by (auto simp: scanString_def Let_def makeToken_def split: prod.splits)
  moreover have "scanParameter s3 d pt = Inr (tok, s') \<Longrightarrow> ?thesis"
    by (auto simp: scanParameter_def Let_def makeToken_def split: sum.splits if_splits)
  moreover have "scanDollarQuotedString s3 = Inr (tok, s') \<Longrightarrow> ?thesis"
    by (auto simp: scanDollarQuotedString_def Let_def makeToken_def split: option.splits)
  moreover have "scanQuotedIdentifier s3 e = (tok, s') \<Longrightarrow> ?thesis" for e
    by (auto simp: scanQuotedIdentifier_def Let_def makeToken_def split: prod.splits)
  moreover have "scanWord s3 = (tok, s') \<Longrightarrow> ?thesis"
    by (auto simp: scanWord_def Let_def makeToken_def skipWord_def split: prod.splits if_splits)
  moreover have "s' = s3 \<Longrightarrow> scanIndividualCharacter s3 = Some tok \<Longrightarrow> ?thesis"
    by (auto simp: scanIndividualCharacter_def makeToken_def split: option.splits)
  moreover have "s' = s3 \<Longrightarrow> tok = skipChar s3 \<Longrightarrow> ?thesis"
    by (auto simp: skipChar_def)
  ultimately show ?thesis
    using ScanToken_branches [OF assms r i b] by blast
qed

lemma ScanToken_tStart:
  assumes "ScanToken s0 d pt = Inr (tok, s')"
  shows "tStart tok = Start s0" and "Start s' = Start s0" and "Input s' = Input s0"
proof -
  from ScanToken_within [OF assms]
  have "Start s' = Start (snd (read s0 0))" "Input s' = Input (snd (read s0 0))"
    by (simp_all add: within_def)
  then show "Start s' = Start s0" "Input s' = Input s0" by (simp_all add: read_def)
  with ScanToken_tStart_final [OF assms] show "tStart tok = Start s0" by simp
qed

text \<open>
  The lexer panics only where it compiles a custom pattern: \<^verbatim>\<open>scanDollarQuotedString\<close>
  is called only after \<^verbatim>\<open>isDollarQuotedString\<close> has found the opener it looks for.
\<close>

lemma isCustomParam_loop_error:
  "isCustomParam_loop ps inp = Inl e \<Longrightarrow> e = RegexpErr \<and> Invalid \<in> set ps"
  by (induction ps inp rule: isCustomParam_loop.induct)
     (auto split: pattern.splits option.splits)

lemma getCustomParam_loop_error:
  "getCustomParam_loop ps inp = Inl e \<Longrightarrow> e = RegexpErr \<and> Invalid \<in> set ps"
  by (induction ps inp rule: getCustomParam_loop.induct)
     (auto split: pattern.splits option.splits if_splits)

lemma isParameter_error:
  "isParameter ch s pt = Inl e \<Longrightarrow> e = RegexpErr \<and> Invalid \<in> set (Custom pt)"
  by (auto simp: isParameter_def isCustomParam_def split: if_splits dest: isCustomParam_loop_error)

lemma scanParameter_error:
  "scanParameter s d pt = Inl e \<Longrightarrow> e = RegexpErr \<and> Invalid \<in> set (Custom pt)"
  unfolding scanParameter_def Let_def scanParameter_custom_step_def getCustomParam_def
  by (auto split: sum.splits prod.splits if_splits dest: getCustomParam_loop_error)

lemma scanDollarQuotedString_total:
  "isDollarQuotedString s \<Longrightarrow> scanDollarQuotedString s \<noteq> Inl e"
  by (auto simp: isDollarQuotedString_def scanDollarQuotedString_def Let_def split: option.splits)

lemma ScanToken_error:
  assumes "ScanToken s0 d pt = Inl e"
  shows "e = RegexpErr \<and> Invalid \<in> set (Custom pt)"
proof -
  obtain ch s1 where r: "read s0 0 = (ch, s1)" by (cases "read s0 0")
  obtain b2 s2 where i: "isCommentInline ch s1 = (b2, s2)" by (cases "isCommentInline ch s1")
  obtain b3 s3 where b: "isCommentBlock ch s2 = (b3, s3)" by (cases "isCommentBlock ch s2")
  from assms r i b
  have "isParameter ch s3 pt = Inl e \<or> scanParameter s3 d pt = Inl e
        \<or> (isDollarQuotedString s3 \<and> scanDollarQuotedString s3 = Inl e)"
    by (auto simp: ScanToken_def split: if_splits sum.splits option.splits)
  with isParameter_error scanParameter_error scanDollarQuotedString_total show ?thesis
    by blast
qed

lemma nextNonWhitespaceToken_error:
  "nextNonWhitespaceToken s d pt = Inl e \<Longrightarrow> e = RegexpErr \<and> Invalid \<in> set (Custom pt)"
proof (induction s d pt rule: nextNonWhitespaceToken.induct)
  case (1 state dialect paramTypes)
  show ?case
  proof (cases "ScanToken (initState [] (Some state)) dialect paramTypes")
    case (Inl e')
    with "1.prems" have "e' = e" by (subst (asm) nextNonWhitespaceToken.simps) simp
    with ScanToken_error [OF Inl] show ?thesis by simp
  next
    case (Inr x)
    obtain token s where x: "x = (token, s)" by (cases x)
    from "1.prems" Inr x have w: "tType token = TokenWhitespace"
      and n: "nextNonWhitespaceToken s dialect paramTypes = Inl e"
      by (subst (asm) nextNonWhitespaceToken.simps, simp split: if_splits)+
    from "1.IH" [OF Inr x [symmetric] _ n] w show ?thesis by simp
  qed
qed

lemma kept_refl: "kept p p"
  by (simp add: kept_def)

lemma kept_setPrevToken: "kept p q \<Longrightarrow> kept p (setPrevToken token q)"
  by (simp add: kept_def setPrevToken_def)

lemma kept_closeBlock: "kept p q \<Longrightarrow> kept p (closeBlock q)"
  by (simp add: kept_def closeBlock_def Let_def)

lemma kept_addBlockOpener:
  "addBlockOpener q token nextToken = Return q' \<or> addBlockOpener q token nextToken = Continue q'
   \<Longrightarrow> kept p q \<Longrightarrow> kept p q'"
  by (auto simp: addBlockOpener_def Let_def kept_def setPrevToken_def split: if_splits)

lemma kept_addDefiner:
  "addDefiner q token = Return q' \<or> addDefiner q token = Continue q'
   \<Longrightarrow> kept p q \<Longrightarrow> kept p q'"
  by (auto simp: addDefiner_def Let_def kept_def setPrevToken_def split: if_splits option.splits)

lemma kept_addAlgorithm:
  "addAlgorithm q token = Return q' \<or> addAlgorithm q token = Continue q'
   \<Longrightarrow> kept p q \<Longrightarrow> kept p q'"
  by (auto simp: addAlgorithm_def Let_def kept_def setPrevToken_def split: if_splits option.splits)

lemma kept_addSQLSecurity:
  "addSQLSecurity q token = Return q' \<or> addSQLSecurity q token = Continue q'
   \<Longrightarrow> kept p q \<Longrightarrow> kept p q'"
  by (auto simp: addSQLSecurity_def Let_def kept_def setPrevToken_def split: if_splits option.splits)

lemma kept_capture:
  "kept p q \<Longrightarrow>
   kept (p\<lparr>statement := captureParameter token (statement p)\<rparr>)
        (q\<lparr>statement := captureParameter token (captureTable q token nextToken)\<rparr>)"
  by (simp add: kept_def captureParameter_def captureTable_def)

text \<open>
  The ways out of \<^verbatim>\<open>AddToken\<close>, for a statement that has not ended: the semicolon that
  ends it; a return before the parameter is captured; a return after it; the current
  step, reached only while the statement has no type or no start.
\<close>

lemma AddToken_reach:
  assumes "sEndStatement (statement p) = None"
  shows "AddToken p token nextToken = Inr (p\<lparr>statement := (statement p)\<lparr>sEndStatement := Some [59]\<rparr>\<rparr>)
       \<or> (\<exists>p'. AddToken p token nextToken = Inr p' \<and> kept p p')
       \<or> (\<exists>p'. AddToken p token nextToken = Inr p'
                \<and> kept (p\<lparr>statement := captureParameter token (statement p)\<rparr>) p')
       \<or> (\<exists>p6. AddToken p token nextToken = addStep p6 token
                \<and> kept (p\<lparr>statement := captureParameter token (statement p)\<rparr>) p6
                \<and> \<not> (sType (statement p6) \<noteq> None \<and> 0 \<le> sStart (statement p6)))"
proof (cases "endsOnSemicolon p token")
  case True
  with assms show ?thesis by (simp add: AddToken_def)
next
  case ns: False
  show ?thesis
  proof (cases "(openBlocks p > 0 \<and> ToUpper (tValue token) = str ''END'')
                \<or> tType token = TokenWhitespace")
    case True
    with assms ns have "AddToken p token nextToken = Inr (setPrevToken token (closeBlock p))
        \<or> AddToken p token nextToken = Inr (setPrevToken token p)"
      by (auto simp: AddToken_def)
    with kept_setPrevToken [OF kept_closeBlock [OF kept_refl]] kept_setPrevToken [OF kept_refl]
    show ?thesis by metis
  next
    case False
    show ?thesis
    proof (cases "addBlockOpener p token nextToken")
      case (Return p1)
      with assms ns False have "AddToken p token nextToken = Inr p1" by (auto simp: AddToken_def)
      with kept_addBlockOpener [OF _ kept_refl, of p token nextToken p1] Return show ?thesis
        by auto
    next
      case (Continue p1)
      let ?q = "p\<lparr>statement := captureParameter token (statement p)\<rparr>"
      define p3 where "p3 = p1\<lparr>statement :=
                 captureParameter token (captureTable p1 token nextToken)\<rparr>"
      have k1: "kept p p1"
        using kept_addBlockOpener [OF _ kept_refl, of p token nextToken p1] Continue by simp
      have k3: "kept ?q p3" unfolding p3_def by (rule kept_capture [OF k1])
      from assms ns False Continue
      have r: "AddToken p token nextToken =
               (if sType (statement p3) \<noteq> None \<and> sStart (statement p3) \<ge> 0
                then Inr (setPrevToken token p3)
                else if isSkippedWord p3 (ToUpper (tValue token))
                then Inr (setPrevToken token p3)
                else (case addDefiner p3 token of
                        Return p4 \<Rightarrow> Inr p4
                      | Continue p4 \<Rightarrow>
                          (case addAlgorithm p4 token of
                             Return p5 \<Rightarrow> Inr p5
                           | Continue p5 \<Rightarrow>
                               (case addSQLSecurity p5 token of
                                  Return p6 \<Rightarrow> Inr p6
                                | Continue p6 \<Rightarrow> addStep p6 token))))"
        by (auto simp: AddToken_def p3_def Let_def split: if_splits)
      show ?thesis
      proof (cases "(sType (statement p3) \<noteq> None \<and> sStart (statement p3) \<ge> 0)
                    \<or> isSkippedWord p3 (ToUpper (tValue token))")
        case True
        with r have "AddToken p token nextToken = Inr (setPrevToken token p3)" by auto
        with kept_setPrevToken [OF k3] show ?thesis by blast
      next
        case nskip: False
        then have nt: "\<not> (sType (statement p3) \<noteq> None \<and> 0 \<le> sStart (statement p3))" by simp
        show ?thesis
        proof (cases "addDefiner p3 token")
          case (Return p4)
          with r nskip have "AddToken p token nextToken = Inr p4" by auto
          with kept_addDefiner [OF _ k3, of token p4] Return show ?thesis by auto
        next
          case c4: (Continue p4)
          have k4: "kept ?q p4" using kept_addDefiner [OF _ k3, of token p4] c4 by simp
          show ?thesis
          proof (cases "addAlgorithm p4 token")
            case (Return p5)
            with r nskip c4 have "AddToken p token nextToken = Inr p5" by auto
            with kept_addAlgorithm [OF _ k4, of token p5] Return show ?thesis by auto
          next
            case c5: (Continue p5)
            have k5: "kept ?q p5" using kept_addAlgorithm [OF _ k4, of token p5] c5 by simp
            show ?thesis
            proof (cases "addSQLSecurity p5 token")
              case (Return p6)
              with r nskip c4 c5 have "AddToken p token nextToken = Inr p6" by auto
              with kept_addSQLSecurity [OF _ k5, of token p6] Return show ?thesis by auto
            next
              case c6: (Continue p6)
              have k6: "kept ?q p6" using kept_addSQLSecurity [OF _ k5, of token p6] c6 by simp
              from r nskip c4 c5 c6 have a: "AddToken p token nextToken = addStep p6 token" by auto
              from k6 k3 nt have "\<not> (sType (statement p6) \<noteq> None \<and> 0 \<le> sStart (statement p6))"
                by (simp add: kept_def)
              with a k6 show ?thesis by blast
            qed
          qed
        qed
      qed
    qed
  qed
qed

section \<open>Panics\<close>

text \<open>
  The step index is in range whenever \<^verbatim>\<open>AddToken\<close> reaches the steps, so that the step
  either panics with one of its two messages or runs, and leaves the index in range.
\<close>

lemma stepsInRange_kept: "kept p q \<Longrightarrow> stepsInRange p \<Longrightarrow> stepsInRange q"
  by (simp add: kept_def stepsInRange_def)

lemma stepsInRange_capture:
  "stepsInRange p \<Longrightarrow> stepsInRange (p\<lparr>statement := captureParameter token (statement p)\<rparr>)"
  by (simp add: stepsInRange_def captureParameter_def)

lemma stepsInRange_end:
  "stepsInRange p \<Longrightarrow> stepsInRange (p\<lparr>statement := (statement p)\<lparr>sEndStatement := x\<rparr>\<rparr>)"
  by (simp add: stepsInRange_def)

lemma stepsInRange_index:
  assumes "stepsInRange p"
    and "\<not> (sType (statement p) \<noteq> None \<and> 0 \<le> sStart (statement p))"
  shows "0 \<le> currentStepIndex p" and "currentStepIndex p < int (length (steps p))"
proof -
  from assms(1) show "0 \<le> currentStepIndex p" by (simp add: stepsInRange_def)
  show "currentStepIndex p < int (length (steps p))"
  proof (rule ccontr)
    assume "\<not> currentStepIndex p < int (length (steps p))"
    with assms(1) have e: "currentStepIndex p = int (length (steps p))"
      by (simp add: stepsInRange_def)
    with assms(1) have "1 \<le> currentStepIndex p"
      by (cases "steps p") (simp_all add: stepsInRange_def)
    with assms(1) e have "sType (statement p) \<noteq> None \<and> 0 \<le> sStart (statement p)"
      by (simp add: stepsInRange_def)
    with assms(2) show False by simp
  qed
qed

lemma addStep_outcome:
  assumes "stepsInRange p"
    and "\<not> (sType (statement p) \<noteq> None \<and> 0 \<le> sStart (statement p))"
    and "0 \<le> tStart token"
  shows "(\<exists>v i. addStep p token = Inl (Errorf (requireBeforeMessage v token i)))
       \<or> (IsStrict (options p)
           \<and> (\<exists>step i. addStep p token = Inl (Errorf (invalidTokenMessage step token i))))
       \<or> (\<exists>p'. addStep p token = Inr p' \<and> stepsInRange p' \<and> options p' = options p)"
proof -
  let ?i = "currentStepIndex p"
  let ?step = "steps p ! nat ?i"
  from stepsInRange_index [OF assms(1,2)]
  have i0: "0 \<le> ?i" and il: "?i < int (length (steps p))" .
  then have mem: "?step \<in> set (steps p)" by simp
  with assms(1) have pre: "\<not> PreCanGoToNext ?step token" and post: "PostCanGoToNext ?step token"
    by (simp_all add: stepsInRange_def)
  from i0 il pre have c: "currentStepOf p token = Inr (?step, p)"
    by (simp add: currentStepOf_def stepAt_def)
  show ?thesis
  proof (cases "requireBeforeFails p ?step")
    case True
    with c show ?thesis by (auto simp: addStep_def)
  next
    case nr: False
    show ?thesis
    proof (cases "\<not> isValidToken ?step token \<and> IsStrict (options p)")
      case True
      with c nr show ?thesis by (auto simp: addStep_def)
    next
      case False
      define stmt where "stmt = Add ?step token (statement p)"
      define p' where "p' = setPrevToken token
          (p\<lparr>statement := stmt\<lparr>sExecutionType := Some (executionTypeOf stmt)\<rparr>,
             currentStepIndex := ?i + 1\<rparr>)"
      from c nr False post have a: "addStep p token = Inr p'"
        by (auto simp: addStep_def Let_def p'_def stmt_def)
      have st: "0 \<le> sStart stmt"
      proof (cases "?i = 0")
        case True
        then have "?step = hd (steps p)"
          using il by (cases "steps p") simp_all
        with assms(1,3) show ?thesis by (simp add: stmt_def stepsInRange_def)
      next
        case False
        with i0 have "1 \<le> ?i" by simp
        with assms(1) have "0 \<le> sStart (statement p)" by (simp add: stepsInRange_def)
        with assms(1) mem show ?thesis unfolding stmt_def stepsInRange_def by blast
      qed
      have keepT: "sType (statement p) \<noteq> None \<Longrightarrow> sType stmt \<noteq> None"
        using assms(1) mem unfolding stmt_def stepsInRange_def by blast
      have ty: "sType stmt \<noteq> None" if "?i + 1 = int (length (steps p))"
      proof -
        from that i0 have "nat ?i = length (steps p) - 1" by simp
        moreover from assms(1) have "steps p \<noteq> []" by (simp add: stepsInRange_def)
        ultimately have l: "?step = last (steps p)" by (simp add: last_conv_nth)
        from assms(1) have "sType (statement p) \<noteq> None
            \<or> (\<forall>token stmt. sType (Add (last (steps p)) token stmt) \<noteq> None)"
          by (simp add: stepsInRange_def)
        with keepT l show ?thesis by (auto simp: stmt_def)
      qed
      have dj: "sType stmt \<noteq> None
            \<or> (\<forall>token stmt. sType (Add (last (steps p)) token stmt) \<noteq> None)"
        using assms(1) keepT by (auto simp: stepsInRange_def)
      have "stepsInRange p'"
        using assms(1) i0 il st ty dj
        by (simp add: stepsInRange_def p'_def setPrevToken_def)
      with a show ?thesis by (simp add: p'_def setPrevToken_def)
    qed
  qed
qed

lemma AddToken_outcome:
  assumes "stepsInRange p" and "sEndStatement (statement p) = None" and "0 \<le> tStart token"
  shows "(\<exists>v i. AddToken p token nextToken = Inl (Errorf (requireBeforeMessage v token i)))
       \<or> (IsStrict (options p)
           \<and> (\<exists>step i. AddToken p token nextToken = Inl (Errorf (invalidTokenMessage step token i))))
       \<or> (\<exists>p'. AddToken p token nextToken = Inr p' \<and> stepsInRange p' \<and> options p' = options p)"
proof -
  let ?q = "p\<lparr>statement := captureParameter token (statement p)\<rparr>"
  have sq: "stepsInRange ?q" by (rule stepsInRange_capture [OF assms(1)])
  from AddToken_reach [OF assms(2), of token nextToken]
  consider (semi) "AddToken p token nextToken
                     = Inr (p\<lparr>statement := (statement p)\<lparr>sEndStatement := Some [59]\<rparr>\<rparr>)"
    | (early) p' where "AddToken p token nextToken = Inr p'" "kept p p'"
    | (late) p' where "AddToken p token nextToken = Inr p'" "kept ?q p'"
    | (step) p6 where "AddToken p token nextToken = addStep p6 token" "kept ?q p6"
        "\<not> (sType (statement p6) \<noteq> None \<and> 0 \<le> sStart (statement p6))"
    by blast
  then show ?thesis
  proof cases
    case semi
    with stepsInRange_end [OF assms(1)] show ?thesis by simp
  next
    case early
    with stepsInRange_kept [OF early(2) assms(1)] show ?thesis by (simp add: kept_def)
  next
    case late
    with stepsInRange_kept [OF late(2) sq] show ?thesis by (simp add: kept_def)
  next
    case step
    have o: "options p6 = options p" using step(2) by (simp add: kept_def)
    from addStep_outcome [OF stepsInRange_kept [OF step(2) sq] step(3) assms(3)]
    show ?thesis unfolding step(1) o .
  qed
qed

lemma createStatementParserByToken_outcome:
  "createStatementParserByToken token nextToken opts = Inl e \<Longrightarrow>
   IsStrict opts \<and> e = Errorf (str ''Invalid statement parser '' @ [34] @ tValue token @ [34])"
  by (auto simp: createStatementParserByToken_def Let_def split: if_splits)

lemma createStatementParserByToken_inRange:
  assumes "createStatementParserByToken token nextToken opts = Inr p"
  shows "stepsInRange p \<and> sEndStatement (statement p) = None \<and> options p = opts
         \<and> currentStepIndex p = 0"
proof -
  have "p \<in> {createSelectStatementParser opts, createCreateStatementParser opts,
              createShowStatementParser opts, createDropStatementParser opts,
              createAlterStatementParser opts, createInsertStatementParser opts,
              createUpdateStatementParser opts, createDeleteStatementParser opts,
              createTruncateStatementParser opts, createBlockStatementParser opts,
              createUnknownStatementParser opts}"
    using assms by (auto simp: createStatementParserByToken_def Let_def split: if_splits)
  then show ?thesis
    by (auto simp: stepsInRange_def stateMachineStatementParser_def firstStep_def
          secondStep_def createSelectStatementParser_def createCreateStatementParser_def
          createShowStatementParser_def createDropStatementParser_def
          createAlterStatementParser_def createInsertStatementParser_def
          createUpdateStatementParser_def createDeleteStatementParser_def
          createTruncateStatementParser_def createBlockStatementParser_def
          createUnknownStatementParser_def createInitialStatement_def
          setStart_def setTypeStart_def setTypePrefixed_def)
qed

lemma startCteStatement_inRange:
  "stepsInRange p \<Longrightarrow> currentStepIndex p = 0 \<Longrightarrow> stepsInRange (startCteStatement c p)"
  by (cases "steps p") (simp_all add: stepsInRange_def startCteStatement_def)

text \<open>
  Every turn of the main loop either panics with one of the values of \<open>parsePanic\<close> or
  keeps the invariant: \<^verbatim>\<open>AddToken\<close> is never called on a statement that has ended, and
  never indexes the steps out of range.
\<close>

lemma Parse_outside_outcome:
  assumes "- 1 \<le> Position (prevState v)" and "- 1 \<le> Position tokenState"
    and "statementParser v = None"
  shows "case Parse_outside opts token nextToken tokenState v of
           Inl e \<Rightarrow> parsePanic opts e
         | Inr v' \<Rightarrow> loopInvariant opts (captureCteParameter token v')"
proof (cases "createStatementParserByToken token nextToken opts")
  case (Inl e)
  from createStatementParserByToken_outcome [OF Inl]
  have "parsePanic opts e" by (auto simp: parsePanic_def)
  with Inl assms show ?thesis
    by (auto simp: Parse_outside_def Let_def loopInvariant_def captureCteParameter_def
          appendToken_def split: sum.splits)
next
  case (Inr p)
  from createStatementParserByToken_inRange [OF Inr]
  have p: "stepsInRange p" "sEndStatement (statement p) = None" "options p = opts"
    "currentStepIndex p = 0" by simp_all
  have c: "stepsInRange (startCteStatement c p)"
    "sEndStatement (statement (startCteStatement c p)) = None"
    "options (startCteStatement c p) = opts" for c
    using startCteStatement_inRange [OF p(1,4)] p(2,3) by (simp_all add: startCteStatement_def)
  from Inr assms p c show ?thesis
    by (auto simp: Parse_outside_def Let_def loopInvariant_def captureCteParameter_def
          appendToken_def split: sum.splits)
qed

lemma Parse_feed_outcome:
  assumes "stepsInRange p" and "sEndStatement (statement p) = None" and "options p = opts"
    and "- 1 \<le> Position tokenState" and "0 \<le> tStart token"
  shows "case Parse_feed p token nextToken tokenState v of
           Inl e \<Rightarrow> parsePanic opts e
         | Inr v' \<Rightarrow> loopInvariant opts v'"
proof -
  from AddToken_outcome [OF assms(1,2,5), of nextToken]
  consider (rb) w i where "AddToken p token nextToken = Inl (Errorf (requireBeforeMessage w token i))"
    | (iv) step i where "IsStrict (options p)"
        "AddToken p token nextToken = Inl (Errorf (invalidTokenMessage step token i))"
    | (ok) p' where "AddToken p token nextToken = Inr p'" "stepsInRange p'" "options p' = options p"
    by blast
  then show ?thesis
  proof cases
    case rb
    have "parsePanic opts (Errorf (requireBeforeMessage w token i))"
      unfolding parsePanic_def by blast
    with rb show ?thesis by (simp add: Parse_feed_def)
  next
    case iv
    have "IsStrict opts \<Longrightarrow> parsePanic opts (Errorf (invalidTokenMessage step token i))"
      unfolding parsePanic_def by blast
    with iv assms(3) show ?thesis by (simp add: Parse_feed_def)
  next
    case ok
    with assms(3,4) show ?thesis
      by (auto simp: Parse_feed_def loopInvariant_def appendToken_def)
  qed
qed

lemma Parse_step_outcome:
  assumes "loopInvariant opts v"
    and "Position (prevState v) < int (length (Input (prevState v))) - 1"
  shows "case Parse_step opts v of
           Inl e \<Rightarrow> parsePanic opts e
         | Inr v' \<Rightarrow> loopInvariant opts v'"
proof (cases "ScanToken (initState [] (Some (prevState v))) (poDialect opts) (poParamTypes opts)")
  case (Inl e)
  from ScanToken_error [OF Inl] Inl show ?thesis
    by (simp add: Parse_step_def parsePanic_def)
next
  case (Inr x)
  obtain token tokenState where x: "x = (token, tokenState)" by (cases x)
  note sc = Inr [unfolded x]
  from assms(1) have pos: "- 1 \<le> Position (prevState v)" by (simp add: loopInvariant_def)
  from ScanToken_progress [OF sc] assms(2) pos have pt: "- 1 \<le> Position tokenState" by simp
  from ScanToken_tStart(1) [OF sc] pos have ts: "0 \<le> tStart token" by (simp add: initState_def)
  show ?thesis
  proof (cases "nextNonWhitespaceToken tokenState (poDialect opts) (poParamTypes opts)")
    case (Inl e)
    from nextNonWhitespaceToken_error [OF Inl] Inl sc show ?thesis
      by (simp add: Parse_step_def parsePanic_def)
  next
    case nx: (Inr nextToken)
    show ?thesis
    proof (cases "statementParser v")
      case None
      from Parse_outside_outcome [OF pos pt None, of opts token nextToken] sc nx None
      show ?thesis by (simp add: Parse_step_def split: sum.splits)
    next
      case (Some p)
      with assms(1) have "stepsInRange p" "sEndStatement (statement p) = None" "options p = opts"
        by (simp_all add: loopInvariant_def)
      from Parse_feed_outcome [OF this pt ts, of nextToken v] sc nx Some
      show ?thesis by (simp add: Parse_step_def)
    qed
  qed
qed

lemma Parse_loop_outcome:
  "loopInvariant opts v \<Longrightarrow> Parse_loop opts v = Inl e \<Longrightarrow> parsePanic opts e"
proof (induction opts v rule: Parse_loop.induct)
  case (1 opts v)
  show ?case
  proof (cases "Position (prevState v) < int (length (Input (prevState v))) - 1")
    case False
    with "1.prems"(2) show ?thesis by (subst (asm) Parse_loop.simps) simp
  next
    case True
    show ?thesis
    proof (cases "Parse_step opts v")
      case (Inl e')
      with True "1.prems"(2) have "e' = e" by (subst (asm) Parse_loop.simps) simp
      with Parse_step_outcome [OF "1.prems"(1) True] Inl show ?thesis by simp
    next
      case (Inr v')
      with True "1.prems"(2) have l: "Parse_loop opts v' = Inl e"
        by (subst (asm) Parse_loop.simps) simp
      from Parse_step_outcome [OF "1.prems"(1) True] Inr have "loopInvariant opts v'" by simp
      from "1.IH" [OF True Inr this l] show ?thesis .
    qed
  qed
qed

lemma Parse_outcome:
  assumes "Parse input isStrict dialect identifyTables paramTypes = Inl e"
  shows "parsePanic \<lparr>IsStrict = isStrict, poDialect = dialect, poIdentifyTables = identifyTables,
                      poParamTypes = paramTypes\<rparr> e"
proof -
  let ?opts = "\<lparr>IsStrict = isStrict, poDialect = dialect, poIdentifyTables = identifyTables,
                 poParamTypes = paramTypes\<rparr>"
  let ?v = "\<lparr>prevState = initState input None, statementParser = None,
             cte = \<lparr>isCte = False, asSeen = False, statementEnd = False, parens = 0,
                    cstate = initState input None, params = []\<rparr>,
             topLevelResult =
               \<lparr>prType = str ''QUERY'', prStart = 0, prEnd = int (length input) - 1,
                Body = [], Tokens = []\<rparr>\<rparr>"
  have i: "loopInvariant ?opts ?v" by (simp add: loopInvariant_def initState_def)
  from assms have "Parse_loop ?opts ?v = Inl e"
    by (simp add: Parse_def Let_def split: sum.splits)
  from Parse_loop_outcome [OF i this] show ?thesis .
qed

lemma identifyResults_error:
  "identifyResults query sortParams body = Inl e \<Longrightarrow> e = RuntimeErr"
  by (induction body) (auto simp: identifyResult_def Let_def split: sum.splits if_splits)

text \<open>
  C9. \<^verbatim>\<open>Identify\<close> returns for every query and every options value (every loop of the
  lexer and of \<^verbatim>\<open>Parse\<close> ends), and what it returns is an error with nil results or
  results with a nil error. With a dialect that is not recognised it returns the
  invalid-dialect error. Otherwise, if \<^verbatim>\<open>Parse\<close> panics, \<^verbatim>\<open>Identify\<close> returns nil results
  and the panic's value as the error, and the value is one of four: the panic of
  \<^verbatim>\<open>regexp.MustCompile\<close>, when a custom parameter pattern does not compile; in strict mode
  the classification failure \<^verbatim>\<open>Invalid statement parser "..."\<close>; in strict mode the step's
  refusal of a token it does not accept; in any mode the step's refusal of a token that
  does not follow one of the required types. The two internal checks never fail:
  \<^verbatim>\<open>This statement has already got to the end.\<close> is never raised, and the steps are never
  indexed out of range. If \<^verbatim>\<open>Parse\<close> returns and the loop that builds the results panics,
  which it does only by slicing the query out of range, \<^verbatim>\<open>Identify\<close> returns nil results and
  that error. Otherwise it returns the results and a nil error.
\<close>

theorem C9_panics_recovered:
  "(\<not> contains DIALECTS (dialectOf opts) \<longrightarrow> Identify query opts = (None, Some unknownDialectError))
   \<and> (contains DIALECTS (dialectOf opts) \<longrightarrow>
       (case Parse query (isStrictOf opts) (dialectOf opts) (identifyTablesOf opts)
               (paramTypesOf opts) of
          Inl e \<Rightarrow>
            Identify query opts = (None, Some e)
            \<and> ((e = RegexpErr \<and> Invalid \<in> set (Custom (paramTypesOf opts)))
               \<or> (isStrictOf opts
                   \<and> (\<exists>v. e = Errorf (str ''Invalid statement parser '' @ [34] @ v @ [34])))
               \<or> (isStrictOf opts
                   \<and> (\<exists>step token i. e = Errorf (invalidTokenMessage step token i)))
               \<or> (\<exists>v token i. e = Errorf (requireBeforeMessage v token i)))
        | Inr result \<Rightarrow>
            (case identifyResults query (sortParamsOf opts) (Body result) of
               Inl e \<Rightarrow> Identify query opts = (None, Some e) \<and> e = RuntimeErr
             | Inr rs \<Rightarrow> Identify query opts = (Some rs, None))))"
proof (cases "Parse query (isStrictOf opts) (dialectOf opts) (identifyTablesOf opts)
               (paramTypesOf opts)")
  case (Inl e)
  from Parse_outcome [OF Inl] Inl show ?thesis
    by (simp add: Identify_def parsePanic_def)
next
  case (Inr result)
  then show ?thesis
    by (auto simp: Identify_def split: sum.splits dest: identifyResults_error)
qed

text \<open>
  Each kind of panic occurs. In strict mode, the default, the query \<^verbatim>\<open>FOO\<close> starts no
  statement, and in \<^verbatim>\<open>CREATE FOO\<close> the second step does not accept \<^verbatim>\<open>FOO\<close>. Out of strict
  mode, in \<^verbatim>\<open>CREATE[x]\<close> the bracket does not follow a whitespace token, and the query
  \<^verbatim>\<open>UNIQUE\<close> is a statement whose start is never set, so that the slice \<^verbatim>\<open>query[-1:6]\<close>
  panics.
\<close>

theorem C9_panics_recovered_witness:
  "Identify (str ''FOO'')
       \<lparr>optStrict = None, optDialect = None, optIdentifyTables = None, optParamTypes = None\<rparr>
     = (None, Some (Errorf (str ''Invalid statement parser '' @ [34] @ str ''FOO'' @ [34])))
   \<and> Identify (str ''CREATE FOO'')
       \<lparr>optStrict = None, optDialect = None, optIdentifyTables = None, optParamTypes = None\<rparr>
     = (None, Some (Errorf (invalidTokenMessage
          (secondStep (map acceptKeyword [''DATABASE'', ''SCHEMA'', ''PROCEDURE'', ''TABLE'',
             ''VIEW'', ''TRIGGER'', ''FUNCTION'', ''INDEX'']) (setTypePrefixed ''CREATE_''))
          \<lparr>tType = TokenUnknown, tValue = str ''FOO'', tStart = 7, tEnd = 9\<rparr> 1)))
   \<and> Identify (str ''CREATE[x]'')
       \<lparr>optStrict = Some False, optDialect = None, optIdentifyTables = None,
        optParamTypes = None\<rparr>
     = (None, Some (Errorf (str ''Expected any of these tokens whitespace before '' @ [34]
          @ [91] @ [34] @ str '' (currentStep=1).'')))
   \<and> Identify (str ''UNIQUE'')
       \<lparr>optStrict = Some False, optDialect = None, optIdentifyTables = None,
        optParamTypes = None\<rparr>
     = (None, Some RuntimeErr)"
proof -
  let ?o = "\<lparr>optStrict = None, optDialect = None, optIdentifyTables = None, optParamTypes = None\<rparr>"
  let ?n = "\<lparr>optStrict = Some False, optDialect = None, optIdentifyTables = None,
             optParamTypes = None\<rparr>"
  let ?e1 = "Errorf (str ''Invalid statement parser '' @ [34] @ str ''FOO'' @ [34])"
  let ?e2 = "Errorf (invalidTokenMessage
          (secondStep (map acceptKeyword [''DATABASE'', ''SCHEMA'', ''PROCEDURE'', ''TABLE'',
             ''VIEW'', ''TRIGGER'', ''FUNCTION'', ''INDEX'']) (setTypePrefixed ''CREATE_''))
          \<lparr>tType = TokenUnknown, tValue = str ''FOO'', tStart = 7, tEnd = 9\<rparr> 1)"
  let ?e3 = "Errorf (str ''Expected any of these tokens whitespace before '' @ [34]
          @ [91] @ [34] @ str '' (currentStep=1).'')"
  have p1: "Parse (str ''FOO'') True DialectGeneric False (DefaultParamTypesFor DialectGeneric)
             = Inl ?e1"
    by code_simp
  have p2: "Parse (str ''CREATE FOO'') True DialectGeneric False
              (DefaultParamTypesFor DialectGeneric) = Inl ?e2"
    by code_simp
  have p3: "Parse (str ''CREATE[x]'') False DialectGeneric False
              (DefaultParamTypesFor DialectGeneric) = Inl ?e3"
    by code_simp
  have u: "map_sum id (\<lambda>r. identifyResults (str ''UNIQUE'') False (Body r))
       (Parse (str ''UNIQUE'') False DialectGeneric False (DefaultParamTypesFor DialectGeneric))
     = Inr (Inl RuntimeErr)"
    by code_simp
  then obtain result where
    r: "Parse (str ''UNIQUE'') False DialectGeneric False (DefaultParamTypesFor DialectGeneric)
          = Inr result"
    and i: "identifyResults (str ''UNIQUE'') False (Body result) = Inl RuntimeErr"
    by (cases "Parse (str ''UNIQUE'') False DialectGeneric False
                 (DefaultParamTypesFor DialectGeneric)") auto
  have d: "contains DIALECTS DialectGeneric" by code_simp
  have s: "\<not> sortParamsOf ?n" by code_simp
  have "Identify (str ''FOO'') ?o = (None, Some ?e1)"
    using C9_panics_recovered [of ?o "str ''FOO''"] p1 d
    by (simp add: isStrictOf_def dialectOf_def identifyTablesOf_def paramTypesOf_def)
  moreover have "Identify (str ''CREATE FOO'') ?o = (None, Some ?e2)"
    using C9_panics_recovered [of ?o "str ''CREATE FOO''"] p2 d
    by (simp add: isStrictOf_def dialectOf_def identifyTablesOf_def paramTypesOf_def)
  moreover have "Identify (str ''CREATE[x]'') ?n = (None, Some ?e3)"
    using C9_panics_recovered [of ?n "str ''CREATE[x]''"] p3 d
    by (simp add: isStrictOf_def dialectOf_def identifyTablesOf_def paramTypesOf_def)
  moreover have "Identify (str ''UNIQUE'') ?n = (None, Some RuntimeErr)"
    using C9_panics_recovered [of ?n "str ''UNIQUE''"] r i d s
    by (simp add: isStrictOf_def dialectOf_def identifyTablesOf_def paramTypesOf_def)
  ultimately show ?thesis by simp
qed

section \<open>A colon beside a colon\<close>

text \<open>
  Whatever the dialect and the parameter configuration, the token the lexer scans from a
  colon beside a colon is that one colon, of type unknown: \<^verbatim>\<open>isParameter\<close> refuses it
  before it looks at the configuration.
\<close>

lemma parameterTexts_append:
  "parameterTexts (ts @ [t]) =
     parameterTexts ts \<union> (if tType t = TokenParameter then {tValue t} else {})"
  by (auto simp: parameterTexts_def)

lemma ScanToken_colon_beside_colon:
  assumes "colonBesideColon (Input prev) (Position prev + 1)"
  shows "ScanToken (initState inp0 (Some prev)) dialect paramTypes
         = Inr (colonToken (Position prev + 1),
                \<lparr>Start = Position prev + 1, End = int (length (Input prev)) - 1,
                 Position = Position prev + 1, Input = Input prev\<rparr>)"
proof -
  let ?inp = "Input prev"
  let ?i = "Position prev + 1"
  let ?s0 = "initState inp0 (Some prev)"
  let ?s1 = "\<lparr>Start = ?i, End = int (length ?inp) - 1, Position = ?i, Input = ?inp\<rparr>"
  from assms have i0: "0 \<le> ?i" and il: "?i < int (length ?inp)" and c: "?inp ! nat ?i = 58"
    and nb: "(0 < ?i \<and> ?inp ! nat (?i - 1) = 58)
             \<or> (?i + 1 < int (length ?inp) \<and> ?inp ! nat (?i + 1) = 58)"
    by (simp_all add: colonBesideColon_def)
  have r: "read ?s0 0 = (58, ?s1)"
    using il c by (simp add: read_def initState_def)
  have ci: "isCommentInline 58 ?s1 = (False, ?s1)" by (simp add: isCommentInline_def)
  have cb: "isCommentBlock 58 ?s1 = (False, ?s1)" by (simp add: isCommentBlock_def)
  have st: "\<not> isString 58 dialect" by (simp add: isString_def)
  from nb have "peekBack ?s1 = 58 \<or> peek ?s1 = 58"
  proof
    assume "0 < ?i \<and> ?inp ! nat (?i - 1) = 58"
    then have "peekBack ?s1 = 58" by (simp add: peekBack_def)
    then show ?thesis ..
  next
    assume "?i + 1 < int (length ?inp) \<and> ?inp ! nat (?i + 1) = 58"
    then have "peek ?s1 = 58" by (simp add: peek_def)
    then show ?thesis ..
  qed
  then have ip: "isParameter 58 ?s1 paramTypes = Inr False"
    by (simp add: isParameter_def eof_def)
  from i0 il have "nat ?i < length ?inp" by simp
  then have d: "drop (nat ?i) ?inp = ?inp ! nat ?i # drop (Suc (nat ?i)) ?inp"
    by (simp add: Cons_nth_drop_Suc)
  have cv: "currentValue ?s1 = [58]"
    using d c i0 by (simp add: currentValue_def slice_def)
  have dq: "\<not> isDollarQuotedString ?s1"
    using d c by (simp add: isDollarQuotedString_def dollarQuotedStringOpenerRegex_def)
  have qi: "\<not> isQuotedIdentifier 58 dialect" by (simp add: isQuotedIdentifier_def)
  have le: "\<not> isLetter 58" by (simp add: isLetter_def)
  have ws: "\<not> isWhitespace 58" by (simp add: isWhitespace_def)
  have ic: "scanIndividualCharacter ?s1 = None"
    by (simp add: scanIndividualCharacter_def resolveIndividualTokenType_def individuals_def cv)
  have sk: "skipChar ?s1 = colonToken ?i"
    by (simp add: skipChar_def cv colonToken_def)
  show ?thesis
    by (simp add: ScanToken_def r ci cb st ip dq qi le ws ic sk)
qed

lemma ScanToken_at_colon:
  assumes "ScanToken (initState inp0 (Some prev)) d pt = Inr (tok, s')"
    and "colonBesideColon (Input prev) (tStart tok)"
  shows "tok = colonToken (tStart tok)"
proof -
  have ts: "tStart tok = Position prev + 1"
    using ScanToken_tStart(1) [OF assms(1)] by (simp add: initState_def)
  from ScanToken_colon_beside_colon [OF assms(2) [unfolded ts], of inp0 d pt] assms(1)
  show ?thesis by (simp add: colonToken_def)
qed

lemma addStep_parameters:
  assumes "addStep p token = Inr p'" and "stepsKeepParameters p"
  shows "sParameters (statement p') = sParameters (statement p) \<and> steps p' = steps p"
proof -
  from assms(1) obtain step q where c: "currentStepOf p token = Inr (step, q)"
    by (auto simp: addStep_def split: sum.splits)
  from currentStepOf_step [OF c] assms(2)
  have k: "sParameters (Add step token (statement q)) = sParameters (statement p)"
    and q: "steps q = steps p"
    by (auto simp: stepsKeepParameters_def)
  from assms(1) c k q show ?thesis
    by (auto simp: addStep_def Let_def split: if_splits)
qed

lemma AddToken_parameters:
  assumes "AddToken p token nextToken = Inr p'" and "stepsKeepParameters p"
  shows "stepsKeepParameters p'
         \<and> set (sParameters (statement p'))
             \<subseteq> set (sParameters (statement p))
                \<union> (if tType token = TokenParameter then {tValue token} else {})"
proof -
  let ?q = "p\<lparr>statement := captureParameter token (statement p)\<rparr>"
  from assms(1) have n: "sEndStatement (statement p) = None"
    by (auto simp: AddToken_def split: if_splits)
  have cq: "set (sParameters (statement ?q))
             \<subseteq> set (sParameters (statement p))
                \<union> (if tType token = TokenParameter then {tValue token} else {})"
    by (auto simp: captureParameter_def)
  from AddToken_reach [OF n, of token nextToken] assms(1)
  consider (semi) "p' = p\<lparr>statement := (statement p)\<lparr>sEndStatement := Some [59]\<rparr>\<rparr>"
    | (early) "kept p p'"
    | (late) "kept ?q p'"
    | (step) p6 where "addStep p6 token = Inr p'" "kept ?q p6"
    by auto
  then show ?thesis
  proof cases
    case semi
    with assms(2) show ?thesis by (simp add: stepsKeepParameters_def)
  next
    case early
    with assms(2) show ?thesis by (simp add: stepsKeepParameters_def kept_def)
  next
    case late
    with assms(2) cq show ?thesis by (simp add: stepsKeepParameters_def kept_def)
  next
    case step
    from step(2) assms(2) have k6: "stepsKeepParameters p6"
      by (simp add: stepsKeepParameters_def kept_def)
    from addStep_parameters [OF step(1) k6] step(2) assms(2) cq show ?thesis
      by (simp add: stepsKeepParameters_def kept_def)
  qed
qed

lemma createStatementParserByToken_parameters:
  assumes "createStatementParserByToken token nextToken opts = Inr p"
  shows "stepsKeepParameters p \<and> sParameters (statement p) = []"
proof -
  have "p \<in> {createSelectStatementParser opts, createCreateStatementParser opts,
              createShowStatementParser opts, createDropStatementParser opts,
              createAlterStatementParser opts, createInsertStatementParser opts,
              createUpdateStatementParser opts, createDeleteStatementParser opts,
              createTruncateStatementParser opts, createBlockStatementParser opts,
              createUnknownStatementParser opts}"
    using assms by (auto simp: createStatementParserByToken_def Let_def split: if_splits)
  then show ?thesis
    by (auto simp: stepsKeepParameters_def stateMachineStatementParser_def firstStep_def
          secondStep_def createSelectStatementParser_def createCreateStatementParser_def
          createShowStatementParser_def createDropStatementParser_def
          createAlterStatementParser_def createInsertStatementParser_def
          createUpdateStatementParser_def createDeleteStatementParser_def
          createTruncateStatementParser_def createBlockStatementParser_def
          createUnknownStatementParser_def createInitialStatement_def
          setStart_def setTypeStart_def setTypePrefixed_def)
qed

lemma Parse_feed_tokens:
  assumes "Parse_feed p token nextToken tokenState v = Inr v'"
    and "tokensInvariant inp v" and "statementParser v = Some p"
    and "Input tokenState = inp"
    and "colonBesideColon inp (tStart token) \<longrightarrow> token = colonToken (tStart token)"
  shows "tokensInvariant inp v'"
proof -
  from assms(1) obtain p' where a: "AddToken p token nextToken = Inr p'"
    by (auto simp: Parse_feed_def split: sum.splits)
  from assms(2,3) have k: "stepsKeepParameters p"
    and s: "set (sParameters (statement p)) \<subseteq> parameterTexts (Tokens (topLevelResult v))"
    by (simp_all add: tokensInvariant_def)
  from AddToken_parameters [OF a k] s
  have k': "stepsKeepParameters p'"
    and s': "set (sParameters (statement p'))
               \<subseteq> parameterTexts (Tokens (topLevelResult v) @ [token])"
    unfolding parameterTexts_append by auto
  have m: "parameterTexts (Tokens (topLevelResult v))
             \<subseteq> parameterTexts (Tokens (topLevelResult v) @ [token])"
    unfolding parameterTexts_append by auto
  from assms(2) have
    i1: "\<forall>t \<in> set (Tokens (topLevelResult v)).
           colonBesideColon inp (tStart t) \<longrightarrow> t = colonToken (tStart t)"
    and i2: "set (params (cte v)) \<subseteq> parameterTexts (Tokens (topLevelResult v))"
    and i3: "\<forall>s \<in> set (Body (topLevelResult v)).
           set (cParameters s) \<subseteq> parameterTexts (Tokens (topLevelResult v))"
    by (simp_all add: tokensInvariant_def)
  from i2 m have j2: "set (params (cte v)) \<subseteq> parameterTexts (Tokens (topLevelResult v) @ [token])"
    by blast
  from i3 m have j3: "\<forall>s \<in> set (Body (topLevelResult v)).
           set (cParameters s) \<subseteq> parameterTexts (Tokens (topLevelResult v) @ [token])"
    by blast
  from assms(1) a have "v' = (appendToken token tokenState v)
                      \<lparr>statementParser := None,
                       topLevelResult :=
                         (topLevelResult (appendToken token tokenState v))
                           \<lparr>Body := Body (topLevelResult v)
                                     @ [ToConcrete ((statement p')\<lparr>sEnd := tEnd token\<rparr>)]\<rparr>\<rparr>
      \<or> v' = (appendToken token tokenState v)\<lparr>statementParser := Some p'\<rparr>"
    by (auto simp: Parse_feed_def split: if_splits)
  then show ?thesis
  proof
    assume "v' = (appendToken token tokenState v)\<lparr>statementParser := Some p'\<rparr>"
    with assms(4,5) i1 j2 j3 k' s' show ?thesis
      by (simp add: tokensInvariant_def appendToken_def)
  next
    assume "v' = (appendToken token tokenState v)
                      \<lparr>statementParser := None,
                       topLevelResult :=
                         (topLevelResult (appendToken token tokenState v))
                           \<lparr>Body := Body (topLevelResult v)
                                     @ [ToConcrete ((statement p')\<lparr>sEnd := tEnd token\<rparr>)]\<rparr>\<rparr>"
    with assms(4,5) i1 j2 j3 k' s' show ?thesis
      by (simp add: tokensInvariant_def appendToken_def ToConcrete_def)
  qed
qed

lemma params_cteTrack: "params (cteTrack c token) = params c"
  by (simp add: cteTrack_def)

lemma Parse_outside_shape:
  assumes "Parse_outside opts token nextToken tokenState v = Inr w"
  shows "(Tokens (topLevelResult w) = Tokens (topLevelResult v) @ [token]
          \<and> prevState w = tokenState \<and> statementParser w = statementParser v
          \<and> params (cte w) = params (cte v)
          \<and> (Body (topLevelResult w) = Body (topLevelResult v)
              \<or> Body (topLevelResult w)
                  = Body (topLevelResult v) @ [cteUnknownStatement (cte v) token]))
       \<or> (topLevelResult w = topLevelResult v \<and> prevState w = prevState v \<and> \<not> isCte (cte w)
           \<and> set (params (cte w)) \<subseteq> set (params (cte v))
           \<and> (\<exists>p. createStatementParserByToken token nextToken opts = Inr p
                  \<and> (statementParser w = Some p
                      \<or> statementParser w = Some (startCteStatement (cte v) p))))"
  using assms
  by (auto simp: Parse_outside_def Let_def appendToken_def params_cteTrack
           split: if_splits sum.splits)

lemma Parse_outside_tokens:
  assumes "Parse_outside opts token nextToken tokenState v = Inr w"
    and "tokensInvariant inp v" and "statementParser v = None"
    and "Input tokenState = inp"
    and "colonBesideColon inp (tStart token) \<longrightarrow> token = colonToken (tStart token)"
  shows "tokensInvariant inp (captureCteParameter token w)"
proof -
  let ?T = "Tokens (topLevelResult v)"
  have m: "parameterTexts ?T \<subseteq> parameterTexts (?T @ [token])"
    unfolding parameterTexts_append by auto
  from assms(2) have
    i0: "Input (prevState v) = inp"
    and i1: "\<forall>t \<in> set ?T. colonBesideColon inp (tStart t) \<longrightarrow> t = colonToken (tStart t)"
    and i2: "set (params (cte v)) \<subseteq> parameterTexts ?T"
    and i3: "\<forall>s \<in> set (Body (topLevelResult v)). set (cParameters s) \<subseteq> parameterTexts ?T"
    by (simp_all add: tokensInvariant_def)
  from i2 m have j2: "set (params (cte v)) \<subseteq> parameterTexts (?T @ [token])" by blast
  from i3 m have j3: "\<forall>s \<in> set (Body (topLevelResult v)).
           set (cParameters s) \<subseteq> parameterTexts (?T @ [token])"
    by blast
  have j4: "tType token = TokenParameter \<Longrightarrow> tValue token \<in> parameterTexts (?T @ [token])"
    unfolding parameterTexts_append by simp
  from Parse_outside_shape [OF assms(1)]
  consider (taken) "Tokens (topLevelResult w) = ?T @ [token]" "prevState w = tokenState"
      "statementParser w = statementParser v" "params (cte w) = params (cte v)"
      "Body (topLevelResult w) = Body (topLevelResult v)
       \<or> Body (topLevelResult w) = Body (topLevelResult v) @ [cteUnknownStatement (cte v) token]"
    | (created) p where "topLevelResult w = topLevelResult v" "prevState w = prevState v"
      "\<not> isCte (cte w)" "set (params (cte w)) \<subseteq> set (params (cte v))"
      "createStatementParserByToken token nextToken opts = Inr p"
      "statementParser w = Some p \<or> statementParser w = Some (startCteStatement (cte v) p)"
    by blast
  then show ?thesis
  proof cases
    case taken
    from taken(5) j3 have b: "\<forall>s \<in> set (Body (topLevelResult w)).
           set (cParameters s) \<subseteq> parameterTexts (?T @ [token])"
      by (auto simp: cteUnknownStatement_def)
    from taken(1-4) assms(3,4,5) i1 j2 j4 b show ?thesis
      by (auto simp: tokensInvariant_def captureCteParameter_def)
  next
    case created
    from createStatementParserByToken_parameters [OF created(5)]
    have k: "stepsKeepParameters p" and e: "sParameters (statement p) = []" by simp_all
    have kc: "stepsKeepParameters (startCteStatement (cte v) p)"
      using k by (simp add: stepsKeepParameters_def startCteStatement_def)
    have ec: "set (sParameters (statement (startCteStatement (cte v) p))) \<subseteq> parameterTexts ?T"
      using e i2 by (simp add: startCteStatement_def)
    from created(3) have c: "captureCteParameter token w = w"
      by (simp add: captureCteParameter_def)
    have tw: "Tokens (topLevelResult w) = ?T" using created(1) by simp
    from created(6) k e kc ec
    have sp: "case statementParser w of
           None \<Rightarrow> True
         | Some p \<Rightarrow> stepsKeepParameters p
             \<and> set (sParameters (statement p)) \<subseteq> parameterTexts (Tokens (topLevelResult w))"
      unfolding tw by auto
    from created(4) i2 have "set (params (cte w)) \<subseteq> parameterTexts ?T" by blast
    with created(1,2) i0 i1 i3 sp show ?thesis
      unfolding c tokensInvariant_def by simp
  qed
qed

lemma Parse_step_tokens:
  assumes "Parse_step opts v = Inr v'" and "tokensInvariant inp v"
  shows "tokensInvariant inp v'"
proof -
  from assms(1) obtain token tokenState where
    sc: "ScanToken (initState [] (Some (prevState v))) (poDialect opts) (poParamTypes opts)
           = Inr (token, tokenState)"
    by (auto simp: Parse_step_def split: sum.splits)
  from assms(1) sc obtain nextToken where
    nx: "nextNonWhitespaceToken tokenState (poDialect opts) (poParamTypes opts) = Inr nextToken"
    by (auto simp: Parse_step_def split: sum.splits)
  from assms(2) have i0: "Input (prevState v) = inp" by (simp add: tokensInvariant_def)
  from ScanToken_tStart(3) [OF sc] i0 have it: "Input tokenState = inp"
    by (simp add: initState_def)
  have ct: "colonBesideColon inp (tStart token) \<longrightarrow> token = colonToken (tStart token)"
    using ScanToken_at_colon [OF sc] i0 by simp
  show ?thesis
  proof (cases "statementParser v")
    case None
    with assms(1) sc nx obtain w where
      w: "Parse_outside opts token nextToken tokenState v = Inr w"
      and v': "v' = captureCteParameter token w"
      by (auto simp: Parse_step_def split: sum.splits)
    from Parse_outside_tokens [OF w assms(2) None it ct] v' show ?thesis by simp
  next
    case (Some p)
    with assms(1) sc nx have "Parse_feed p token nextToken tokenState v = Inr v'"
      by (simp add: Parse_step_def)
    from Parse_feed_tokens [OF this assms(2) Some it ct] show ?thesis .
  qed
qed

lemma Parse_loop_tokens:
  "Parse_loop opts v = Inr v' \<Longrightarrow> tokensInvariant inp v \<Longrightarrow> tokensInvariant inp v'"
proof (induction opts v rule: Parse_loop.induct)
  case (1 opts v)
  show ?case
  proof (cases "Position (prevState v) < int (length (Input (prevState v))) - 1")
    case False
    with "1.prems" show ?thesis by (subst (asm) Parse_loop.simps) simp
  next
    case True
    with "1.prems"(1) obtain w where s: "Parse_step opts v = Inr w"
      and l: "Parse_loop opts w = Inr v'"
      by (subst (asm) Parse_loop.simps) (auto split: sum.splits)
    from "1.IH" [OF True s l Parse_step_tokens [OF s "1.prems"(2)]] show ?thesis .
  qed
qed

lemma Parse_tokens:
  assumes "Parse input isStrict dialect identifyTables paramTypes = Inr result"
  shows "(\<forall>t \<in> set (Tokens result).
            colonBesideColon input (tStart t) \<longrightarrow> t = colonToken (tStart t))
         \<and> (\<forall>s \<in> set (Body result). set (cParameters s) \<subseteq> parameterTexts (Tokens result))"
proof -
  let ?opts = "\<lparr>IsStrict = isStrict, poDialect = dialect, poIdentifyTables = identifyTables,
                 poParamTypes = paramTypes\<rparr>"
  let ?v = "\<lparr>prevState = initState input None, statementParser = None,
             cte = \<lparr>isCte = False, asSeen = False, statementEnd = False, parens = 0,
                    cstate = initState input None, params = []\<rparr>,
             topLevelResult =
               \<lparr>prType = str ''QUERY'', prStart = 0, prEnd = int (length input) - 1,
                Body = [], Tokens = []\<rparr>\<rparr>"
  have i: "tokensInvariant input ?v"
    by (simp add: tokensInvariant_def initState_def)
  from assms obtain v where l: "Parse_loop ?opts ?v = Inr v" and r: "result = closeLastStatement v"
    by (auto simp: Parse_def Let_def split: sum.splits)
  from Parse_loop_tokens [OF l i] have t: "tokensInvariant input v" .
  have tk: "Tokens result = Tokens (topLevelResult v)"
    by (simp add: r closeLastStatement_def split: option.splits)
  have bd: "\<forall>s \<in> set (Body result). set (cParameters s) \<subseteq> parameterTexts (Tokens (topLevelResult v))"
    using t by (auto simp: r closeLastStatement_def tokensInvariant_def ToConcrete_def
                     split: option.splits if_splits)
  from t tk bd show ?thesis by (simp add: tokensInvariant_def)
qed

text \<open>
  C10, as the claim states it: a colon with a colon just before or just after it is
  never lexed as a parameter token, so that a cast written \<^verbatim>\<open>::\<close> adds no entry to a
  parameters list. The code does otherwise when a parameter token that starts earlier
  runs over the colon. With the defaults of BigQuery, where \<^verbatim>\<open>@\<close> is the prefix of quoted
  parameters, the 14 runes of \<^verbatim>\<open>SELECT @"a::b"\<close> hold a colon at offset 10 followed by a
  colon at offset 11; the quoted form stops at the first colon and takes it for the
  closing quote, so that the parameter token runs from offset 7 to offset 10, and its
  text \<^verbatim>\<open>@"a:\<close> is the one entry of the statement's parameters, which \<^verbatim>\<open>Identify\<close> returns.
\<close>

theorem C10_quoted_parameter_runs_over_colon:
  "colonBesideColon (str ''SELECT @'' @ [34] @ str ''a::b'' @ [34]) 10
   \<and> map tType (Tokens (projr (Parse (str ''SELECT @'' @ [34] @ str ''a::b'' @ [34]) True
        DialectBigQuery False (DefaultParamTypesFor DialectBigQuery))))
     = [TokenKeyword, TokenWhitespace, TokenParameter, TokenUnknown, TokenUnknown, TokenKeyword]
   \<and> map tStart (Tokens (projr (Parse (str ''SELECT @'' @ [34] @ str ''a::b'' @ [34]) True
        DialectBigQuery False (DefaultParamTypesFor DialectBigQuery))))
     = [0, 6, 7, 11, 12, 13]
   \<and> map tEnd (Tokens (projr (Parse (str ''SELECT @'' @ [34] @ str ''a::b'' @ [34]) True
        DialectBigQuery False (DefaultParamTypesFor DialectBigQuery))))
     = [5, 6, 10, 11, 12, 13]
   \<and> map cParameters (Body (projr (Parse (str ''SELECT @'' @ [34] @ str ''a::b'' @ [34]) True
        DialectBigQuery False (DefaultParamTypesFor DialectBigQuery))))
     = [[[64, 34, 97, 58]]]
   \<and> map rParameters (the (fst (Identify (str ''SELECT @'' @ [34] @ str ''a::b'' @ [34])
        \<lparr>optStrict = None, optDialect = Some DialectBigQuery, optIdentifyTables = None,
         optParamTypes = None\<rparr>)))
     = [[[64, 34, 97, 58]]]"
  by code_simp

text \<open>
  C10, amended. For every input, dialect and parameter configuration on which \<^verbatim>\<open>Parse\<close>
  returns: a token of the stream that starts at a colon beside a colon is never a
  parameter token (it is that colon alone, of type unknown), also when the colon is a
  prefix of numbered, named or quoted parameters; and every entry of every statement's
  parameters list is the text of a parameter token of the stream, which does not start
  at a colon beside a colon.
\<close>

theorem C10_no_parameter_starts_at_colon_beside_colon:
  assumes "Parse input isStrict dialect identifyTables paramTypes = Inr result"
  shows "(\<forall>t \<in> set (Tokens result).
            colonBesideColon input (tStart t) \<longrightarrow>
            tType t = TokenUnknown \<and> tValue t = [58] \<and> tEnd t = tStart t)
         \<and> (\<forall>s \<in> set (Body result). \<forall>x \<in> set (cParameters s).
              \<exists>t \<in> set (Tokens result).
                tType t = TokenParameter \<and> tValue t = x \<and> \<not> colonBesideColon input (tStart t))"
proof -
  from Parse_tokens [OF assms] have
    a: "\<forall>t \<in> set (Tokens result).
          colonBesideColon input (tStart t) \<longrightarrow> t = colonToken (tStart t)"
    and b: "\<forall>s \<in> set (Body result). set (cParameters s) \<subseteq> parameterTexts (Tokens result)"
    by simp_all
  have 1: "tType t = TokenUnknown \<and> tValue t = [58] \<and> tEnd t = tStart t"
    if "t \<in> set (Tokens result)" "colonBesideColon input (tStart t)" for t
  proof -
    from a that have "t = colonToken (tStart t)" by blast
    then have "tType t = tType (colonToken (tStart t))" "tValue t = tValue (colonToken (tStart t))"
      "tEnd t = tEnd (colonToken (tStart t))" by simp_all
    then show ?thesis by (simp add: colonToken_def)
  qed
  have 2: "\<exists>t \<in> set (Tokens result).
             tType t = TokenParameter \<and> tValue t = x \<and> \<not> colonBesideColon input (tStart t)"
    if "s \<in> set (Body result)" "x \<in> set (cParameters s)" for s x
  proof -
    from b that have "x \<in> parameterTexts (Tokens result)" by blast
    then obtain t where t: "t \<in> set (Tokens result)" "tType t = TokenParameter" "tValue t = x"
      by (auto simp: parameterTexts_def)
    from 1 [OF t(1)] t(2) have "\<not> colonBesideColon input (tStart t)" by auto
    with t show ?thesis by blast
  qed
  from 1 2 show ?thesis by blast
qed

text \<open>
  In \<^verbatim>\<open>SELECT a::int, :b\<close>, with the defaults of MSSQL, where the colon is the prefix of
  named parameters, the colons at offsets 8 and 9 are tokens of type unknown, and the one
  parameter is \<^verbatim>\<open>:b\<close>.
\<close>

theorem C10_no_parameter_starts_at_colon_beside_colon_witness:
  "\<exists>result.
     Parse (str ''SELECT a::int, :b'') True DialectMSSQL False (DefaultParamTypesFor DialectMSSQL)
       = Inr result
     \<and> Named (DefaultParamTypesFor DialectMSSQL) = [58]
     \<and> colonBesideColon (str ''SELECT a::int, :b'') 8
     \<and> colonBesideColon (str ''SELECT a::int, :b'') 9
     \<and> map tStart (Tokens result) = [0, 6, 7, 8, 9, 10, 13, 14, 15]
     \<and> tType (Tokens result ! 3) = TokenUnknown \<and> tValue (Tokens result ! 3) = [58]
     \<and> tType (Tokens result ! 4) = TokenUnknown \<and> tValue (Tokens result ! 4) = [58]
     \<and> tType (Tokens result ! 8) = TokenParameter
     \<and> map cParameters (Body result) = [[str '':b'']]"
proof -
  let ?q = "str ''SELECT a::int, :b''"
  have c: "map_sum id (\<lambda>r. (map tStart (Tokens r), tType (Tokens r ! 8), map cParameters (Body r)))
             (Parse ?q True DialectMSSQL False (DefaultParamTypesFor DialectMSSQL))
           = Inr ([0, 6, 7, 8, 9, 10, 13, 14, 15], TokenParameter, [[str '':b'']])"
    by code_simp
  then obtain result where
    p: "Parse ?q True DialectMSSQL False (DefaultParamTypesFor DialectMSSQL) = Inr result"
    and ts: "map tStart (Tokens result) = [0, 6, 7, 8, 9, 10, 13, 14, 15]"
    and t8: "tType (Tokens result ! 8) = TokenParameter"
    and ps: "map cParameters (Body result) = [[str '':b'']]"
    by (cases "Parse ?q True DialectMSSQL False (DefaultParamTypesFor DialectMSSQL)") auto
  have n: "Named (DefaultParamTypesFor DialectMSSQL) = [58]" by code_simp
  have c8: "colonBesideColon ?q 8" and c9: "colonBesideColon ?q 9" by code_simp+
  from ts have len: "length (Tokens result) = 9"
    using length_map [of tStart "Tokens result"] by simp
  then have m3: "Tokens result ! 3 \<in> set (Tokens result)"
    and m4: "Tokens result ! 4 \<in> set (Tokens result)" by simp_all
  from ts len have s3: "tStart (Tokens result ! 3) = 8" and s4: "tStart (Tokens result ! 4) = 9"
    using nth_map [of 3 "Tokens result" tStart] nth_map [of 4 "Tokens result" tStart] by simp_all
  from C10_no_parameter_starts_at_colon_beside_colon [OF p] m3 m4 s3 s4 c8 c9
  have "tType (Tokens result ! 3) = TokenUnknown \<and> tValue (Tokens result ! 3) = [58]
      \<and> tType (Tokens result ! 4) = TokenUnknown \<and> tValue (Tokens result ! 4) = [58]"
    by simp
  with p n c8 c9 ts t8 ps show ?thesis by simp
qed


end
